(* ===== verification/Prelude.thy ===== *)
theory Prelude
  imports Complex_Main "HOL-Library.Multiset"
begin


text \<open>
  Shared vocabulary of the development: the model's base types, the error values that
  stand for the exceptions thrown by the TypeScript sources, the JavaScript builtins
  the sources call on strings and arrays (\<open>toLowerCase\<close>, \<open>includes\<close>, \<open>endsWith\<close>,
  \<open>trim\<close>, \<open>slice\<close>, number formatting), and the \<open>for (i = 0; i < n; i += size)\<close>
  batching loop that three of the sources use, with the lemmas every component shares.
\<close>

section \<open>Base types\<close>

text \<open>JavaScript numbers that hold similarities and vector components are modelled as
  exact reals (no rounding); sizes, counts and positions as \<open>nat\<close>; timestamps as
  milliseconds since the epoch.\<close>

type_synonym vec = "real list"

type_synonym timestamp = nat

named_theorems js_simps "evaluation rules of the modelled JavaScript builtins"

named_theorems batch_simps "facts about the slice-by-slice batching loop"

section \<open>Errors\<close>

text \<open>Every \<open>throw\<close> of the sources, and every failure of a collaborator they await,
  is one constructor; \<open>err_message\<close> is the \<open>message\<close> the caller's \<open>catch\<close> reads.\<close>

datatype error =
    FileNotFound string            \<comment> \<open>\<open>File not found: ${filePath}\<close>\<close>
  | PdfReadFailed string           \<comment> \<open>\<open>Failed to read PDF: ${msg}\<close>\<close>
  | ProviderFailed string          \<comment> \<open>embedding provider rejected the request\<close>
  | EmbeddingFailed string         \<comment> \<open>\<open>Failed to generate embedding: ${msg}\<close>\<close>
  | DimensionMismatch              \<comment> \<open>\<open>Embeddings must have the same dimensions\<close>\<close>
  | StoreFailed string             \<comment> \<open>the database rejected a statement\<close>
  | TypeErr string                 \<comment> \<open>a property read on \<open>undefined\<close>\<close>
  | RetrievalFailed string         \<comment> \<open>\<open>Failed to retrieve brand voice context: ${msg}\<close>\<close>
  | PollInProgress                 \<comment> \<open>\<open>Content polling is already in progress\<close>\<close>
  | FsFailed string                \<comment> \<open>a rejected \<open>fs\<close> call, with Node's message\<close>
  | ApiFailed string               \<comment> \<open>\<open>Webflow API error: ...\<close> / \<open>HubSpot API error: ...\<close>\<close>
  | NullDestructure string         \<comment> \<open>destructuring a property of \<open>null\<close>\<close>
  | ConfigError string             \<comment> \<open>\<open>throw new Error(msg)\<close> for a missing setting\<close>

fun err_message :: "error \<Rightarrow> string" where
  "err_message (FileNotFound p) = ''File not found: '' @ p"
| "err_message (PdfReadFailed m) = ''Failed to read PDF: '' @ m"
| "err_message (ProviderFailed m) = m"
| "err_message (EmbeddingFailed m) = ''Failed to generate embedding: '' @ m"
| "err_message DimensionMismatch = ''Embeddings must have the same dimensions''"
| "err_message (StoreFailed m) = m"
| "err_message (TypeErr m) = ''Cannot read properties of undefined (reading '' @ m @ '')''"
| "err_message (RetrievalFailed m) = ''Failed to retrieve brand voice context: '' @ m"
| "err_message PollInProgress = ''Content polling is already in progress''"
| "err_message (FsFailed m) = m"
| "err_message (ApiFailed m) = m"
| "err_message (ConfigError m) = m"
| "err_message (NullDestructure p) =
     ''Cannot destructure property '' @ CHR 0x27 # p @ CHR 0x27 # '' of '' @ CHR 0x27 # ''(intermediate value)'' @ CHR 0x27 # '' as it is null.''"

section \<open>JavaScript string builtins\<close>

text \<open>Strings are sequences of UTF-16 code units in JavaScript; the model reads each
  \<open>char\<close> as one code unit, which is exact for ASCII text.\<close>

definition lower_char :: "char \<Rightarrow> char" where
  "lower_char c = (let n = (of_char c :: nat) in if 65 \<le> n \<and> n \<le> 90 then char_of (n + 32) else c)"

definition to_lower :: "string \<Rightarrow> string" where
  "to_lower s = map lower_char s"

text \<open>\<open>s.includes(t)\<close>: some position of \<open>s\<close> starts an occurrence of \<open>t\<close>.\<close>

definition str_includes :: "string \<Rightarrow> string \<Rightarrow> bool" where
  "str_includes s t = (\<exists>k \<in> set [0..<Suc (length s)]. take (length t) (drop k s) = t)"

text \<open>\<open>s.endsWith(t)\<close>.\<close>

definition ends_with :: "string \<Rightarrow> string \<Rightarrow> bool" where
  "ends_with s t = (length t \<le> length s \<and> drop (length s - length t) s = t)"

text \<open>The white space \<open>String.prototype.trim\<close> removes (its Latin-1 part).\<close>

definition js_space :: "char \<Rightarrow> bool" where
  "js_space c = (c \<in> set [CHR '' '', CHR 0x09, CHR 0x0A, CHR 0x0B, CHR 0x0C, CHR 0x0D, CHR 0xA0])"

definition js_trim :: "string \<Rightarrow> string" where
  "js_trim s = rev (dropWhile js_space (rev (dropWhile js_space s)))"

text \<open>\<open>String(n)\<close> for a natural number: its decimal digits.\<close>

fun nat_str :: "nat \<Rightarrow> string" where
  "nat_str n = (if n < 10 then [''0123456789'' ! n] else nat_str (n div 10) @ [''0123456789'' ! (n mod 10)])"

declare nat_str.simps [simp del]

text \<open>\<open>s.substring(a, b)\<close> and \<open>xs.slice(a, b)\<close> for \<open>a \<le> b\<close>, both clamped to the length.\<close>

definition substr :: "'a list \<Rightarrow> nat \<Rightarrow> nat \<Rightarrow> 'a list" where
  "substr s a b = take (b - a) (drop a s)"

text \<open>\<open>s.substring(a, b)\<close> for integer arguments: both clamped to \<open>[0, length]\<close>, swapped
  when \<open>a > b\<close>.\<close>

definition js_substring :: "string \<Rightarrow> int \<Rightarrow> int \<Rightarrow> string" where
  "js_substring s a b =
     (let a' = min (nat a) (length s); b' = min (nat b) (length s)
      in take (max a' b' - min a' b') (drop (min a' b') s))"

text \<open>The line feed \<open>'\n'\<close>.\<close>

definition nl :: string where
  "nl = [CHR 0x0A]"

text \<open>JSON values of the \<open>metadata\<close> column: an object is its list of fields in insertion
  order (\<open>undefined\<close> fields are dropped by \<open>JSON.stringify\<close>).\<close>

datatype jval = JStr string | JNum nat | JBool bool

type_synonym jobj = "(string \<times> jval) list"

text \<open>\<open>{ ...a, ...b }\<close>: the fields of \<open>a\<close> in order, those also in \<open>b\<close> with \<open>b\<close>'s value,
  then the fields of \<open>b\<close> that \<open>a\<close> lacks.\<close>

definition obj_merge :: "jobj \<Rightarrow> jobj \<Rightarrow> jobj" where
  "obj_merge a b =
     map (\<lambda>(k, v). (k, case map_of b k of Some v' \<Rightarrow> v' | None \<Rightarrow> v)) a @
     filter (\<lambda>(k, v). k \<notin> set (map fst a)) b"

section \<open>The batching loop\<close>

text \<open>
  \<^verbatim>\<open>for (let i = 0; i < xs.length; i += size) { const batch = xs.slice(i, i + size); ... }\<close>
  visits these batches, in this order, when \<open>size > 0\<close>. (With \<open>size = 0\<close> the loop
  never ends; the components whose size is a parameter model that loop separately.)
\<close>

function batches_from :: "nat \<Rightarrow> nat \<Rightarrow> 'a list \<Rightarrow> 'a list list" where
  "batches_from bs i xs =
     (if 0 < bs \<and> i < length xs then take bs (drop i xs) # batches_from bs (i + bs) xs else [])"
  by pat_completeness auto

termination
  by (relation "measure (\<lambda>(bs, i, xs). length xs - i)") auto

declare batches_from.simps [simp del]

abbreviation batches :: "nat \<Rightarrow> 'a list \<Rightarrow> 'a list list" where
  "batches bs xs \<equiv> batches_from bs 0 xs"

section \<open>Lists\<close>

text \<open>\<open>xs[i]\<close> read as JavaScript does: \<open>undefined\<close> (here \<open>None\<close>) out of range.\<close>

definition nth_opt :: "'a list \<Rightarrow> nat \<Rightarrow> 'a option" where
  "nth_opt xs i = (if i < length xs then Some (xs ! i) else None)"

section \<open>Array.prototype.map with a callback that may throw\<close>

text \<open>The first exception thrown by the callback ends the whole \<open>map\<close>.\<close>

fun map_throw :: "('a \<Rightarrow> error + 'b) \<Rightarrow> 'a list \<Rightarrow> error + 'b list" where
  "map_throw f [] = Inr []"
| "map_throw f (x # xs) =
     (case f x of Inl e \<Rightarrow> Inl e
      | Inr y \<Rightarrow> (case map_throw f xs of Inl e \<Rightarrow> Inl e | Inr ys \<Rightarrow> Inr (y # ys)))"

section \<open>Ranking by descending score\<close>

text \<open>\<^verbatim>\<open>items.sort((a, b) => score(b) - score(a))\<close>: \<open>Array.prototype.sort\<close> is stable
  (ECMAScript 2019 and later), so the result is the stable sort by descending score, which
  is \<open>sort_key\<close> on the negated score.\<close>

definition rank_desc :: "('a \<Rightarrow> real) \<Rightarrow> 'a list \<Rightarrow> 'a list" where
  "rank_desc f xs = sort_key (\<lambda>x. - f x) xs"

section \<open>Array.prototype.join\<close>

text \<open>JavaScript truthiness of a value that is a string, \<open>null\<close> or \<open>undefined\<close>: the
  empty string is falsy.\<close>

definition js_truthy_str :: "string option \<Rightarrow> bool" where
  "js_truthy_str x = (case x of None \<Rightarrow> False | Some s \<Rightarrow> s \<noteq> [])"

text \<open>\<open>Array.prototype.join(sep)\<close> on strings.\<close>

fun join_str :: "string \<Rightarrow> string list \<Rightarrow> string" where
  "join_str sep [] = []"
| "join_str sep [x] = x"
| "join_str sep (x # y # xs) = x @ sep @ join_str sep (y # xs)"

section \<open>Lemmas: The batching loop\<close>

lemma batches_from_step [batch_simps]:
  "0 < bs \<Longrightarrow> i < length xs \<Longrightarrow>
     batches_from bs i xs = take bs (drop i xs) # batches_from bs (i + bs) xs"
  by (simp add: batches_from.simps)

lemma batches_from_done [batch_simps]:
  "length xs \<le> i \<Longrightarrow> batches_from bs i xs = []"
  by (simp add: batches_from.simps)

lemma concat_batches_from [batch_simps]:
  "0 < bs \<Longrightarrow> concat (batches_from bs i xs) = drop i xs"
proof (induction bs i xs rule: batches_from.induct)
  case (1 bs i xs)
  show ?case
  proof (cases "i < length xs")
    case True
    with "1.IH" "1.prems" have "concat (batches_from bs (i + bs) xs) = drop (i + bs) xs"
      by simp
    with True "1.prems" show ?thesis
      by (simp add: batches_from_step add.commute flip: drop_drop)
  next
    case False
    then show ?thesis by (simp add: batches_from_done)
  qed
qed

lemma ceil_div_step:
  assumes "0 < n" and "0 < bs"
  shows "(n + bs - 1) div bs = Suc ((n - bs + bs - 1) div bs)"
proof (cases "n \<le> bs")
  case True
  then have "(n + bs - 1) div bs = 1"
    using assms by (intro div_nat_eqI) auto
  moreover have "n - bs + bs - 1 < bs"
    using True assms by linarith
  then have "(n - bs + bs - 1) div bs = 0"
    by (rule div_less)
  ultimately show ?thesis by simp
next
  case False
  then have "n + bs - 1 = (n - bs + bs - 1) + bs" by linarith
  then have "(n + bs - 1) div bs = ((n - bs + bs - 1) + bs) div bs" by (rule arg_cong)
  also have "\<dots> = Suc ((n - bs + bs - 1) div bs)" using assms by (simp only: div_add_self2)
  finally show ?thesis .
qed

lemma length_batches_from [batch_simps]:
  "0 < bs \<Longrightarrow> length (batches_from bs i xs) = (length xs - i + bs - 1) div bs"
proof (induction bs i xs rule: batches_from.induct)
  case (1 bs i xs)
  show ?case
  proof (cases "i < length xs")
    case True
    with "1.IH" "1.prems" have IH: "length (batches_from bs (i + bs) xs) = (length xs - (i + bs) + bs - 1) div bs"
      by simp
    have "(length xs - i + bs - 1) div bs = Suc ((length xs - (i + bs) + bs - 1) div bs)"
      using True "1.prems" ceil_div_step [of "length xs - i" bs] by (simp only: diff_diff_add)
    with True "1.prems" IH show ?thesis by (simp add: batches_from_step)
  next
    case False
    then show ?thesis using "1.prems" by (simp add: batches_from_done)
  qed
qed

lemma batches_from_nonempty_bounded [batch_simps]:
  "b \<in> set (batches_from bs i xs) \<Longrightarrow> b \<noteq> [] \<and> length b \<le> bs"
proof (induction bs i xs rule: batches_from.induct)
  case (1 bs i xs)
  show ?case
  proof (cases "0 < bs \<and> i < length xs")
    case True
    with "1.prems" have "b = take bs (drop i xs) \<or> b \<in> set (batches_from bs (i + bs) xs)"
      by (simp add: batches_from_step)
    with True "1.IH" show ?thesis by auto
  next
    case False
    with "1.prems" show ?thesis by (simp add: batches_from.simps)
  qed
qed

section \<open>Lemmas: Lists\<close>

lemma nth_opt_append_left [simp]:
  "i < length xs \<Longrightarrow> nth_opt (xs @ ys) i = nth_opt xs i"
  by (simp add: nth_opt_def nth_append)

lemma nth_opt_None_iff [simp]: "nth_opt xs i = None \<longleftrightarrow> length xs \<le> i"
  by (simp add: nth_opt_def)

section \<open>Lemmas: Array.prototype.map with a callback that may throw\<close>

lemma map_throw_Inr_map [simp]:
  "(\<And>x. x \<in> set xs \<Longrightarrow> f x = Inr (g x)) \<Longrightarrow> map_throw f xs = Inr (map g xs)"
  by (induction xs) auto

lemma map_throw_Inl:
  "x \<in> set xs \<Longrightarrow> f x = Inl e \<Longrightarrow> \<exists>e'. map_throw f xs = Inl e'"
  by (induction xs) (auto split: sum.splits)

lemma map_throw_Inr_elem:
  "map_throw f xs = Inr ys \<Longrightarrow> y \<in> set ys \<Longrightarrow> \<exists>x\<in>set xs. f x = Inr y"
  by (induction xs arbitrary: ys) (auto split: sum.splits)

section \<open>Lemmas: Ranking by descending score\<close>

lemma rank_desc_sorted [simp]: "sorted_wrt (\<lambda>x y. f y \<le> f x) (rank_desc f xs)"
proof -
  have "sorted (map (\<lambda>x. - f x) (sort_key (\<lambda>x. - f x) xs))"
    by (rule sorted_sort_key)
  then show ?thesis
    by (simp add: rank_desc_def sorted_map)
qed

lemma mset_rank_desc [simp]: "mset (rank_desc f xs) = mset xs"
  by (simp add: rank_desc_def)

lemma set_rank_desc [simp]: "set (rank_desc f xs) = set xs"
  by (simp add: rank_desc_def)

lemma length_rank_desc [simp]: "length (rank_desc f xs) = length xs"
  by (simp add: rank_desc_def)

lemma rank_desc_stable:
  "filter (\<lambda>y. f y = k) (rank_desc f xs) = filter (\<lambda>y. f y = k) xs"
  using sort_key_stable [of "\<lambda>x. - f x" "- k" xs] by (simp add: rank_desc_def)

lemma sorted_wrt_take_prefix:
  "sorted_wrt R xs \<Longrightarrow> sorted_wrt R (take k xs)"
  by (metis append_take_drop_id sorted_wrt_append)

lemma sorted_wrt_take_drop:
  "sorted_wrt R xs \<Longrightarrow> y \<in> set (take k xs) \<Longrightarrow> z \<in> set (drop k xs) \<Longrightarrow> R y z"
  by (metis append_take_drop_id sorted_wrt_append)

section \<open>Lemmas: string search and \<open>Array.prototype.join\<close>\<close>

lemma str_includes_iff: "str_includes s t \<longleftrightarrow> (\<exists>u v. s = u @ t @ v)"
proof
  assume "str_includes s t"
  then obtain k where k: "k \<in> set [0..<Suc (length s)]" "take (length t) (drop k s) = t"
    unfolding str_includes_def by blast
  then have "s = take k s @ t @ drop (length t) (drop k s)"
    by (metis append_take_drop_id)
  then show "\<exists>u v. s = u @ t @ v" by blast
next
  assume "\<exists>u v. s = u @ t @ v"
  then obtain u v where "s = u @ t @ v" by blast
  then show "str_includes s t"
    by (auto simp: str_includes_def intro!: bexI [of _ "length u"])
qed

lemma str_includes_trans: "str_includes s t \<Longrightarrow> str_includes t w \<Longrightarrow> str_includes s w"
proof -
  assume "str_includes s t" "str_includes t w"
  then obtain u v u' v' where "s = u @ t @ v" "t = u' @ w @ v'" by (auto simp: str_includes_iff)
  then have "s = (u @ u') @ w @ (v' @ v)" by simp
  then show ?thesis unfolding str_includes_iff by blast
qed

lemma str_includes_infix [intro]: "str_includes (u @ t @ v) t"
  unfolding str_includes_iff by blast

lemma join_str_includes:
  "x \<in> set xs \<Longrightarrow> str_includes (join_str sep xs) x"
proof (induction sep xs rule: join_str.induct)
  case (1 sep)
  then show ?case by simp
next
  case (2 sep y)
  then show ?case unfolding str_includes_iff by (intro exI [of _ "[]"]) simp
next
  case (3 sep a b xs)
  show ?case
  proof (cases "x = a")
    case True
    then show ?thesis unfolding str_includes_iff
      by (intro exI [of _ "[]"] exI [of _ "sep @ join_str sep (b # xs)"]) simp
  next
    case False
    with "3.prems" have "str_includes (join_str sep (b # xs)) x" by (intro "3.IH") simp
    then obtain u v where "join_str sep (b # xs) = u @ x @ v" by (auto simp: str_includes_iff)
    then have "join_str sep (a # b # xs) = (a @ sep @ u) @ x @ v" by simp
    then show ?thesis unfolding str_includes_iff by blast
  qed
qed

section \<open>Lemmas: Trimming\<close>

lemma all_dropWhile_iff: "(\<forall>x\<in>set (dropWhile P s). P x) \<longleftrightarrow> dropWhile P s = []"
proof
  assume all: "\<forall>x\<in>set (dropWhile P s). P x"
  show "dropWhile P s = []"
  proof (rule ccontr)
    assume ne: "dropWhile P s \<noteq> []"
    then have "\<not> P (hd (dropWhile P s))" by (rule hd_dropWhile)
    moreover have "hd (dropWhile P s) \<in> set (dropWhile P s)" using ne by (rule hd_in_set)
    ultimately show False using all by blast
  qed
next
  assume "dropWhile P s = []"
  then show "\<forall>x\<in>set (dropWhile P s). P x" by (metis empty_iff empty_set)
qed

lemma dropWhile_hd_not: "xs \<noteq> [] \<Longrightarrow> \<not> P (hd xs) \<Longrightarrow> dropWhile P xs = xs"
  by (cases xs) auto

lemma js_trim_Nil_iff: "js_trim s = [] \<longleftrightarrow> (\<forall>c\<in>set s. js_space c)"
  by (simp add: js_trim_def dropWhile_eq_Nil_conv all_dropWhile_iff)

lemma rev_dropWhile_rev_prefix: "xs = rev (dropWhile P (rev xs)) @ rev (takeWhile P (rev xs))"
  by (metis rev_append rev_rev_ident takeWhile_dropWhile_id)

lemma js_trim_ends:
  assumes "js_trim s \<noteq> []"
  shows "\<not> js_space (last (js_trim s))" "\<not> js_space (hd (js_trim s))"
proof -
  let ?u = "dropWhile js_space s"
  have ne: "dropWhile js_space (rev ?u) \<noteq> []" using assms by (simp add: js_trim_def)
  then show "\<not> js_space (last (js_trim s))"
    by (simp add: js_trim_def last_rev hd_dropWhile)
  have "?u \<noteq> []" using ne by (metis Nil_is_rev_conv dropWhile.simps(1))
  then have h: "\<not> js_space (hd ?u)" by (simp add: hd_dropWhile)
  have "hd ?u = hd (rev (dropWhile js_space (rev ?u)))"
    using rev_dropWhile_rev_prefix [of ?u js_space] ne by (metis hd_append2 Nil_is_rev_conv)
  then show "\<not> js_space (hd (js_trim s))" using h by (simp add: js_trim_def)
qed

lemma js_trim_id:
  assumes "xs = [] \<or> (\<not> js_space (hd xs) \<and> \<not> js_space (last xs))"
  shows "js_trim xs = xs"
proof (cases xs rule: rev_cases)
  case Nil then show ?thesis by (simp add: js_trim_def)
next
  case (snoc ys y)
  then have "\<not> js_space (hd xs)" "\<not> js_space y" using assms by auto
  moreover have "xs \<noteq> []" using snoc by simp
  then have "dropWhile js_space xs = xs" using \<open>\<not> js_space (hd xs)\<close> by (rule dropWhile_hd_not)
  ultimately show ?thesis using snoc by (simp add: js_trim_def)
qed

lemma js_trim_Nil [simp]: "js_trim [] = []"
  by (simp add: js_trim_def)

lemma js_trim_idem [simp]: "js_trim (js_trim s) = js_trim s"
  using js_trim_ends js_trim_id by blast

lemma js_trim_length: "length (js_trim s) \<le> length s"
  by (simp add: js_trim_def) (metis length_dropWhile_le order_trans length_rev)

end
