(* ===== verification/Content.thy ===== *)
theory Content
  imports Prelude "HOL-Library.Product_Lexorder"
begin

text \<open>The content catalogue: the \<open>ContentSource\<close> and \<open>ContentType\<close> enums and the
  \<open>ContentItem\<close> interfaces of the database types (\<open>src/unnamed/part_000\<close>), the
  \<open>content_items\<close> table of the schema (\<open>001_initial_schema.sql\<close>) and every query of
  \<open>src/lib/db/queries/content.ts\<close>. The table is a list of rows in table order with a
  fresh-id counter; \<open>UNIQUE (url)\<close> is kept by the upsert. \<open>NOW()\<close> is the time \<open>now\<close>
  (milliseconds since the epoch) the caller passes; the statements of one call share it.
  A database that is down rejects every statement. Queries that the code issues through the
  tagged template \<open>sql\<close> with a parameter inside a quoted literal are modelled with the
  placeholder count the server sees, which is what makes them fail.\<close>

section \<open>Enums and rows\<close>

datatype content_source = Webflow | HubSpot | YouTube | Manual

datatype content_type =
  BlogPost | Whitepaper | CaseStudy | Webinar | Video | LandingPage | LabsApp | OtherContent

fun content_source_name :: "content_source \<Rightarrow> string" where
  "content_source_name Webflow = ''webflow''"
| "content_source_name HubSpot = ''hubspot''"
| "content_source_name YouTube = ''youtube''"
| "content_source_name Manual = ''manual''"

fun content_type_name :: "content_type \<Rightarrow> string" where
  "content_type_name BlogPost = ''blog_post''"
| "content_type_name Whitepaper = ''whitepaper''"
| "content_type_name CaseStudy = ''case_study''"
| "content_type_name Webinar = ''webinar''"
| "content_type_name Video = ''video''"
| "content_type_name LandingPage = ''landing_page''"
| "content_type_name LabsApp = ''labs_app''"
| "content_type_name OtherContent = ''other''"

text \<open>The labels of the SQL enums \<open>content_source\<close> and \<open>content_type\<close>, in declaration order.\<close>

definition sql_content_source_enum :: "string list" where
  "sql_content_source_enum = [''webflow'', ''hubspot'', ''youtube'', ''manual'']"

definition sql_content_type_enum :: "string list" where
  "sql_content_type_enum = [''blog_post'', ''whitepaper'', ''case_study'', ''webinar'', ''video'',
     ''landing_page'', ''labs_app'', ''other'']"

type_synonym ms = int

text \<open>JSON metadata of content rows, as the API clients build it: strings, booleans, dates (an
  ISO date string of an API response is represented by the instant it denotes), \<open>null\<close>,
  fields left \<open>undefined\<close>, and nested objects.\<close>

datatype cmeta = MStr string | MBool bool | MDate ms | MNull | MUndef | MObj "(string \<times> cmeta) list"

text \<open>\<open>JSON.stringify\<close> drops the fields whose value is \<open>undefined\<close>, at every level.\<close>

fun meta_clean :: "cmeta \<Rightarrow> cmeta" where
  "meta_clean (MObj fs) = MObj (map (\<lambda>(k, v). (k, meta_clean v)) (filter (\<lambda>(k, v). v \<noteq> MUndef) fs))"
| "meta_clean v = v"

type_synonym cmeta_obj = "(string \<times> cmeta) list"

text \<open>\<open>JSON.stringify(content.metadata || {})\<close>: the object stored in the \<open>metadata\<close> column.\<close>

definition metadata_column :: "cmeta_obj option \<Rightarrow> cmeta_obj" where
  "metadata_column m =
     map (\<lambda>(k, v). (k, meta_clean v)) (filter (\<lambda>(k, v). v \<noteq> MUndef) (case m of None \<Rightarrow> [] | Some fs \<Rightarrow> fs))"

record content_item =
  ci_id :: nat
  ci_source :: content_source
  ci_url :: string
  ci_title :: string
  ci_content_type :: content_type
  ci_excerpt :: "string option"
  ci_metadata :: cmeta_obj
  ci_publication_date :: "ms option"
  ci_last_polled :: ms
  ci_created_at :: ms
  ci_updated_at :: ms

text \<open>\<open>Omit<ContentItemInsert, 'last_polled'>\<close>: what the upsert receives.\<close>

record content_insert =
  cin_source :: content_source
  cin_url :: string
  cin_title :: string
  cin_content_type :: content_type
  cin_excerpt :: "string option"
  cin_metadata :: "cmeta_obj option"
  cin_publication_date :: "ms option"

record content_db =
  cdb_rows :: "content_item list"
  cdb_next_id :: nat
  cdb_up :: bool

definition db_down :: error where
  "db_down = StoreFailed ''Error connecting to database: fetch failed''"

section \<open>Writes\<close>

text \<open>\<open>content.excerpt || null\<close>: an empty excerpt is stored as \<open>NULL\<close>.\<close>

definition excerpt_column :: "string option \<Rightarrow> string option" where
  "excerpt_column e = (case e of Some [] \<Rightarrow> None | _ \<Rightarrow> e)"

definition find_url :: "content_item list \<Rightarrow> string \<Rightarrow> content_item option" where
  "find_url rows url = find (\<lambda>r. ci_url r = url) rows"

text \<open>One \<open>INSERT ... ON CONFLICT (url) DO UPDATE ... RETURNING *\<close>. A new URL gets a new row
  stamped \<open>now\<close>; an existing URL keeps its row, id, source and \<open>created_at\<close> and takes the
  new title, type, excerpt, metadata and publication date, with \<open>last_polled\<close> and (by the
  update trigger) \<open>updated_at\<close> set to \<open>now\<close>.\<close>

definition upsert_row :: "ms \<Rightarrow> content_db \<Rightarrow> content_insert \<Rightarrow> content_item \<times> content_db" where
  "upsert_row now db content =
     (let ex = excerpt_column (cin_excerpt content);
          md = metadata_column (cin_metadata content)
      in case find_url (cdb_rows db) (cin_url content) of
           None \<Rightarrow>
             (let r = \<lparr>ci_id = cdb_next_id db, ci_source = cin_source content, ci_url = cin_url content,
                       ci_title = cin_title content, ci_content_type = cin_content_type content,
                       ci_excerpt = ex, ci_metadata = md, ci_publication_date = cin_publication_date content,
                       ci_last_polled = now, ci_created_at = now, ci_updated_at = now\<rparr>
              in (r, db\<lparr>cdb_rows := cdb_rows db @ [r], cdb_next_id := Suc (cdb_next_id db)\<rparr>))
         | Some old \<Rightarrow>
             (let r = old\<lparr>ci_title := cin_title content, ci_content_type := cin_content_type content,
                          ci_excerpt := ex, ci_metadata := md,
                          ci_publication_date := cin_publication_date content,
                          ci_last_polled := now, ci_updated_at := now\<rparr>
              in (r, db\<lparr>cdb_rows := map (\<lambda>x. if ci_url x = cin_url content then r else x) (cdb_rows db)\<rparr>)))"

definition upsertContentItem :: "ms \<Rightarrow> content_db \<Rightarrow> content_insert \<Rightarrow> error + content_item \<times> content_db" where
  "upsertContentItem now db content = (if cdb_up db then Inr (upsert_row now db content) else Inl db_down)"

text \<open>The upserts of one batch, issued together by \<open>Promise.all\<close>, in the order the
  server runs them: \<open>upsert_seq\<close> is the order of the batch. \<open>Promise.all\<close> rejects with the
  first rejection; the statements already run stay.\<close>

fun upsert_seq :: "ms \<Rightarrow> content_db \<Rightarrow> content_insert list \<Rightarrow> error + content_item list \<times> content_db" where
  "upsert_seq now db [] = Inr ([], db)"
| "upsert_seq now db (c # cs) =
     (case upsertContentItem now db c of
        Inl e \<Rightarrow> Inl e
      | Inr (r, db1) \<Rightarrow> (case upsert_seq now db1 cs of Inl e \<Rightarrow> Inl e | Inr (rs, db2) \<Rightarrow> Inr (r # rs, db2)))"

definition CONTENT_BATCH :: nat where
  "CONTENT_BATCH = 50"

text \<open>\<open>bulkUpsertContentItems\<close>: an empty list issues nothing; otherwise the batches of 50
  in order, each run to completion before the next. On a rejection the store keeps the
  rows written so far (the model reports the store of the database, which is unchanged by a
  down server).\<close>

fun upsert_batches :: "ms \<Rightarrow> content_db \<Rightarrow> content_insert list list \<Rightarrow> error + content_item list \<times> content_db" where
  "upsert_batches now db [] = Inr ([], db)"
| "upsert_batches now db (b # bs) =
     (case upsert_seq now db b of
        Inl e \<Rightarrow> Inl e
      | Inr (rs, db1) \<Rightarrow> (case upsert_batches now db1 bs of Inl e \<Rightarrow> Inl e | Inr (rs', db2) \<Rightarrow> Inr (rs @ rs', db2)))"

definition bulkUpsertContentItems ::
  "ms \<Rightarrow> content_db \<Rightarrow> content_insert list \<Rightarrow> error + content_item list \<times> content_db"
where
  "bulkUpsertContentItems now db items =
     (if items = [] then Inr ([], db) else upsert_batches now db (batches CONTENT_BATCH items))"

text \<open>\<open>Promise.all\<close> sends the statements of a batch at once and the server may run them in
  any order: \<open>batch_run db now items db'\<close> holds when running the upserts of \<open>items\<close>
  one at a time, in some order, takes \<open>db\<close> to \<open>db'\<close>.\<close>

inductive batch_run :: "content_db \<Rightarrow> ms \<Rightarrow> content_insert list \<Rightarrow> content_db \<Rightarrow> bool" where
  batch_done: "batch_run db now [] db"
| batch_pick: "i < length items \<Longrightarrow> upsertContentItem now db (items ! i) = Inr (r, db1) \<Longrightarrow>
    batch_run db1 now (take i items @ drop (Suc i) items) db' \<Longrightarrow> batch_run db now items db'"

text \<open>\<open>UPDATE content_items SET last_polled = NOW()\<close>: \<open>updated_at\<close> follows through the
  \<open>update_content_items_updated_at\<close> trigger of \<open>001_initial_schema.sql\<close>.\<close>

definition updateLastPolled :: "ms \<Rightarrow> content_db \<Rightarrow> nat list \<Rightarrow> error + unit \<times> content_db" where
  "updateLastPolled now db ids =
     (if ids = [] then Inr ((), db)
      else if \<not> cdb_up db then Inl db_down
      else Inr ((), db\<lparr>cdb_rows := map (\<lambda>r. if ci_id r \<in> set ids then r\<lparr>ci_last_polled := now, ci_updated_at := now\<rparr> else r)
                                  (cdb_rows db)\<rparr>))"

definition deleteContentItem :: "content_db \<Rightarrow> nat \<Rightarrow> error + unit \<times> content_db" where
  "deleteContentItem db i =
     (if \<not> cdb_up db then Inl db_down else Inr ((), db\<lparr>cdb_rows := filter (\<lambda>r. ci_id r \<noteq> i) (cdb_rows db)\<rparr>))"

section \<open>Reads\<close>

record content_query =
  cq_source :: "content_source option"
  cq_contentType :: "content_type option"
  cq_limit :: "nat option"
  cq_offset :: "nat option"

text \<open>\<open>ORDER BY publication_date DESC NULLS LAST, created_at DESC\<close> as an ascending key;
  rows with equal keys keep table order (the stable sort over a scan).\<close>

definition content_order_key :: "content_item \<Rightarrow> (nat \<times> int) \<times> int" where
  "content_order_key r =
     ((case ci_publication_date r of Some d \<Rightarrow> (0, - d) | None \<Rightarrow> (1, 0)), - ci_created_at r)"

text \<open>\<open>if (options?.limit)\<close> and \<open>if (options?.offset)\<close>: a zero is falsy and adds no clause.\<close>

definition js_truthy_nat :: "nat option \<Rightarrow> nat option" where
  "js_truthy_nat x = (case x of Some n \<Rightarrow> if n = 0 then None else Some n | None \<Rightarrow> None)"

text \<open>\<open>WHERE 1=1\<close> with the clauses the options add.\<close>

definition content_where :: "content_query \<Rightarrow> content_item \<Rightarrow> bool" where
  "content_where q r =
     ((case cq_source q of None \<Rightarrow> True | Some s \<Rightarrow> ci_source r = s) \<and>
      (case cq_contentType q of None \<Rightarrow> True | Some t \<Rightarrow> ci_content_type r = t))"

definition getAllContent :: "content_db \<Rightarrow> content_query \<Rightarrow> error + content_item list" where
  "getAllContent db q =
     (if \<not> cdb_up db then Inl db_down
      else
        (let rows = filter (content_where q) (cdb_rows db);
             sorted_rows = sort_key content_order_key rows;
             after_offset = (case js_truthy_nat (cq_offset q) of None \<Rightarrow> sorted_rows | Some m \<Rightarrow> drop m sorted_rows)
         in Inr (case js_truthy_nat (cq_limit q) of None \<Rightarrow> after_offset | Some n \<Rightarrow> take n after_offset)))"

text \<open>\<open>result[0]\<close>: the first matching row, or \<open>undefined\<close>.\<close>

definition getContentById :: "content_db \<Rightarrow> nat \<Rightarrow> error + content_item option" where
  "getContentById db i = (if \<not> cdb_up db then Inl db_down else Inr (find (\<lambda>r. ci_id r = i) (cdb_rows db)))"

definition getContentByUrl :: "content_db \<Rightarrow> string \<Rightarrow> error + content_item option" where
  "getContentByUrl db url = (if \<not> cdb_up db then Inl db_down else Inr (find_url (cdb_rows db) url))"

section \<open>The tagged template \<open>sql\<close>\<close>

text \<open>The template joins its literal parts with the placeholders \<open>$1, $2, ...\<close> and sends
  the values as parameters. The server counts the placeholders outside quoted literals; a
  count that differs from the number of values sent rejects the statement.\<close>

definition tagged_sql :: "string list \<Rightarrow> string" where
  "tagged_sql parts = concat (map (\<lambda>(i, p). (if i = 0 then [] else ''$'' @ nat_str i) @ p) (enumerate 0 parts))"

definition is_digit :: "char \<Rightarrow> bool" where
  "is_digit c = (48 \<le> (of_char c :: nat) \<and> (of_char c :: nat) \<le> 57)"

fun count_placeholders :: "bool \<Rightarrow> string \<Rightarrow> nat" where
  "count_placeholders q [] = 0"
| "count_placeholders q (c # cs) =
     (if c = CHR 0x27 then count_placeholders (\<not> q) cs
      else if c = CHR ''$'' \<and> \<not> q \<and> cs \<noteq> [] \<and> is_digit (hd cs) then Suc (count_placeholders q cs)
      else count_placeholders q cs)"

definition bind_check :: "string list \<Rightarrow> nat \<Rightarrow> error + unit" where
  "bind_check parts nparams =
     (let k = count_placeholders False (tagged_sql parts)
      in if k = nparams then Inr ()
         else Inl (StoreFailed (''bind message supplies '' @ nat_str nparams @
                     '' parameters, but prepared statement '' @ [CHR 0x22, CHR 0x22] @ '' requires '' @ nat_str k)))"

definition DAY_MS :: int where
  "DAY_MS = 24 * 60 * 60 * 1000"

definition HOUR_MS :: int where
  "HOUR_MS = 60 * 60 * 1000"

text \<open>The literal parts of the two interval queries: the parameter sits inside
  \<open>INTERVAL '...'\<close>.\<close>

definition recent_parts :: "string list" where
  "recent_parts = [''SELECT * FROM content_items WHERE publication_date >= NOW() - INTERVAL '' @ [CHR 0x27],
                   '' days'' @ [CHR 0x27] @ '' ORDER BY publication_date DESC'']"

definition stale_parts :: "string list" where
  "stale_parts = [''SELECT * FROM content_items WHERE last_polled < NOW() - INTERVAL '' @ [CHR 0x27],
                  '' hours'' @ [CHR 0x27] @ '' ORDER BY last_polled ASC'']"

definition getRecentlyUpdatedContent :: "ms \<Rightarrow> content_db \<Rightarrow> nat \<Rightarrow> error + content_item list" where
  "getRecentlyUpdatedContent now db days =
     (if \<not> cdb_up db then Inl db_down
      else case bind_check recent_parts 1 of
        Inl e \<Rightarrow> Inl e
      | Inr _ \<Rightarrow> Inr (sort_key (\<lambda>r. - the (ci_publication_date r))
                   (filter (\<lambda>r. case ci_publication_date r of None \<Rightarrow> False
                                 | Some d \<Rightarrow> now - int days * DAY_MS \<le> d) (cdb_rows db))))"

definition getStaleContent :: "ms \<Rightarrow> content_db \<Rightarrow> nat \<Rightarrow> error + content_item list" where
  "getStaleContent now db hoursAgo =
     (if \<not> cdb_up db then Inl db_down
      else case bind_check stale_parts 1 of
        Inl e \<Rightarrow> Inl e
      | Inr _ \<Rightarrow> Inr (sort_key ci_last_polled
                   (filter (\<lambda>r. ci_last_polled r < now - int hoursAgo * HOUR_MS) (cdb_rows db))))"

section \<open>Statistics\<close>

record content_stats =
  cs_total :: nat
  cs_bySource :: "content_source \<Rightarrow> nat option"
  cs_byType :: "content_type \<Rightarrow> nat option"
  cs_recentlyAdded :: nat

text \<open>A \<open>GROUP BY\<close> count read into an object: groups without rows are absent keys.\<close>

definition group_count_by :: "('a \<Rightarrow> 'k) \<Rightarrow> 'a list \<Rightarrow> 'k \<Rightarrow> nat option" where
  "group_count_by f rows k = (let n = length (filter (\<lambda>r. f r = k) rows) in if n = 0 then None else Some n)"

definition getContentStats :: "ms \<Rightarrow> content_db \<Rightarrow> error + content_stats" where
  "getContentStats now db =
     (if \<not> cdb_up db then Inl db_down
      else Inr \<lparr>cs_total = length (cdb_rows db),
                cs_bySource = group_count_by ci_source (cdb_rows db),
                cs_byType = group_count_by ci_content_type (cdb_rows db),
                cs_recentlyAdded = length (filter (\<lambda>r. now - 7 * DAY_MS \<le> ci_created_at r) (cdb_rows db))\<rparr>)"

section \<open>The abstract catalogue\<close>

text \<open>What the table promises: a finite map from URL to the entry stored under it.\<close>

record content_entry =
  ce_source :: content_source
  ce_title :: string
  ce_type :: content_type
  ce_excerpt :: "string option"
  ce_metadata :: cmeta_obj
  ce_publication_date :: "ms option"

definition entry_of :: "content_item \<Rightarrow> content_entry" where
  "entry_of r = \<lparr>ce_source = ci_source r, ce_title = ci_title r, ce_type = ci_content_type r,
     ce_excerpt = ci_excerpt r, ce_metadata = ci_metadata r, ce_publication_date = ci_publication_date r\<rparr>"

definition content_abs :: "content_db \<Rightarrow> string \<rightharpoonup> content_entry" where
  "content_abs db url = map_option entry_of (find_url (cdb_rows db) url)"

text \<open>The abstract upsert: the URL now maps to the new fields, keeping the source it was
  first stored with.\<close>

definition content_put :: "content_insert \<Rightarrow> (string \<rightharpoonup> content_entry) \<Rightarrow> (string \<rightharpoonup> content_entry)" where
  "content_put c m =
     m(cin_url c \<mapsto> \<lparr>ce_source = (case m (cin_url c) of None \<Rightarrow> cin_source c | Some e \<Rightarrow> ce_source e),
                     ce_title = cin_title c, ce_type = cin_content_type c,
                     ce_excerpt = excerpt_column (cin_excerpt c),
                     ce_metadata = metadata_column (cin_metadata c),
                     ce_publication_date = cin_publication_date c\<rparr>)"

text \<open>The table's well-formedness: URLs unique (the \<open>UNIQUE\<close> constraint), ids distinct and
  below the next fresh id.\<close>

definition content_wf :: "content_db \<Rightarrow> bool" where
  "content_wf db = (distinct (map ci_url (cdb_rows db)) \<and> distinct (map ci_id (cdb_rows db)) \<and>
                    (\<forall>r\<in>set (cdb_rows db). ci_id r < cdb_next_id db))"

section \<open>Reachable tables\<close>

text \<open>The tables the writes of \<open>content.ts\<close> can produce from an empty table: single
  and bulk upserts, the batches of a bulk upsert run by the server in any order, the
  \<open>last_polled\<close> update, deletion, and outages of the database between calls.\<close>

inductive content_reachable :: "content_db \<Rightarrow> bool" where
  reach_init: "content_reachable \<lparr>cdb_rows = [], cdb_next_id = 0, cdb_up = up\<rparr>"
| reach_upsert: "content_reachable db \<Longrightarrow> upsertContentItem now db c = Inr (r, db') \<Longrightarrow> content_reachable db'"
| reach_bulk: "content_reachable db \<Longrightarrow> bulkUpsertContentItems now db cs = Inr (rs, db') \<Longrightarrow> content_reachable db'"
| reach_batch: "content_reachable db \<Longrightarrow> batch_run db now cs db' \<Longrightarrow> content_reachable db'"
| reach_touch: "content_reachable db \<Longrightarrow> updateLastPolled now db ids = Inr (u, db') \<Longrightarrow> content_reachable db'"
| reach_delete: "content_reachable db \<Longrightarrow> deleteContentItem db i = Inr (u, db') \<Longrightarrow> content_reachable db'"
| reach_outage: "content_reachable db \<Longrightarrow> content_reachable (db\<lparr>cdb_up := up\<rparr>)"

section \<open>Sample rows\<close>

definition empty_content :: content_db where
  "empty_content = \<lparr>cdb_rows = [], cdb_next_id = 0, cdb_up = True\<rparr>"

definition demo_content :: "string \<Rightarrow> string \<Rightarrow> content_insert" where
  "demo_content url title = \<lparr>cin_source = Webflow, cin_url = url, cin_title = title, cin_content_type = BlogPost,
     cin_excerpt = None, cin_metadata = None, cin_publication_date = None\<rparr>"


definition demo_url :: string where "demo_url = ''https://www.centercode.com/blog/''"

definition demo_url2 :: string where "demo_url2 = ''https://www.centercode.com/blog/beta''"

section \<open>Lemmas on the table\<close>

lemma find_url_append:
  "find_url (rows @ [r]) u = (case find_url rows u of None \<Rightarrow> (if ci_url r = u then Some r else None) | Some x \<Rightarrow> Some x)"
  by (induction rows) (simp_all add: find_url_def)

lemma find_url_map_same_url:
  assumes "\<And>x. ci_url (f x) = ci_url x"
  shows "find_url (map f rows) u = map_option f (find_url rows u)"
  using assms by (induction rows) (simp_all add: find_url_def)

lemma find_url_SomeD: "find_url rows u = Some x \<Longrightarrow> ci_url x = u \<and> x \<in> set rows"
  by (auto simp: find_url_def find_Some_iff)

lemma upsert_row_abs:
  "content_abs (snd (upsert_row now db c)) = content_put c (content_abs db)"
proof (cases "find_url (cdb_rows db) (cin_url c)")
  case None
  then show ?thesis
    by (auto simp: upsert_row_def content_abs_def content_put_def find_url_append entry_of_def Let_def
        fun_eq_iff split: option.splits)
next
  case (Some old)
  have u: "ci_url old = cin_url c" using find_url_SomeD [OF Some] by simp
  have "content_abs (snd (upsert_row now db c)) u' = content_put c (content_abs db) u'" for u'
  proof (cases "find_url (cdb_rows db) u'")
    case None
    then show ?thesis using Some u
      by (auto simp: upsert_row_def content_abs_def content_put_def Let_def find_url_map_same_url)
  next
    case (Some x)
    have "ci_url x = u'" using find_url_SomeD [OF Some] by simp
    then show ?thesis using Some \<open>find_url (cdb_rows db) (cin_url c) = Some old\<close> u
      by (auto simp: upsert_row_def content_abs_def content_put_def entry_of_def Let_def find_url_map_same_url)
  qed
  then show ?thesis by (simp add: fun_eq_iff)
qed

lemma upsert_seq_abs:
  "upsert_seq now db cs = Inr (rs, db') \<Longrightarrow> content_abs db' = fold content_put cs (content_abs db)"
proof (induction cs arbitrary: db rs)
  case Nil then show ?case by simp
next
  case (Cons c cs)
  then obtain r db1 rs' where u: "upsert_row now db c = (r, db1)" "cdb_up db"
    and rest: "upsert_seq now db1 cs = Inr (rs', db')"
    by (auto simp: upsertContentItem_def split: if_splits sum.splits prod.splits)
  have "content_abs db1 = content_put c (content_abs db)" using upsert_row_abs [of now db c] u(1) by simp
  with Cons.IH [OF rest] show ?case by simp
qed

lemma upsert_batches_abs:
  "upsert_batches now db bs = Inr (rs, db') \<Longrightarrow> content_abs db' = fold content_put (concat bs) (content_abs db)"
proof (induction bs arbitrary: db rs)
  case Nil then show ?case by simp
next
  case (Cons b bs)
  then obtain rs1 db1 rs2 where s: "upsert_seq now db b = Inr (rs1, db1)"
    and rest: "upsert_batches now db1 bs = Inr (rs2, db')"
    by (auto split: sum.splits prod.splits)
  from upsert_seq_abs [OF s] Cons.IH [OF rest] show ?case by simp
qed

lemma content_put_commute:
  "cin_url a \<noteq> cin_url b \<Longrightarrow> content_put a (content_put b m) = content_put b (content_put a m)"
  by (auto simp: content_put_def fun_eq_iff)

lemma fold_put_pick:
  assumes "distinct (map cin_url xs)" "i < length xs"
  shows "fold content_put (take i xs @ drop (Suc i) xs) (content_put (xs ! i) m) = fold content_put xs m"
  using assms
proof (induction xs arbitrary: i m)
  case Nil then show ?case by simp
next
  case (Cons x xs)
  show ?case
  proof (cases i)
    case 0 then show ?thesis by simp
  next
    case (Suc j)
    have j: "j < length xs" using Cons.prems(2) Suc by simp
    have "cin_url (xs ! j) \<in> cin_url ` set xs" using j by simp
    then have ne: "cin_url (xs ! j) \<noteq> cin_url x" using Cons.prems(1) by auto
    have "fold content_put (take i (x # xs) @ drop (Suc i) (x # xs)) (content_put ((x # xs) ! i) m) =
          fold content_put (take j xs @ drop (Suc j) xs) (content_put x (content_put (xs ! j) m))"
      using Suc by simp
    also have "\<dots> = fold content_put (take j xs @ drop (Suc j) xs) (content_put (xs ! j) (content_put x m))"
      using content_put_commute [OF ne] by simp
    also have "\<dots> = fold content_put xs (content_put x m)"
      using Cons.IH [of j "content_put x m"] Cons.prems(1) j by simp
    finally show ?thesis by simp
  qed
qed

lemma distinct_remove_nth:
  "distinct ys \<Longrightarrow> distinct (take i ys @ drop (Suc i) ys)"
  by (simp add: set_take_disj_set_drop_if_distinct)

lemma distinct_map_remove_nth:
  "distinct (map f xs) \<Longrightarrow> distinct (map f (take i xs @ drop (Suc i) xs))"
  using distinct_remove_nth [of "map f xs" i] by (simp add: take_map drop_map)

lemma find_url_None_iff: "find_url rows u = None \<longleftrightarrow> u \<notin> ci_url ` set rows"
  by (auto simp: find_url_def find_None_iff)

lemma content_wf_same_keys:
  assumes wf: "content_wf db" and h1: "map ci_url rows' = map ci_url (cdb_rows db)"
    and h2: "map ci_id rows' = map ci_id (cdb_rows db)"
  shows "content_wf (db\<lparr>cdb_rows := rows'\<rparr>)"
proof -
  from wf have d1: "distinct (map ci_url (cdb_rows db))" and d2: "distinct (map ci_id (cdb_rows db))"
    and lt: "\<forall>r\<in>set (cdb_rows db). ci_id r < cdb_next_id db" by (simp_all add: content_wf_def)
  have a: "distinct (map ci_url rows')" by (subst h1) (rule d1)
  have b: "distinct (map ci_id rows')" by (subst h2) (rule d2)
  have c: "\<forall>r\<in>set rows'. ci_id r < cdb_next_id db"
  proof
    fix r assume "r \<in> set rows'"
    then have "ci_id r \<in> set (map ci_id rows')" by simp
    then have "ci_id r \<in> set (map ci_id (cdb_rows db))" by (simp only: h2)
    then show "ci_id r < cdb_next_id db" using lt by auto
  qed
  from a b c show ?thesis by (simp add: content_wf_def)
qed

lemma upsert_row_wf:
  assumes "content_wf db"
  shows "content_wf (snd (upsert_row now db c))"
proof (cases "find_url (cdb_rows db) (cin_url c)")
  case None
  then have "cin_url c \<notin> ci_url ` set (cdb_rows db)" by (simp add: find_url_None_iff)
  moreover have "cdb_next_id db \<notin> ci_id ` set (cdb_rows db)" using assms by (auto simp: content_wf_def)
  ultimately show ?thesis using assms None
    by (auto simp: upsert_row_def content_wf_def Let_def less_Suc_eq)
next
  case (Some old)
  let ?r = "old\<lparr>ci_title := cin_title c, ci_content_type := cin_content_type c,
              ci_excerpt := excerpt_column (cin_excerpt c), ci_metadata := metadata_column (cin_metadata c),
              ci_publication_date := cin_publication_date c, ci_last_polled := now, ci_updated_at := now\<rparr>"
  let ?f = "\<lambda>x. if ci_url x = cin_url c then ?r else x"
  have old: "ci_url old = cin_url c" "old \<in> set (cdb_rows db)" using find_url_SomeD [OF Some] by simp_all
  have inj: "inj_on ci_url (set (cdb_rows db))" using assms by (simp add: content_wf_def distinct_map)
  have same: "x = old" if "x \<in> set (cdb_rows db)" "ci_url x = cin_url c" for x
    using inj_onD [OF inj, of x old] old that by simp
  have u: "map ci_url (map ?f (cdb_rows db)) = map ci_url (cdb_rows db)" using old(1) by simp
  have i: "map ci_id (map ?f (cdb_rows db)) = map ci_id (cdb_rows db)"
    using same by (simp cong: map_cong)
  have "snd (upsert_row now db c) = db\<lparr>cdb_rows := map ?f (cdb_rows db)\<rparr>"
    using Some by (simp add: upsert_row_def Let_def)
  then show ?thesis using content_wf_same_keys [OF assms u i] by simp
qed

lemma upsert_wf: "content_wf db \<Longrightarrow> upsertContentItem now db c = Inr (r, db') \<Longrightarrow> content_wf db'"
  using upsert_row_wf [of db now c] by (auto simp: upsertContentItem_def split: if_splits)

lemma upsert_seq_wf: "content_wf db \<Longrightarrow> upsert_seq now db cs = Inr (rs, db') \<Longrightarrow> content_wf db'"
  by (induction cs arbitrary: db rs) (auto split: sum.splits prod.splits intro: upsert_wf)

lemma upsert_batches_wf: "content_wf db \<Longrightarrow> upsert_batches now db bs = Inr (rs, db') \<Longrightarrow> content_wf db'"
  by (induction bs arbitrary: db rs) (auto split: sum.splits prod.splits intro: upsert_seq_wf)

lemma bulk_wf: "content_wf db \<Longrightarrow> bulkUpsertContentItems now db cs = Inr (rs, db') \<Longrightarrow> content_wf db'"
  by (auto simp: bulkUpsertContentItems_def split: if_splits intro: upsert_batches_wf)

lemma batch_run_wf: "batch_run db now cs db' \<Longrightarrow> content_wf db \<Longrightarrow> content_wf db'"
  by (induction rule: batch_run.induct) (auto intro: upsert_wf)

lemma touch_wf: "content_wf db \<Longrightarrow> updateLastPolled now db ids = Inr (u, db') \<Longrightarrow> content_wf db'"
  unfolding updateLastPolled_def
  by (auto split: if_splits intro!: content_wf_same_keys)

lemma delete_wf: "content_wf db \<Longrightarrow> deleteContentItem db i = Inr (u, db') \<Longrightarrow> content_wf db'"
  by (auto simp: deleteContentItem_def content_wf_def distinct_map_filter split: if_splits)

lemma interval_placeholders:
  "count_placeholders False (tagged_sql recent_parts) = 0"
  "count_placeholders False (tagged_sql stale_parts) = 0"
  by code_simp+

lemma content_type_cases: "set sql_content_type_enum = range content_type_name"
proof
  show "range content_type_name \<subseteq> set sql_content_type_enum"
  proof
    fix x assume "x \<in> range content_type_name"
    then obtain t where "x = content_type_name t" by blast
    then show "x \<in> set sql_content_type_enum" by (cases t) (simp_all add: sql_content_type_enum_def)
  qed
  show "set sql_content_type_enum \<subseteq> range content_type_name"
    unfolding sql_content_type_enum_def
    by (simp add: image_iff) (metis content_type_name.simps)
qed

lemma content_source_cases: "set sql_content_source_enum = range content_source_name"
proof
  show "range content_source_name \<subseteq> set sql_content_source_enum"
  proof
    fix x assume "x \<in> range content_source_name"
    then obtain t where "x = content_source_name t" by blast
    then show "x \<in> set sql_content_source_enum" by (cases t) (simp_all add: sql_content_source_enum_def)
  qed
  show "set sql_content_source_enum \<subseteq> range content_source_name"
    unfolding sql_content_source_enum_def
    by (simp add: image_iff) (metis content_source_name.simps)
qed

lemma upsert_row_up [simp]: "cdb_up (snd (upsert_row now db c)) = cdb_up db"
  by (simp add: upsert_row_def Let_def split: option.splits)

lemma upsert_up: "cdb_up db \<Longrightarrow> upsertContentItem now db c = Inr (fst (upsert_row now db c), snd (upsert_row now db c))"
  by (simp add: upsertContentItem_def)

lemma batch_run_in_order:
  "cdb_up db \<Longrightarrow> batch_run db now items (fold (\<lambda>c d. snd (upsert_row now d c)) items db)"
proof (induction items arbitrary: db)
  case Nil then show ?case by (simp add: batch_done)
next
  case (Cons c items)
  have "batch_run (snd (upsert_row now db c)) now items (fold (\<lambda>c d. snd (upsert_row now d c)) items (snd (upsert_row now db c)))"
    using Cons by simp
  then show ?case
    using batch_pick [of 0 "c # items" now db "fst (upsert_row now db c)" "snd (upsert_row now db c)"]
      upsert_up [OF Cons.prems] by simp
qed

lemma abs_after_upserts:
  "content_abs (fold (\<lambda>c d. snd (upsert_row now d c)) items db) = fold content_put items (content_abs db)"
  by (induction items arbitrary: db) (simp_all add: upsert_row_abs)

lemma empty_content_abs [simp]: "content_abs empty_content = Map.empty"
  by (simp add: content_abs_def empty_content_def find_url_def fun_eq_iff)

lemma bulk_upsert_abs:
  assumes "bulkUpsertContentItems now db items = Inr (rs, db')"
  shows "content_abs db' = fold content_put items (content_abs db)"
proof (cases "items = []")
  case True then show ?thesis using assms by (simp add: bulkUpsertContentItems_def)
next
  case False
  then have "upsert_batches now db (batches CONTENT_BATCH items) = Inr (rs, db')"
    using assms by (simp add: bulkUpsertContentItems_def)
  from upsert_batches_abs [OF this] show ?thesis by (simp add: concat_batches_from CONTENT_BATCH_def)
qed

section \<open>Properties of the content catalogue\<close>

text \<open>C13: \<open>bulkUpsertContentItems\<close> implements the abstract catalogue: after a successful call the
  map from URL to entry is the old map updated by each item in order (a URL keeps the source
  it was first stored with, the other fields are the last item's).\<close>

theorem bulkUpsert_refines:
  assumes "bulkUpsertContentItems now db items = Inr (rs, db')"
  shows "content_abs db' = fold content_put items (content_abs db)"
  using assms by (rule bulk_upsert_abs)

theorem bulkUpsert_refines_witness:
  "(case bulkUpsertContentItems 0 empty_content [demo_content demo_url ''A''] of
      Inr (rs, db') \<Rightarrow> map_option ce_title (content_abs db' demo_url) = Some ''A'' | Inl _ \<Rightarrow> False)"
proof -
  obtain rs db' where b: "bulkUpsertContentItems 0 empty_content [demo_content demo_url ''A''] = Inr (rs, db')"
    by (cases "upsert_row 0 empty_content (demo_content demo_url ''A'')")
       (simp add: bulkUpsertContentItems_def CONTENT_BATCH_def batches_from_step batches_from_done
        upsertContentItem_def empty_content_def)
  show ?thesis using bulkUpsert_refines [OF b] b by (simp add: content_put_def demo_content_def)
qed

text \<open>When the items of a batch have distinct URLs, every order in which the server may run the
  upserts \<open>Promise.all\<close> sends yields the same catalogue as running them in list order.\<close>

theorem batch_run_order_independent:
  assumes "batch_run db now items db'" "distinct (map cin_url items)"
  shows "content_abs db' = fold content_put items (content_abs db)"
  using assms
proof (induction rule: batch_run.induct)
  case (batch_done db now)
  then show ?case by simp
next
  case (batch_pick i items now db r db1 db')
  have "content_abs db1 = content_put (items ! i) (content_abs db)"
    using batch_pick.hyps(2) upsert_row_abs [of now db "items ! i"]
    by (auto simp: upsertContentItem_def split: if_splits)
  moreover have "content_abs db' = fold content_put (take i items @ drop (Suc i) items) (content_abs db1)"
    using batch_pick.IH distinct_map_remove_nth [OF batch_pick.prems] by blast
  ultimately show ?case using fold_put_pick [OF batch_pick.prems batch_pick.hyps(1)] by simp
qed

theorem batch_run_order_independent_witness:
  "batch_run empty_content 0 [demo_content demo_url ''A'', demo_content demo_url2 ''B'']
     (fold (\<lambda>c d. snd (upsert_row 0 d c)) [demo_content demo_url ''A''] (snd (upsert_row 0 empty_content (demo_content demo_url2 ''B'')))) \<and>
   distinct (map cin_url [demo_content demo_url ''A'', demo_content demo_url2 ''B'']) \<and>
   content_abs (fold (\<lambda>c d. snd (upsert_row 0 d c)) [demo_content demo_url ''A''] (snd (upsert_row 0 empty_content (demo_content demo_url2 ''B'')))) =
     fold content_put [demo_content demo_url ''A'', demo_content demo_url2 ''B''] Map.empty"
proof -
  let ?a = "demo_content demo_url ''A''" and ?b = "demo_content demo_url2 ''B''"
  let ?db = "fold (\<lambda>c d. snd (upsert_row 0 d c)) [?a] (snd (upsert_row 0 empty_content ?b))"
  have up: "cdb_up empty_content" by (simp add: empty_content_def)
  have "batch_run (snd (upsert_row 0 empty_content ?b)) 0 [?a] ?db" by (rule batch_run_in_order) (simp add: up)
  then have r: "batch_run empty_content 0 [?a, ?b] ?db"
    using batch_pick [of 1 "[?a, ?b]" 0 empty_content "fst (upsert_row 0 empty_content ?b)"
        "snd (upsert_row 0 empty_content ?b)"] upsert_up [OF up] by simp
  have d: "distinct (map cin_url [?a, ?b])" by (simp add: demo_content_def demo_url_def demo_url2_def)
  show ?thesis using r d batch_run_order_independent [OF r d] by simp
qed

text \<open>Two items of one batch with the same URL race: both orders are possible runs of the
  batch and they leave different titles under that URL.\<close>

theorem batch_run_duplicate_urls_race:
  "\<exists>db1 db2. batch_run empty_content 0 [demo_content demo_url ''A'', demo_content demo_url ''B''] db1 \<and>
     batch_run empty_content 0 [demo_content demo_url ''A'', demo_content demo_url ''B''] db2 \<and>
     map_option ce_title (content_abs db1 demo_url) = Some ''B'' \<and>
     map_option ce_title (content_abs db2 demo_url) = Some ''A''"
proof -
  let ?a = "demo_content demo_url ''A''" and ?b = "demo_content demo_url ''B''"
  let ?db1 = "fold (\<lambda>c d. snd (upsert_row 0 d c)) [?a, ?b] empty_content"
  let ?db2 = "fold (\<lambda>c d. snd (upsert_row 0 d c)) [?a] (snd (upsert_row 0 empty_content ?b))"
  have up: "cdb_up empty_content" by (simp add: empty_content_def)
  have r1: "batch_run empty_content 0 [?a, ?b] ?db1" by (rule batch_run_in_order [OF up])
  have "batch_run (snd (upsert_row 0 empty_content ?b)) 0 [?a] ?db2" by (rule batch_run_in_order) (simp add: up)
  then have r2: "batch_run empty_content 0 [?a, ?b] ?db2"
    using batch_pick [of 1 "[?a, ?b]" 0 empty_content "fst (upsert_row 0 empty_content ?b)"
        "snd (upsert_row 0 empty_content ?b)"] upsert_up [OF up] by simp
  have t1: "map_option ce_title (content_abs ?db1 demo_url) = Some ''B''"
    unfolding abs_after_upserts by (simp add: content_put_def demo_content_def)
  have t2: "map_option ce_title (content_abs ?db2 demo_url) = Some ''A''"
    unfolding abs_after_upserts upsert_row_abs by (simp add: content_put_def demo_content_def)
  from r1 r2 t1 t2 show ?thesis by blast
qed

text \<open>C14: Every table the writes of \<open>content.ts\<close> reach, in any interleaving of a batch and across
  outages, has unique URLs and distinct ids below the next fresh id.\<close>

theorem content_reachable_wf: "content_reachable db \<Longrightarrow> content_wf db"
  by (induction rule: content_reachable.induct)
     (auto simp: content_wf_def [of "\<lparr>cdb_rows = [], cdb_next_id = 0, cdb_up = _\<rparr>"]
       intro: upsert_wf bulk_wf batch_run_wf touch_wf delete_wf, simp add: content_wf_def)

theorem content_reachable_wf_witness:
  "content_reachable (snd (upsert_row 0 empty_content (demo_content demo_url ''A''))) \<and>
   content_wf (snd (upsert_row 0 empty_content (demo_content demo_url ''A'')))"
proof -
  have i: "content_reachable empty_content" unfolding empty_content_def by (rule reach_init)
  have "content_reachable (snd (upsert_row 0 empty_content (demo_content demo_url ''A'')))"
    by (rule reach_upsert [OF i upsert_up]) (simp add: empty_content_def)
  then show ?thesis using content_reachable_wf by blast
qed

text \<open>C15: \<open>getRecentlyUpdatedContent\<close> and \<open>getStaleContent\<close> never return rows: their
  parameter sits inside the quoted \<open>INTERVAL\<close> literal, so the statement has no placeholder
  for the value sent and the server rejects it.\<close>

theorem interval_queries_fail:
  "(\<forall>rs. getRecentlyUpdatedContent now db days \<noteq> Inr rs) \<and> (\<forall>rs. getStaleContent now db hoursAgo \<noteq> Inr rs)"
  by (simp add: getRecentlyUpdatedContent_def getStaleContent_def bind_check_def interval_placeholders)

text \<open>\<open>getAllContent\<close> returns rows of the table that match the filters, ordered by
  publication date (newest first, undated last) then creation time; a limit or offset of
  0 is ignored, so \<open>limit: 0\<close> returns every matching row.\<close>

theorem getAllContent_ordered:
  assumes "getAllContent db q = Inr rs"
  shows "sorted (map content_order_key rs) \<and> (\<forall>r\<in>set rs. r \<in> set (cdb_rows db) \<and> content_where q r) \<and>
    (cq_limit q \<in> {None, Some 0} \<longrightarrow> cq_offset q \<in> {None, Some 0} \<longrightarrow>
       mset rs = mset (filter (content_where q) (cdb_rows db)))"
proof -
  let ?s = "sort_key content_order_key (filter (content_where q) (cdb_rows db))"
  let ?o = "case js_truthy_nat (cq_offset q) of None \<Rightarrow> ?s | Some m \<Rightarrow> drop m ?s"
  have rs: "rs = (case js_truthy_nat (cq_limit q) of None \<Rightarrow> ?o | Some n \<Rightarrow> take n ?o)"
    using assms by (simp add: getAllContent_def Let_def split: if_splits)
  have so: "sorted (map content_order_key ?o)"
    by (simp add: drop_map [symmetric] sorted_wrt_drop split: option.splits)
  have "sorted (map content_order_key rs)"
    using so by (simp add: rs take_map [symmetric] sorted_wrt_take split: option.splits)
  moreover have "set rs \<subseteq> set ?s"
    by (auto simp: rs dest!: in_set_takeD in_set_dropD split: option.splits)
  moreover have "cq_limit q \<in> {None, Some 0} \<longrightarrow> cq_offset q \<in> {None, Some 0} \<longrightarrow>
       mset rs = mset (filter (content_where q) (cdb_rows db))"
    by (auto simp: rs js_truthy_nat_def)
  ultimately show ?thesis by auto
qed

theorem getAllContent_ordered_witness:
  "(case getAllContent (snd (upsert_row 0 empty_content (demo_content demo_url ''A'')))
           \<lparr>cq_source = None, cq_contentType = None, cq_limit = Some 0, cq_offset = None\<rparr> of
      Inr rs \<Rightarrow> sorted (map content_order_key rs) \<and> length rs = 1 | Inl _ \<Rightarrow> False)"
proof -
  let ?db = "snd (upsert_row 0 empty_content (demo_content demo_url ''A''))"
  let ?q = "\<lparr>cq_source = None, cq_contentType = None, cq_limit = Some 0, cq_offset = None\<rparr>"
  obtain rs where g: "getAllContent ?db ?q = Inr rs"
    by (simp add: getAllContent_def empty_content_def Let_def)
  have rows: "length (filter (content_where ?q) (cdb_rows ?db)) = 1"
    by (simp add: upsert_row_def empty_content_def find_url_def content_where_def Let_def)
  from getAllContent_ordered [OF g] have s: "sorted (map content_order_key rs)"
    and m: "mset rs = mset (filter (content_where ?q) (cdb_rows ?db))" by simp_all
  have "length rs = 1" using mset_eq_length [OF m] rows by simp
  then show ?thesis using g s by simp
qed

text \<open>The \<open>ContentType\<close> and \<open>ContentSource\<close> enums of the TypeScript types and the SQL enums
  \<open>content_type\<close> and \<open>content_source\<close> agree: the labels are exactly the SQL values, one per
  TypeScript value.\<close>

theorem content_enums_match_schema:
  "set sql_content_type_enum = range content_type_name \<and> inj content_type_name \<and>
   set sql_content_source_enum = range content_source_name \<and> inj content_source_name"
proof -
  have "inj content_type_name"
  proof (rule injI)
    fix a b show "content_type_name a = content_type_name b \<Longrightarrow> a = b" by (cases a; cases b) simp_all
  qed
  moreover have "inj content_source_name"
  proof (rule injI)
    fix a b show "content_source_name a = content_source_name b \<Longrightarrow> a = b" by (cases a; cases b) simp_all
  qed
  ultimately show ?thesis using content_type_cases content_source_cases by simp
qed

end
