(* ===== verification/Content_Ingestion.thy ===== *)
theory Content_Ingestion
  imports Content
begin

text \<open>The content ingestion service (\<open>src/unnamed/part_007\<close>, \<open>content-ingestion.ts\<close>):
  fetch from Webflow and from HubSpot, each failure recorded and the other source still
  used, transform every item to a \<open>ContentItemInsert\<close>, upsert them all, and report counts
  computed from the table size before and after. The two API clients are the fetch results
  they deliver: a rejection with its message, or the list of items in the shape both
  clients share (\<open>url\<close>, \<open>title\<close>, \<open>contentType\<close>, \<open>excerpt\<close>, \<open>metadata\<close>,
  \<open>publishedDate\<close>). Every step runs at the same time \<open>now\<close>.\<close>

section \<open>Fetched items and results\<close>

text \<open>The fields of a \<open>WebflowContent\<close> or \<open>HubSpotContent\<close> that \<open>transformToContentItem\<close>
  reads.\<close>

record fetched_item =
  fi_url :: string
  fi_title :: string
  fi_contentType :: content_type
  fi_excerpt :: "string option"
  fi_metadata :: cmeta_obj
  fi_publishedDate :: "ms option"

record content_ingest_stats =
  cis_newItems :: nat
  cis_updatedItems :: nat
  cis_totalInDatabase :: nat

record content_ingestion_result =
  cr_success :: bool
  cr_webflowCount :: nat
  cr_hubspotCount :: nat
  cr_totalProcessed :: nat
  cr_errors :: "string list"
  cr_stats :: "content_ingest_stats option"

definition empty_result :: content_ingestion_result where
  "empty_result = \<lparr>cr_success = False, cr_webflowCount = 0, cr_hubspotCount = 0, cr_totalProcessed = 0,
     cr_errors = [], cr_stats = None\<rparr>"

text \<open>\<open>transformToContentItem\<close>; \<open>item.metadata || {}\<close> keeps the object, which is always
  present in both clients' output.\<close>

definition transformToContentItem :: "fetched_item \<Rightarrow> content_source \<Rightarrow> content_insert" where
  "transformToContentItem item source =
     \<lparr>cin_source = source, cin_url = fi_url item, cin_title = fi_title item,
      cin_content_type = fi_contentType item, cin_excerpt = fi_excerpt item,
      cin_metadata = Some (fi_metadata item), cin_publication_date = fi_publishedDate item\<rparr>"

text \<open>The combined list: the Webflow items, then the HubSpot items.\<close>

definition all_content :: "fetched_item list \<Rightarrow> fetched_item list \<Rightarrow> content_insert list" where
  "all_content webflowContent hubspotContent =
     map (\<lambda>item. transformToContentItem item Webflow) webflowContent @
     map (\<lambda>item. transformToContentItem item HubSpot) hubspotContent"

definition fetched_list :: "error + fetched_item list \<Rightarrow> fetched_item list" where
  "fetched_list r = (case r of Inl _ \<Rightarrow> [] | Inr xs \<Rightarrow> xs)"

text \<open>One guarded fetch: on a rejection the message is recorded and the source contributes
  nothing.\<close>

definition guarded_fetch ::
  "string \<Rightarrow> error + fetched_item list \<Rightarrow> string list \<Rightarrow> fetched_item list \<times> string list"
where
  "guarded_fetch label r errs =
     (case r of Inl e \<Rightarrow> ([], errs @ [label @ '' fetch failed: '' @ err_message e]) | Inr xs \<Rightarrow> (xs, errs))"

definition js_max0 :: "int \<Rightarrow> nat" where
  "js_max0 x = nat (max 0 x)"

text \<open>The \<open>try\<close> block of \<open>ingestAllContent\<close> from the second statistics read on, as a
  function of the result object built so far: the outer \<open>catch\<close> returns that same object
  with the message appended.\<close>

definition outer_catch :: "content_ingestion_result \<Rightarrow> error \<Rightarrow> content_ingestion_result" where
  "outer_catch r e = r\<lparr>cr_errors := cr_errors r @ [''Ingestion failed: '' @ err_message e], cr_success := False\<rparr>"

definition ingestAllContent ::
  "ms \<Rightarrow> content_db \<Rightarrow> error + fetched_item list \<Rightarrow> error + fetched_item list \<Rightarrow>
     content_ingestion_result \<times> content_db"
where
  "ingestAllContent now db webflow hubspot =
     (case getContentStats now db of
        Inl e \<Rightarrow> (outer_catch empty_result e, db)
      | Inr initialStats \<Rightarrow>
         (let initialTotal = cs_total initialStats;
              (webflowContent, errs1) = guarded_fetch ''Webflow'' webflow [];
              (hubspotContent, errs2) = guarded_fetch ''HubSpot'' hubspot errs1;
              allContent = all_content webflowContent hubspotContent;
              r = empty_result\<lparr>cr_webflowCount := length webflowContent, cr_hubspotCount := length hubspotContent,
                               cr_totalProcessed := length allContent, cr_errors := errs2\<rparr>
          in if allContent = [] then (r\<lparr>cr_success := (errs2 = [])\<rparr>, db)
             else
               (case bulkUpsertContentItems now db allContent of
                  Inl e \<Rightarrow> (r\<lparr>cr_errors := errs2 @ [''Database upsert failed: '' @ err_message e], cr_success := False\<rparr>, db)
                | Inr (_, db') \<Rightarrow>
                   (case getContentStats now db' of
                      Inl e \<Rightarrow> (outer_catch r e, db')
                    | Inr finalStats \<Rightarrow>
                       (let finalTotal = cs_total finalStats;
                            st = \<lparr>cis_newItems = js_max0 (int finalTotal - int initialTotal),
                                  cis_updatedItems = js_max0 (int (length allContent) - (int finalTotal - int initialTotal)),
                                  cis_totalInDatabase = finalTotal\<rparr>
                        in (r\<lparr>cr_stats := Some st, cr_success := (errs2 = [])\<rparr>, db'))))))"

text \<open>\<open>ingestWebflowContent\<close> and \<open>ingestHubSpotContent\<close>: one source, no guarded fetch;
  any rejection becomes the single error of the result.\<close>

definition ingest_one_source ::
  "string \<Rightarrow> content_source \<Rightarrow> ms \<Rightarrow> content_db \<Rightarrow> error + fetched_item list \<Rightarrow>
     content_ingestion_result \<times> content_db"
where
  "ingest_one_source label source now db fetched =
     (let fail = (\<lambda>r e. r\<lparr>cr_errors := [label @ '' ingestion failed: '' @ err_message e], cr_success := False\<rparr>)
      in case fetched of
           Inl e \<Rightarrow> (fail empty_result e, db)
         | Inr items \<Rightarrow>
            (let r = (if source = Webflow then empty_result\<lparr>cr_webflowCount := length items\<rparr>
                      else empty_result\<lparr>cr_hubspotCount := length items\<rparr>)\<lparr>cr_totalProcessed := length items\<rparr>
             in case bulkUpsertContentItems now db (map (\<lambda>item. transformToContentItem item source) items) of
                  Inl e \<Rightarrow> (fail r e, db)
                | Inr (_, db') \<Rightarrow> (r\<lparr>cr_success := True\<rparr>, db')))"

definition ingestWebflowContent ::
  "ms \<Rightarrow> content_db \<Rightarrow> error + fetched_item list \<Rightarrow> content_ingestion_result \<times> content_db"
where
  "ingestWebflowContent = ingest_one_source ''Webflow'' Webflow"

definition ingestHubSpotContent ::
  "ms \<Rightarrow> content_db \<Rightarrow> error + fetched_item list \<Rightarrow> content_ingestion_result \<times> content_db"
where
  "ingestHubSpotContent = ingest_one_source ''HubSpot'' HubSpot"


section \<open>Sample items\<close>

definition demo_fetched :: "string \<Rightarrow> string \<Rightarrow> fetched_item" where
  "demo_fetched url title = \<lparr>fi_url = url, fi_title = title, fi_contentType = BlogPost, fi_excerpt = None,
     fi_metadata = [], fi_publishedDate = None\<rparr>"

section \<open>Lemmas on content ingestion\<close>

lemma dom_content_abs: "dom (content_abs db) = set (map ci_url (cdb_rows db))"
  by (auto simp: content_abs_def find_url_def find_None_iff dom_def)

lemma dom_fold_put: "dom (fold content_put cs m) = dom m \<union> set (map cin_url cs)"
  by (induction cs arbitrary: m) (auto simp: content_put_def)

lemma wf_length_card: "content_wf db \<Longrightarrow> length (cdb_rows db) = card (dom (content_abs db))"
  unfolding content_wf_def dom_content_abs by (metis distinct_card length_map)

lemma ingestAllContent_upserted:
  assumes "getContentStats now db = Inr s0" "all_content (fetched_list webflow) (fetched_list hubspot) \<noteq> []"
    "bulkUpsertContentItems now db (all_content (fetched_list webflow) (fetched_list hubspot)) = Inr (rs, db1)"
    "getContentStats now db1 = Inr s1"
  shows "ingestAllContent now db webflow hubspot =
     (empty_result\<lparr>cr_webflowCount := length (fetched_list webflow), cr_hubspotCount := length (fetched_list hubspot),
        cr_totalProcessed := length (all_content (fetched_list webflow) (fetched_list hubspot)),
        cr_errors := snd (guarded_fetch ''HubSpot'' hubspot (snd (guarded_fetch ''Webflow'' webflow []))),
        cr_stats := Some \<lparr>cis_newItems = js_max0 (int (cs_total s1) - int (cs_total s0)),
          cis_updatedItems = js_max0 (int (length (all_content (fetched_list webflow) (fetched_list hubspot))) -
                                      (int (cs_total s1) - int (cs_total s0))),
          cis_totalInDatabase = cs_total s1\<rparr>,
        cr_success := (snd (guarded_fetch ''HubSpot'' hubspot (snd (guarded_fetch ''Webflow'' webflow []))) = [])\<rparr>, db1)"
  using assms by (cases webflow; cases hubspot) (simp_all add: ingestAllContent_def Let_def guarded_fetch_def fetched_list_def)

lemma upsert_seq_up:
  "cdb_up db \<Longrightarrow> \<exists>rs db'. upsert_seq now db cs = Inr (rs, db') \<and> cdb_up db'"
proof (induction cs arbitrary: db)
  case Nil then show ?case by simp
next
  case (Cons c cs)
  obtain r db1 where u: "upsert_row now db c = (r, db1)" by (cases "upsert_row now db c")
  have "cdb_up db1" using upsert_row_up [of now db c] u Cons.prems by simp
  then obtain rs db' where "upsert_seq now db1 cs = Inr (rs, db')" "cdb_up db'" using Cons.IH by blast
  then show ?case using Cons.prems u by (simp add: upsertContentItem_def)
qed

lemma upsert_batches_up:
  "cdb_up db \<Longrightarrow> \<exists>rs db'. upsert_batches now db bs = Inr (rs, db') \<and> cdb_up db'"
proof (induction bs arbitrary: db)
  case Nil then show ?case by simp
next
  case (Cons b bs)
  obtain rs db1 where s: "upsert_seq now db b = Inr (rs, db1)" "cdb_up db1" using upsert_seq_up [OF Cons.prems] by blast
  obtain rs' db' where "upsert_batches now db1 bs = Inr (rs', db')" "cdb_up db'" using Cons.IH [OF s(2)] by blast
  then show ?case using s by simp
qed

lemma bulk_up: "cdb_up db \<Longrightarrow> \<exists>rs db'. bulkUpsertContentItems now db cs = Inr (rs, db') \<and> cdb_up db'"
  using upsert_batches_up [of db now "batches CONTENT_BATCH cs"] by (simp add: bulkUpsertContentItems_def)

lemma stats_total: "cdb_up db \<Longrightarrow> \<exists>s. getContentStats now db = Inr s \<and> cs_total s = length (cdb_rows db)"
  by (simp add: getContentStats_def)

lemma card_union_new:
  "finite A \<Longrightarrow> finite B \<Longrightarrow> card (A \<union> B) = card A + card (B - A)"
  by (metis Un_Diff_cancel Diff_disjoint card_Un_disjoint finite_Diff inf_commute)

section \<open>Properties of content ingestion\<close>

text \<open>C18: On a well-formed table with the database up, \<open>ingestAllContent\<close> upserts every fetched
  item, Webflow's then HubSpot's, and its statistics count as new the URLs not yet in the
  table and as updated every other item, so a URL fetched twice is counted once as new and
  once as updated; the total is the size of the catalogue afterwards.\<close>

theorem ingestAllContent_stats:
  assumes wf: "content_wf db" and up: "cdb_up db"
    and ne: "all_content (fetched_list webflow) (fetched_list hubspot) \<noteq> []"
  shows "\<exists>r db'. ingestAllContent now db webflow hubspot = (r, db') \<and>
     content_abs db' = fold content_put (all_content (fetched_list webflow) (fetched_list hubspot)) (content_abs db) \<and>
     cr_stats r = Some
       \<lparr>cis_newItems = card (set (map cin_url (all_content (fetched_list webflow) (fetched_list hubspot))) - dom (content_abs db)),
        cis_updatedItems = length (all_content (fetched_list webflow) (fetched_list hubspot)) -
          card (set (map cin_url (all_content (fetched_list webflow) (fetched_list hubspot))) - dom (content_abs db)),
        cis_totalInDatabase = card (dom (content_abs db'))\<rparr>"
proof -
  let ?items = "all_content (fetched_list webflow) (fetched_list hubspot)"
  let ?new = "set (map cin_url ?items) - dom (content_abs db)"
  obtain s0 where s0: "getContentStats now db = Inr s0" "cs_total s0 = length (cdb_rows db)"
    using stats_total [OF up] by blast
  obtain rs db' where b: "bulkUpsertContentItems now db ?items = Inr (rs, db')" "cdb_up db'"
    using bulk_up [OF up] by blast
  obtain s1 where s1: "getContentStats now db' = Inr s1" "cs_total s1 = length (cdb_rows db')"
    using stats_total [OF b(2)] by blast
  have abs: "content_abs db' = fold content_put ?items (content_abs db)" by (rule bulk_upsert_abs [OF b(1)])
  have wf': "content_wf db'" by (rule bulk_wf [OF wf b(1)])
  have fin: "finite (dom (content_abs db))" by (simp add: dom_content_abs)
  have t0: "cs_total s0 = card (dom (content_abs db))" using s0(2) wf_length_card [OF wf] by simp
  have t1: "cs_total s1 = card (dom (content_abs db)) + card ?new"
    using s1(2) wf_length_card [OF wf'] abs card_union_new [OF fin, of "set (map cin_url ?items)"]
    by (simp add: dom_fold_put)
  have le: "card ?new \<le> length ?items"
    using card_mono [of "set (map cin_url ?items)" ?new] card_length [of "map cin_url ?items"] by auto
  have "ingestAllContent now db webflow hubspot =
     (empty_result\<lparr>cr_webflowCount := length (fetched_list webflow), cr_hubspotCount := length (fetched_list hubspot),
        cr_totalProcessed := length ?items,
        cr_errors := snd (guarded_fetch ''HubSpot'' hubspot (snd (guarded_fetch ''Webflow'' webflow []))),
        cr_stats := Some \<lparr>cis_newItems = js_max0 (int (cs_total s1) - int (cs_total s0)),
          cis_updatedItems = js_max0 (int (length ?items) - (int (cs_total s1) - int (cs_total s0))),
          cis_totalInDatabase = cs_total s1\<rparr>,
        cr_success := (snd (guarded_fetch ''HubSpot'' hubspot (snd (guarded_fetch ''Webflow'' webflow []))) = [])\<rparr>, db')"
    by (rule ingestAllContent_upserted [OF s0(1) ne b(1) s1(1)])
  moreover have "js_max0 (int (cs_total s1) - int (cs_total s0)) = card ?new"
    using t0 t1 by (simp add: js_max0_def)
  moreover have "js_max0 (int (length ?items) - (int (cs_total s1) - int (cs_total s0))) = length ?items - card ?new"
    using t0 t1 le by (simp add: js_max0_def of_nat_diff)
  moreover have "cs_total s1 = card (dom (content_abs db'))" using s1(2) wf_length_card [OF wf'] by simp
  ultimately show ?thesis using abs by simp
qed

theorem ingestAllContent_stats_witness:
  "content_wf empty_content \<and> cdb_up empty_content \<and>
   all_content (fetched_list (Inr [demo_fetched demo_url ''A'', demo_fetched demo_url ''B'']))
     (fetched_list (Inl (ApiFailed ''HubSpot API error: 401 - Unauthorized''))) \<noteq> [] \<and>
   (\<exists>r db'. ingestAllContent 0 empty_content (Inr [demo_fetched demo_url ''A'', demo_fetched demo_url ''B''])
               (Inl (ApiFailed ''HubSpot API error: 401 - Unauthorized'')) = (r, db') \<and>
      cr_stats r = Some \<lparr>cis_newItems = 1, cis_updatedItems = 1, cis_totalInDatabase = 1\<rparr>)"
proof -
  let ?w = "Inr [demo_fetched demo_url ''A'', demo_fetched demo_url ''B'']" and ?h = "Inl (ApiFailed ''HubSpot API error: 401 - Unauthorized'')"
  have h: "content_wf empty_content" "cdb_up empty_content"
    "all_content (fetched_list ?w) (fetched_list ?h) \<noteq> []"
    by (simp_all add: content_wf_def empty_content_def all_content_def fetched_list_def)
  have urls: "set (map cin_url (all_content (fetched_list ?w) (fetched_list ?h))) = {demo_url}"
    by (simp add: all_content_def fetched_list_def transformToContentItem_def demo_fetched_def)
  have len: "length (all_content (fetched_list ?w) (fetched_list ?h)) = 2"
    by (simp add: all_content_def fetched_list_def)
  obtain r db' where r: "ingestAllContent 0 empty_content ?w ?h = (r, db')"
    and a: "content_abs db' = fold content_put (all_content (fetched_list ?w) (fetched_list ?h)) (content_abs empty_content)"
    and s: "cr_stats r = Some
       \<lparr>cis_newItems = card (set (map cin_url (all_content (fetched_list ?w) (fetched_list ?h))) - dom (content_abs empty_content)),
        cis_updatedItems = length (all_content (fetched_list ?w) (fetched_list ?h)) -
          card (set (map cin_url (all_content (fetched_list ?w) (fetched_list ?h))) - dom (content_abs empty_content)),
        cis_totalInDatabase = card (dom (content_abs db'))\<rparr>"
    using ingestAllContent_stats [OF h, of 0] by blast
  have "dom (content_abs db') = {demo_url}" unfolding a dom_fold_put urls by simp
  then show ?thesis using h r s urls len by auto
qed

end
