(* ===== verification/Polling.thy ===== *)
theory Polling
  imports Content_Ingestion
begin

text \<open>The content polling mechanism (\<open>src/lib/utils/content-polling.ts\<close>) and the manual
  refresh route that calls it (\<open>src/app/api/content/refresh/route.ts\<close>). The module keeps
  two variables, \<open>isPolling\<close> and \<open>lastPollTime\<close>; the last poll the schedule reads is
  \<open>MAX(last_polled)\<close> of the content table. Requests run concurrently on one event loop:
  every \<open>await\<close> is a point where another request may run. The system is a step relation
  on a state holding the two variables, the clock, the content table and the program
  counter of every request; a step is one request running up to its next \<open>await\<close> (or to
  its end), the clock advancing, a new request arriving, or the database going down or up.\<close>

section \<open>Days and the schedule\<close>

text \<open>\<open>getUTCFullYear\<close>, \<open>getUTCMonth\<close> and \<open>getUTCDate\<close> of two instants agree exactly when
  the instants fall in the same UTC day, the number of whole days since the epoch (the
  calendar maps day numbers one-to-one to dates), so the year/month/date comparison of
  \<open>shouldPollContent\<close> is a comparison of day numbers.\<close>

definition utc_day :: "ms \<Rightarrow> int" where
  "utc_day t = t div DAY_MS"

definition isNewDay :: "ms \<Rightarrow> ms \<Rightarrow> bool" where
  "isNewDay now lastPoll = (utc_day now \<noteq> utc_day lastPoll)"

text \<open>\<open>SELECT MAX(last_polled)\<close>: \<open>NULL\<close> on an empty table; a failing query is caught and
  also gives \<open>null\<close>.\<close>

definition max_last_polled :: "content_item list \<Rightarrow> ms option" where
  "max_last_polled rows =
     (case rows of [] \<Rightarrow> None | r # rs \<Rightarrow> Some (fold (\<lambda>x m. max m (ci_last_polled x)) rs (ci_last_polled r)))"

definition getLastPollFromDatabase :: "content_db \<Rightarrow> ms option" where
  "getLastPollFromDatabase db = (if cdb_up db then max_last_polled (cdb_rows db) else None)"

text \<open>\<open>shouldPollContent\<close> as one snapshot: the \<open>isPolling\<close> test, then the database read.\<close>

definition shouldPollContent :: "bool \<Rightarrow> ms \<Rightarrow> content_db \<Rightarrow> bool" where
  "shouldPollContent isPolling now db =
     (if isPolling then False
      else case getLastPollFromDatabase db of None \<Rightarrow> True | Some lastPoll \<Rightarrow> isNewDay now lastPoll)"

section \<open>Status strings\<close>

text \<open>\<open>String(n)\<close> of an integer, and \<open>a % b\<close> for \<open>b > 0\<close> (the sign of the dividend).\<close>

definition int_str :: "int \<Rightarrow> string" where
  "int_str i = (if i < 0 then ''-'' @ nat_str (nat (- i)) else nat_str (nat i))"

definition js_rem :: "int \<Rightarrow> int \<Rightarrow> int" where
  "js_rem a b = (if a < 0 then - ((- a) mod b) else a mod b)"

definition MINUTE_MS :: int where
  "MINUTE_MS = 60 * 1000"

definition time_since :: "ms \<Rightarrow> ms \<Rightarrow> string" where
  "time_since now lastPoll =
     (let timeDiff = now - lastPoll;
          hours = timeDiff div HOUR_MS;
          minutes = js_rem timeDiff HOUR_MS div MINUTE_MS
      in if 0 < hours then int_str hours @ ''h '' @ int_str minutes @ ''m ago'' else int_str minutes @ ''m ago'')"

record poll_status =
  pst_lastPoll :: "ms option"
  pst_shouldPoll :: bool
  pst_isPolling :: bool
  pst_timeSinceLastPoll :: "string option"

definition getPollStatus :: "bool \<Rightarrow> ms \<Rightarrow> content_db \<Rightarrow> poll_status" where
  "getPollStatus isPolling now db =
     (let dbLastPoll = getLastPollFromDatabase db
      in \<lparr>pst_lastPoll = dbLastPoll, pst_shouldPoll = shouldPollContent isPolling now db,
          pst_isPolling = isPolling,
          pst_timeSinceLastPoll = map_option (time_since now) dbLastPoll\<rparr>)"

text \<open>\<open>nextPoll.setUTCHours(24, 0, 0, 0)\<close>: midnight UTC after the last poll.\<close>

definition next_poll :: "ms \<Rightarrow> ms" where
  "next_poll lastPoll = (utc_day lastPoll + 1) * DAY_MS"

definition getTimeUntilNextPoll :: "ms \<Rightarrow> content_db \<Rightarrow> string" where
  "getTimeUntilNextPoll now db =
     (case getLastPollFromDatabase db of
        None \<Rightarrow> ''Poll needed''
      | Some lastPoll \<Rightarrow>
          (let nextPoll = next_poll lastPoll
           in if nextPoll \<le> now then ''Poll ready''
              else (let timeDiff = nextPoll - now
                    in int_str (timeDiff div HOUR_MS) @ ''h '' @ int_str (timeDiff mod HOUR_MS div MINUTE_MS) @ ''m'')))"

section \<open>Requests and their steps\<close>

datatype call_kind = AutoPoll | ForceRefresh

datatype call_outcome = NotPolled | Polled content_ingestion_result | Rejected error

text \<open>The program counter of a request: not started, \<open>autoPollIfNeeded\<close> suspended in
  \<open>shouldPollContent\<close> on the database read, suspended in \<open>pollContent\<close> on
  \<open>ingestAllContent\<close>, or settled.\<close>

datatype call_pc = Idle | AwaitShouldPoll | Ingesting call_kind | Returned call_kind call_outcome

record poll_state =
  ps_isPolling :: bool
  ps_lastPollTime :: "ms option"
  ps_clock :: ms
  ps_db :: content_db
  ps_calls :: "call_pc list"

text \<open>The synchronous part of \<open>pollContent\<close> for request \<open>i\<close>: reject when a poll is in
  progress, otherwise take the flag, stamp \<open>lastPollTime\<close> and suspend on the ingestion.\<close>

definition pollContent_start :: "poll_state \<Rightarrow> nat \<Rightarrow> call_kind \<Rightarrow> poll_state" where
  "pollContent_start s i k =
     (if ps_isPolling s then s\<lparr>ps_calls := (ps_calls s)[i := Returned k (Rejected PollInProgress)]\<rparr>
      else s\<lparr>ps_isPolling := True, ps_lastPollTime := Some (ps_clock s), ps_calls := (ps_calls s)[i := Ingesting k]\<rparr>)"

text \<open>\<open>autoPollIfNeeded\<close> from its call to its first \<open>await\<close>: the \<open>isPolling\<close> test of
  \<open>shouldPollContent\<close> runs synchronously.\<close>

definition autoPoll_call :: "poll_state \<Rightarrow> nat \<Rightarrow> poll_state" where
  "autoPoll_call s i =
     s\<lparr>ps_calls := (ps_calls s)[i := (if ps_isPolling s then Returned AutoPoll NotPolled else AwaitShouldPoll)]\<rparr>"

text \<open>\<open>autoPollIfNeeded\<close> resumed with the last poll read from the database.\<close>

definition autoPoll_resume :: "poll_state \<Rightarrow> nat \<Rightarrow> poll_state" where
  "autoPoll_resume s i =
     (let shouldPoll = (case getLastPollFromDatabase (ps_db s) of None \<Rightarrow> True
                        | Some lastPoll \<Rightarrow> isNewDay (ps_clock s) lastPoll)
      in if \<not> shouldPoll then s\<lparr>ps_calls := (ps_calls s)[i := Returned AutoPoll NotPolled]\<rparr>
         else pollContent_start s i AutoPoll)"

text \<open>\<open>pollContent\<close> resumed with the ingestion's outcome; \<open>finally\<close> clears the flag.
  \<open>ingestAllContent\<close> catches every failure, so the call returns its result.\<close>

definition pollContent_finish ::
  "poll_state \<Rightarrow> nat \<Rightarrow> call_kind \<Rightarrow> error + fetched_item list \<Rightarrow> error + fetched_item list \<Rightarrow> poll_state"
where
  "pollContent_finish s i k webflow hubspot =
     (case ingestAllContent (ps_clock s) (ps_db s) webflow hubspot of
        (r, db') \<Rightarrow> s\<lparr>ps_isPolling := False, ps_db := db', ps_calls := (ps_calls s)[i := Returned k (Polled r)]\<rparr>)"

inductive poll_step :: "poll_state \<Rightarrow> poll_state \<Rightarrow> bool" where
  step_auto: "i < length (ps_calls s) \<Longrightarrow> ps_calls s ! i = Idle \<Longrightarrow> poll_step s (autoPoll_call s i)"
| step_resume: "i < length (ps_calls s) \<Longrightarrow> ps_calls s ! i = AwaitShouldPoll \<Longrightarrow> poll_step s (autoPoll_resume s i)"
| step_force: "i < length (ps_calls s) \<Longrightarrow> ps_calls s ! i = Idle \<Longrightarrow> poll_step s (pollContent_start s i ForceRefresh)"
| step_finish: "i < length (ps_calls s) \<Longrightarrow> ps_calls s ! i = Ingesting k \<Longrightarrow>
    poll_step s (pollContent_finish s i k webflow hubspot)"
| step_tick: "ps_clock s < t \<Longrightarrow> poll_step s (s\<lparr>ps_clock := t\<rparr>)"
| step_arrive: "poll_step s (s\<lparr>ps_calls := ps_calls s @ [Idle]\<rparr>)"
| step_outage: "poll_step s (s\<lparr>ps_db := (ps_db s)\<lparr>cdb_up := up\<rparr>\<rparr>)"

text \<open>A server process: the variables as the module initialises them, any clock, a
  well-formed content table, no request yet.\<close>

inductive poll_reach :: "poll_state \<Rightarrow> bool" where
  poll_init: "content_wf db \<Longrightarrow>
    poll_reach \<lparr>ps_isPolling = False, ps_lastPollTime = None, ps_clock = t, ps_db = db, ps_calls = []\<rparr>"
| poll_next: "poll_reach s \<Longrightarrow> poll_step s s' \<Longrightarrow> poll_reach s'"

section \<open>The refresh route\<close>

record refresh_response =
  rr_status :: nat
  rr_success :: bool
  rr_message :: string
  rr_error :: "string option"

text \<open>\<open>POST /api/content/refresh\<close>: the JSON the route sends for the settled
  \<open>forceRefresh()\<close> call, its result or its rejection.\<close>

fun refresh_route :: "error + content_ingestion_result \<Rightarrow> refresh_response" where
  "refresh_route (Inr r) =
     \<lparr>rr_status = 200, rr_success = cr_success r,
      rr_message = (if cr_success r then ''Content refreshed successfully'' else ''Content refresh completed with errors''),
      rr_error = None\<rparr>"
| "refresh_route (Inl e) =
     \<lparr>rr_status = 500, rr_success = False, rr_message = ''Content refresh failed'', rr_error = Some (err_message e)\<rparr>"

section \<open>Specification predicates\<close>

fun is_ingesting :: "call_pc \<Rightarrow> bool" where
  "is_ingesting (Ingesting _) = True"
| "is_ingesting _ = False"

text \<open>The lock discipline: at most one request is inside \<open>ingestAllContent\<close>, and the flag
  is set exactly when one is; the content table stays well formed.\<close>

definition poll_inv :: "poll_state \<Rightarrow> bool" where
  "poll_inv s =
     (length (filter is_ingesting (ps_calls s)) \<le> 1 \<and>
      ps_isPolling s = (length (filter is_ingesting (ps_calls s)) = 1) \<and>
      content_wf (ps_db s))"


section \<open>Lemmas on polling\<close>

lemma mult_le_iff_le_div:
  assumes "0 < (b::int)"
  shows "(q * b \<le> a) = (q \<le> a div b)"
proof
  have e: "a = a div b * b + a mod b" by simp
  have m: "0 \<le> a mod b" "a mod b < b" using assms by simp_all
  show "q \<le> a div b" if "q * b \<le> a"
  proof (rule ccontr)
    assume "\<not> q \<le> a div b"
    then have "(a div b + 1) * b \<le> q * b" using assms by (intro mult_right_mono) simp_all
    then show False using that e m by (simp only: distrib_right mult_1_left)
  qed
  show "q * b \<le> a" if "q \<le> a div b"
  proof -
    have "q * b \<le> a div b * b" using that assms by (intro mult_right_mono) simp_all
    then show ?thesis using e m by linarith
  qed
qed

lemma length_filter_update:
  "i < length xs \<Longrightarrow>
   length (filter P (xs[i := y])) + (if P (xs ! i) then 1 else 0) = length (filter P xs) + (if P y then 1 else 0)"
proof (induction xs arbitrary: i)
  case Nil then show ?case by simp
next
  case (Cons x xs) then show ?case by (cases i) auto
qed

lemma ingestAllContent_db:
  "ingestAllContent now db webflow hubspot = (r, db') \<Longrightarrow>
     db' = db \<or> (\<exists>cs rs. bulkUpsertContentItems now db cs = Inr (rs, db'))"
  by (cases webflow; cases hubspot)
     (auto simp: ingestAllContent_def Let_def guarded_fetch_def split: sum.splits prod.splits if_splits)

lemma ingestAllContent_wf:
  "content_wf db \<Longrightarrow> ingestAllContent now db webflow hubspot = (r, db') \<Longrightarrow> content_wf db'"
  using ingestAllContent_db bulk_wf by blast

lemma outage_wf: "content_wf db \<Longrightarrow> content_wf (db\<lparr>cdb_up := up\<rparr>)"
  by (simp add: content_wf_def)

lemma poll_inv_replace:
  assumes "poll_inv s" "i < length (ps_calls s)" "\<not> is_ingesting (ps_calls s ! i)" "\<not> is_ingesting y"
  shows "poll_inv (s\<lparr>ps_calls := (ps_calls s)[i := y]\<rparr>)"
  using assms length_filter_update [of i "ps_calls s" is_ingesting y] by (simp add: poll_inv_def)

lemma poll_inv_start:
  assumes "poll_inv s" "i < length (ps_calls s)" "\<not> is_ingesting (ps_calls s ! i)"
  shows "poll_inv (pollContent_start s i k)"
proof (cases "ps_isPolling s")
  case True then show ?thesis using poll_inv_replace [OF assms] by (simp add: pollContent_start_def)
next
  case False
  then have "length (filter is_ingesting (ps_calls s)) = 0" using assms(1) by (auto simp: poll_inv_def le_Suc_eq)
  then show ?thesis using False assms length_filter_update [of i "ps_calls s" is_ingesting "Ingesting k"]
    by (simp add: pollContent_start_def poll_inv_def)
qed

lemma poll_step_inv: "poll_step s s' \<Longrightarrow> poll_inv s \<Longrightarrow> poll_inv s'"
proof (induction rule: poll_step.induct)
  case (step_auto i s)
  then show ?case using poll_inv_replace [of s i] by (simp add: autoPoll_call_def)
next
  case (step_resume i s)
  then show ?case using poll_inv_replace [of s i] poll_inv_start [of s i AutoPoll]
    by (simp add: autoPoll_resume_def Let_def)
next
  case (step_force i s)
  then show ?case using poll_inv_start [of s i ForceRefresh] by simp
next
  case (step_finish i s k webflow hubspot)
  obtain r db' where ia: "ingestAllContent (ps_clock s) (ps_db s) webflow hubspot = (r, db')"
    by (cases "ingestAllContent (ps_clock s) (ps_db s) webflow hubspot")
  have "length (filter is_ingesting (ps_calls s)) = 1"
    using step_finish length_filter_update [of i "ps_calls s" is_ingesting "Returned k (Polled r)"]
    by (simp add: poll_inv_def)
  then show ?case
    using step_finish ia ingestAllContent_wf [OF _ ia] length_filter_update [of i "ps_calls s" is_ingesting "Returned k (Polled r)"]
    by (simp add: pollContent_finish_def poll_inv_def)
next
  case (step_tick s t) then show ?case by (simp add: poll_inv_def)
next
  case (step_arrive s) then show ?case by (simp add: poll_inv_def)
next
  case (step_outage s up) then show ?case by (simp add: poll_inv_def outage_wf)
qed

lemma nat_str_first: "\<exists>c cs. nat_str n = c # cs \<and> c \<in> set ''0123456789''"
proof (induction n rule: nat_str.induct)
  case (1 n)
  show ?case
  proof (cases "n < 10")
    case True
    then show ?thesis using nth_mem [of n "''0123456789''"] by (subst nat_str.simps) simp
  next
    case False
    then obtain c cs where "nat_str (n div 10) = c # cs" "c \<in> set ''0123456789''" using 1 by blast
    then show ?thesis using False by (subst nat_str.simps) simp
  qed
qed

lemma int_str_first: "\<exists>c cs. int_str i = c # cs \<and> c \<in> set ''-0123456789''"
  using nat_str_first [of "nat (- i)"] nat_str_first [of "nat i"] by (auto simp: int_str_def)

lemma countdown_not_status:
  "int_str h @ ''h '' @ rest \<noteq> ''Poll needed'' \<and> int_str h @ ''h '' @ rest \<noteq> ''Poll ready''"
  using int_str_first [of h] by auto

lemma next_poll_reached:
  assumes "lastPoll \<le> now"
  shows "(next_poll lastPoll \<le> now) = isNewDay now lastPoll"
proof -
  have d: "0 < DAY_MS" by (simp add: DAY_MS_def)
  have mono: "utc_day lastPoll \<le> utc_day now" using assms d by (simp add: utc_day_def zdiv_mono1)
  have "(next_poll lastPoll \<le> now) = (utc_day lastPoll + 1 \<le> now div DAY_MS)"
    unfolding next_poll_def by (rule mult_le_iff_le_div [OF d])
  then show ?thesis using mono by (auto simp: isNewDay_def utc_day_def)
qed

section \<open>Properties of polling\<close>

text \<open>C16: In every state the polling module reaches, with any number of concurrent requests
  interleaved at their \<open>await\<close>s, at most one request is inside \<open>ingestAllContent\<close>, the
  \<open>isPolling\<close> flag is set exactly when one is, and the content table stays well formed.\<close>

theorem poll_reach_inv: "poll_reach s \<Longrightarrow> poll_inv s"
proof (induction rule: poll_reach.induct)
  case (poll_init db t) then show ?case by (simp add: poll_inv_def)
next
  case (poll_next s s') then show ?case using poll_step_inv by blast
qed

theorem poll_reach_inv_witness:
  "poll_reach \<lparr>ps_isPolling = False, ps_lastPollTime = None, ps_clock = 0, ps_db = empty_content, ps_calls = [Idle]\<rparr> \<and>
   poll_inv \<lparr>ps_isPolling = False, ps_lastPollTime = None, ps_clock = 0, ps_db = empty_content, ps_calls = [Idle]\<rparr>"
proof -
  have r0: "poll_reach \<lparr>ps_isPolling = False, ps_lastPollTime = None, ps_clock = 0, ps_db = empty_content, ps_calls = []\<rparr>"
    by (rule poll_init) (simp add: content_wf_def empty_content_def)
  have r1: "poll_reach \<lparr>ps_isPolling = False, ps_lastPollTime = None, ps_clock = 0, ps_db = empty_content, ps_calls = [Idle]\<rparr>"
    using poll_next [OF r0 step_arrive] by simp
  then show ?thesis using poll_reach_inv by blast
qed

text \<open>C17: \<open>autoPollIfNeeded\<close> can reject: two requests that both find a poll due pass
  \<open>shouldPollContent\<close> before either takes the flag, and the second one's \<open>pollContent\<close>
  throws \<open>Content polling is already in progress\<close>.\<close>

theorem autoPoll_race:
  "\<exists>s. poll_reach s \<and> Returned AutoPoll (Rejected PollInProgress) \<in> set (ps_calls s)"
proof -
  let ?s = "\<lambda>p lp cs. \<lparr>ps_isPolling = p, ps_lastPollTime = lp, ps_clock = 0,
                     ps_db = empty_content, ps_calls = cs\<rparr>"
  have r0: "poll_reach (?s False None [])" by (rule poll_init) (simp add: content_wf_def empty_content_def)
  have r1: "poll_reach (?s False None [Idle])" using poll_next [OF r0 step_arrive] by simp
  have r2: "poll_reach (?s False None [Idle, Idle])" using poll_next [OF r1 step_arrive] by simp
  have r3: "poll_reach (?s False None [AwaitShouldPoll, Idle])"
    using poll_next [OF r2 step_auto [of 0 "?s False None [Idle, Idle]"]] by (simp add: autoPoll_call_def)
  have r4: "poll_reach (?s False None [AwaitShouldPoll, AwaitShouldPoll])"
    using poll_next [OF r3 step_auto [of 1 "?s False None [AwaitShouldPoll, Idle]"]] by (simp add: autoPoll_call_def)
  have none: "getLastPollFromDatabase empty_content = None"
    by (simp add: getLastPollFromDatabase_def max_last_polled_def empty_content_def)
  have r5: "poll_reach (?s True (Some 0) [Ingesting AutoPoll, AwaitShouldPoll])"
    using poll_next [OF r4 step_resume [of 0 "?s False None [AwaitShouldPoll, AwaitShouldPoll]"]] none
    by (simp add: autoPoll_resume_def pollContent_start_def)
  have r6: "poll_reach (?s True (Some 0) [Ingesting AutoPoll, Returned AutoPoll (Rejected PollInProgress)])"
    using poll_next [OF r5 step_resume [of 1 "?s True (Some 0) [Ingesting AutoPoll, AwaitShouldPoll]"]] none
    by (simp add: autoPoll_resume_def pollContent_start_def)
  then show ?thesis by fastforce
qed

text \<open>When the last poll is not in the future, \<open>getTimeUntilNextPoll\<close> reports \<open>Poll needed\<close> or
  \<open>Poll ready\<close> exactly when \<open>shouldPollContent\<close> (no poll running) says a poll is due.\<close>

theorem timeUntilNextPoll_agrees:
  assumes "\<forall>l. getLastPollFromDatabase db = Some l \<longrightarrow> l \<le> now"
  shows "shouldPollContent False now db = (getTimeUntilNextPoll now db \<in> {''Poll needed'', ''Poll ready''})"
proof (cases "getLastPollFromDatabase db")
  case None
  then show ?thesis by (simp add: shouldPollContent_def getTimeUntilNextPoll_def)
next
  case (Some l)
  then have le: "l \<le> now" using assms by simp
  show ?thesis using Some next_poll_reached [OF le] countdown_not_status
    by (simp add: shouldPollContent_def getTimeUntilNextPoll_def Let_def)
qed

theorem timeUntilNextPoll_agrees_witness:
  "getLastPollFromDatabase (snd (upsert_row 0 empty_content (demo_content demo_url ''A''))) = Some 0 \<and> 0 \<le> DAY_MS \<and>
   shouldPollContent False DAY_MS (snd (upsert_row 0 empty_content (demo_content demo_url ''A''))) \<and>
   getTimeUntilNextPoll DAY_MS (snd (upsert_row 0 empty_content (demo_content demo_url ''A''))) \<in> {''Poll needed'', ''Poll ready''}"
proof -
  have g: "getLastPollFromDatabase (snd (upsert_row 0 empty_content (demo_content demo_url ''A''))) = Some 0"
    by (simp add: getLastPollFromDatabase_def max_last_polled_def upsert_row_def empty_content_def find_url_def Let_def)
  have h: "\<forall>l. getLastPollFromDatabase (snd (upsert_row 0 empty_content (demo_content demo_url ''A''))) = Some l \<longrightarrow> l \<le> DAY_MS"
    using g by (simp add: DAY_MS_def)
  have s: "shouldPollContent False DAY_MS (snd (upsert_row 0 empty_content (demo_content demo_url ''A'')))"
    using g by (simp add: shouldPollContent_def isNewDay_def utc_day_def DAY_MS_def)
  show ?thesis using timeUntilNextPoll_agrees [OF h] g s by (simp add: DAY_MS_def)
qed

end
