(* ===== verification/Chunker.thy ===== *)
theory Chunker
  imports Prelude
begin

text \<open>The text chunker (the \<open>text-chunker\<close> module, \<open>src/lib/utils/hubspot.ts\<close> lines 346-542):
  \<open>chunkText\<close> normalises white space and walks a cursor over the text, cutting each chunk at the
  last preferred separator in a window around \<open>cursor + chunkSize\<close> and moving the cursor back by
  \<open>chunkOverlap\<close>. Positions are JavaScript numbers, here integers, since the cursor can
  step back before 0; \<open>chunkSize\<close> and \<open>chunkOverlap\<close> are natural numbers. The loop is a
  \<open>partial_function (option)\<close>: \<open>None\<close> is a call that never returns.\<close>

section \<open>Data\<close>

record chunk =
  ch_text :: string
  ch_index :: nat
  ch_start :: int
  ch_end :: int
  ch_metadata :: "jobj option"

record chunking_options =
  co_chunkSize :: "nat option"
  co_chunkOverlap :: "nat option"
  co_separators :: "string list option"
  co_preserveWhitespace :: "bool option"

record chunk_opts =
  cs_size :: nat
  cs_overlap :: nat
  cs_separators :: "string list"
  cs_preserve :: bool

definition DEFAULT_SEPARATORS :: "string list" where
  "DEFAULT_SEPARATORS = [nl @ nl, nl, ''. '', ''! '', ''? '', ''; '', '', '', '' '']"

text \<open>\<open>{ ...DEFAULT_OPTIONS, ...options }\<close>: 1000, 200, the separators above, no white-space
  preservation.\<close>

definition resolve_chunking :: "chunking_options \<Rightarrow> chunk_opts" where
  "resolve_chunking options =
     \<lparr>cs_size = (case co_chunkSize options of None \<Rightarrow> 1000 | Some n \<Rightarrow> n),
      cs_overlap = (case co_chunkOverlap options of None \<Rightarrow> 200 | Some n \<Rightarrow> n),
      cs_separators = (case co_separators options of None \<Rightarrow> DEFAULT_SEPARATORS | Some s \<Rightarrow> s),
      cs_preserve = (case co_preserveWhitespace options of None \<Rightarrow> False | Some b \<Rightarrow> b)\<rparr>"

definition no_chunking_options :: chunking_options where
  "no_chunking_options = \<lparr>co_chunkSize = None, co_chunkOverlap = None, co_separators = None,
     co_preserveWhitespace = None\<rparr>"

section \<open>White-space normalisation\<close>

text \<open>\<open>.replace(/\r\n/g, '\n')\<close>.\<close>

fun crlf_to_lf :: "string \<Rightarrow> string" where
  "crlf_to_lf (c # d # cs) =
     (if c = CHR 0x0D \<and> d = CHR 0x0A then CHR 0x0A # crlf_to_lf cs else c # crlf_to_lf (d # cs))"
| "crlf_to_lf cs = cs"

text \<open>A global replace of \<open>/[P]{k,}/\<close> by \<open>r\<close>: every maximal run of characters satisfying
  \<open>P\<close> of length at least \<open>k\<close> becomes \<open>r\<close> (the quantifier is greedy).\<close>

function collapse_runs :: "(char \<Rightarrow> bool) \<Rightarrow> nat \<Rightarrow> string \<Rightarrow> string \<Rightarrow> string" where
  "collapse_runs P k r [] = []"
| "collapse_runs P k r (c # cs) =
     (if P c then
        (let run = takeWhile P (c # cs) in (if k \<le> length run then r else run) @ collapse_runs P k r (dropWhile P cs))
      else c # collapse_runs P k r cs)"
  by pat_completeness auto
termination
  by (relation "measure (\<lambda>(P, k, r, s). length s)") (auto simp: le_imp_less_Suc length_dropWhile_le)

definition space_or_tab :: "char \<Rightarrow> bool" where
  "space_or_tab c = (c = CHR '' '' \<or> c = CHR 0x09)"

definition normalize_ws :: "string \<Rightarrow> string" where
  "normalize_ws text =
     js_trim (collapse_runs space_or_tab 1 '' ''
       (collapse_runs (\<lambda>c. c = CHR 0x0A) 3 (nl @ nl) (crlf_to_lf text)))"

section \<open>Split points\<close>

text \<open>\<open>s.lastIndexOf(t, from)\<close>: the last match starting at or before \<open>from\<close> (clamped to
  \<open>[0, length]\<close>), \<open>-1\<close> when there is none.\<close>

fun lio_down :: "string \<Rightarrow> string \<Rightarrow> nat \<Rightarrow> nat option" where
  "lio_down s t 0 = (if take (length t) s = t then Some 0 else None)"
| "lio_down s t (Suc j) = (if take (length t) (drop (Suc j) s) = t then Some (Suc j) else lio_down s t j)"

definition lastIndexOf :: "string \<Rightarrow> string \<Rightarrow> int \<Rightarrow> int" where
  "lastIndexOf s t from = (case lio_down s t (min (nat from) (length s)) of None \<Rightarrow> -1 | Some j \<Rightarrow> int j)"

text \<open>The \<open>for (const separator of opts.separators)\<close> loop: the first separator found in the
  window \<open>[max(start, end - 200), min(end + 100, length))\<close> at or before \<open>end\<close> gives the cut
  just after it.\<close>

fun find_split :: "string \<Rightarrow> int \<Rightarrow> int \<Rightarrow> string list \<Rightarrow> int option" where
  "find_split txt startPos endPos [] = None"
| "find_split txt startPos endPos (separator # seps) =
     (let searchStart = max startPos (endPos - 200);
          searchEnd = min (endPos + 100) (int (length txt));
          segment = js_substring txt searchStart searchEnd;
          relativePos = lastIndexOf segment separator (endPos - searchStart)
      in if relativePos \<noteq> -1 then Some (searchStart + relativePos + int (length separator))
         else find_split txt startPos endPos seps)"

definition chunk_end :: "chunk_opts \<Rightarrow> string \<Rightarrow> int \<Rightarrow> int" where
  "chunk_end opts txt startPos =
     (let endPos = min (startPos + int (cs_size opts)) (int (length txt))
      in if endPos < int (length txt)
         then (case find_split txt startPos endPos (cs_separators opts) of None \<Rightarrow> endPos | Some p \<Rightarrow> p)
         else endPos)"

text \<open>\<open>startPos = endPos - chunkOverlap\<close>, reset to \<open>endPos\<close> when it does not pass the start of
  the last chunk pushed (\<open>x <= undefined\<close> is false when there is none).\<close>

definition next_start :: "chunk_opts \<Rightarrow> int \<Rightarrow> chunk list \<Rightarrow> int" where
  "next_start opts endPos chunks =
     (let s = endPos - int (cs_overlap opts)
      in if chunks \<noteq> [] \<and> s \<le> ch_start (last chunks) then endPos else s)"

section \<open>The chunking loop\<close>

partial_function (option) chunk_loop ::
  "chunk_opts \<Rightarrow> string \<Rightarrow> int \<Rightarrow> nat \<Rightarrow> chunk list \<Rightarrow> chunk list option"
where
  "chunk_loop opts txt startPos chunkIndex chunks =
     (if startPos < int (length txt) then
        (let endPos = chunk_end opts txt startPos;
             chunkText = js_trim (js_substring txt startPos endPos)
         in if 0 < length chunkText then
              (let chunks' = chunks @ [\<lparr>ch_text = chunkText, ch_index = chunkIndex, ch_start = startPos,
                                         ch_end = endPos, ch_metadata = None\<rparr>]
               in chunk_loop opts txt (next_start opts endPos chunks') (Suc chunkIndex) chunks')
            else chunk_loop opts txt (next_start opts endPos chunks) chunkIndex chunks)
      else Some chunks)"

declare chunk_loop.simps [code]

definition clean_text :: "chunk_opts \<Rightarrow> string \<Rightarrow> string" where
  "clean_text opts text = (if cs_preserve opts then text else normalize_ws text)"

definition chunkText :: "string \<Rightarrow> chunking_options \<Rightarrow> chunk list option" where
  "chunkText text options =
     (let opts = resolve_chunking options;
          cleanText = clean_text opts text
      in if length cleanText = 0 then Some [] else chunk_loop opts cleanText 0 0 [])"

section \<open>Wrappers\<close>

definition chunkTextWithMetadata :: "string \<Rightarrow> jobj \<Rightarrow> chunking_options \<Rightarrow> chunk list option" where
  "chunkTextWithMetadata text metadata options =
     map_option (map (\<lambda>c. c\<lparr>ch_metadata := Some (obj_merge metadata (case ch_metadata c of None \<Rightarrow> [] | Some m \<Rightarrow> m))\<rparr>))
       (chunkText text options)"

definition estimateTokenCount :: "string \<Rightarrow> nat" where
  "estimateTokenCount text = (length text + 3) div 4"

definition chunkByTokenLimit :: "string \<Rightarrow> nat \<Rightarrow> chunking_options \<Rightarrow> chunk list option" where
  "chunkByTokenLimit text maxTokens options = chunkText text (options\<lparr>co_chunkSize := Some (maxTokens * 4)\<rparr>)"

section \<open>Specification predicates\<close>

text \<open>The longest separator, which bounds how far past \<open>start + chunkSize\<close> a cut can fall.\<close>

definition max_sep_len :: "string list \<Rightarrow> nat" where
  "max_sep_len seps = foldr (\<lambda>s m. max (length s) m) seps 0"

text \<open>A pushed chunk: non-empty, the trimmed text of its span, and a span of at most
  \<open>chunkSize\<close> plus the longest separator.\<close>

definition chunk_ok :: "chunk_opts \<Rightarrow> string \<Rightarrow> chunk \<Rightarrow> bool" where
  "chunk_ok opts txt c =
     (ch_text c \<noteq> [] \<and> ch_text c = js_trim (js_substring txt (ch_start c) (ch_end c)) \<and>
      ch_start c < ch_end c \<and> ch_end c \<le> ch_start c + int (cs_size opts) + int (max_sep_len (cs_separators opts)) \<and>
      ch_metadata c = None)"

text \<open>Every non-white-space position before the cursor lies in the span of a pushed chunk.\<close>

definition covers :: "string \<Rightarrow> chunk list \<Rightarrow> int \<Rightarrow> bool" where
  "covers txt cs s =
     (\<forall>p. 0 \<le> p \<and> p < s \<and> p < int (length txt) \<and> \<not> js_space (txt ! nat p) \<longrightarrow>
        (\<exists>c\<in>set cs. ch_start c \<le> p \<and> p < ch_end c))"

text \<open>The loop invariant: consecutive indices, strictly increasing starts, the last start
  before the cursor, well-formed chunks, and coverage up to the cursor.\<close>

definition loop_inv :: "chunk_opts \<Rightarrow> string \<Rightarrow> int \<Rightarrow> nat \<Rightarrow> chunk list \<Rightarrow> bool" where
  "loop_inv opts txt s i cs =
     (i = length cs \<and> map ch_index cs = [0..<length cs] \<and> sorted_wrt (<) (map ch_start cs) \<and>
      (cs \<noteq> [] \<longrightarrow> ch_start (last cs) < s) \<and> (\<forall>c\<in>set cs. chunk_ok opts txt c) \<and> covers txt cs s)"

section \<open>Sample inputs\<close>

definition small_opts :: chunking_options where
  "small_opts = \<lparr>co_chunkSize = Some 10, co_chunkOverlap = Some 2, co_separators = None,
     co_preserveWhitespace = None\<rparr>"

definition split_opts :: chunking_options where
  "split_opts = \<lparr>co_chunkSize = Some 4, co_chunkOverlap = Some 0, co_separators = None,
     co_preserveWhitespace = None\<rparr>"

definition preserve_opts :: chunking_options where
  "preserve_opts = \<lparr>co_chunkSize = Some 10, co_chunkOverlap = Some 2, co_separators = None,
     co_preserveWhitespace = Some True\<rparr>"

section \<open>Lemmas on the split points and the loop\<close>

lemma max_sep_len_Cons [simp]: "max_sep_len (s # seps) = max (length s) (max_sep_len seps)"
  by (simp add: max_sep_len_def)

lemma lio_down_Some: "lio_down s t j = Some k \<Longrightarrow> k \<le> j \<and> take (length t) (drop k s) = t"
  by (induction j) (auto split: if_splits)

lemma take_eq_len:
  assumes "take (length t) (drop k s) = t" "k \<le> length s"
  shows "k + length t \<le> length s"
proof -
  have "length (take (length t) (drop k s)) = length t" using assms(1) by simp
  then have "length t \<le> length s - k" by simp
  then show ?thesis using assms(2) by simp
qed

lemma lastIndexOf_found:
  assumes "lastIndexOf s t f \<noteq> -1"
  shows "0 \<le> lastIndexOf s t f \<and> lastIndexOf s t f \<le> max 0 f \<and> lastIndexOf s t f + int (length t) \<le> int (length s)"
proof -
  obtain k where k: "lio_down s t (min (nat f) (length s)) = Some k" "lastIndexOf s t f = int k"
    using assms by (auto simp: lastIndexOf_def split: option.splits)
  from lio_down_Some [OF k(1)] have "k \<le> min (nat f) (length s)" "take (length t) (drop k s) = t"
    by blast+
  then have "k \<le> min (nat f) (length s)" "k + length t \<le> length s" using take_eq_len by auto
  then show ?thesis using k(2) by auto
qed

lemma find_split_bounds:
  assumes "find_split txt s e seps = Some p" "s \<le> e"
  shows "max s (e - 200) \<le> p \<and> p \<le> e + int (max_sep_len seps)"
  using assms
proof (induction seps)
  case Nil then show ?case by simp
next
  case (Cons sep seps)
  let ?ss = "max s (e - 200)"
  let ?seg = "js_substring txt ?ss (min (e + 100) (int (length txt)))"
  let ?rel = "lastIndexOf ?seg sep (e - ?ss)"
  show ?case
  proof (cases "?rel = -1")
    case True
    with Cons.prems have "find_split txt s e seps = Some p" by (simp add: Let_def)
    with Cons.IH Cons.prems(2) show ?thesis by fastforce
  next
    case False
    with Cons.prems have p: "p = ?ss + ?rel + int (length sep)" by (simp add: Let_def)
    from lastIndexOf_found [OF False] have r: "0 \<le> ?rel" "?rel \<le> max 0 (e - ?ss)" by auto
    obtain ss r where ss: "ss = ?ss" and rr: "r = ?rel" by blast
    have "s \<le> ss" "e - 200 \<le> ss" "ss \<le> e" using Cons.prems(2) ss by auto
    moreover have "0 \<le> r" "r \<le> e - ss" using r rr ss \<open>ss \<le> e\<close> by auto
    moreover have "int (length sep) \<le> int (max_sep_len (sep # seps))" by simp
    moreover have "p = ss + r + int (length sep)" using p ss rr by simp
    ultimately show ?thesis by linarith
  qed
qed

lemma chunk_end_bounds:
  assumes "s < int (length txt)"
  shows "s \<le> chunk_end opts txt s \<and> chunk_end opts txt s \<le> s + int (cs_size opts) + int (max_sep_len (cs_separators opts))"
proof -
  let ?e = "min (s + int (cs_size opts)) (int (length txt))"
  have se: "s \<le> ?e" using assms by simp
  show ?thesis
  proof (cases "?e < int (length txt)")
    case True
    show ?thesis
    proof (cases "find_split txt s ?e (cs_separators opts)")
      case None
      then show ?thesis using True se by (simp add: chunk_end_def Let_def)
    next
      case (Some p)
      from find_split_bounds [OF Some se] have "s \<le> p" "p \<le> ?e + int (max_sep_len (cs_separators opts))" by auto
      then show ?thesis using True Some by (simp add: chunk_end_def Let_def)
    qed
  next
    case False
    then show ?thesis using se by (simp add: chunk_end_def Let_def)
  qed
qed

lemma chunk_end_split:
  assumes "s + int (cs_size opts) < int (length txt)"
  shows "s + int (cs_size opts) - 200 \<le> chunk_end opts txt s"
proof (cases "find_split txt s (s + int (cs_size opts)) (cs_separators opts)")
  case None
  then show ?thesis using assms by (simp add: chunk_end_def Let_def)
next
  case (Some p)
  have "s \<le> s + int (cs_size opts)" by simp
  from find_split_bounds [OF Some this] have "s + int (cs_size opts) - 200 \<le> p" by simp
  then show ?thesis using assms Some by (simp add: chunk_end_def Let_def)
qed

lemma chunk_end_last:
  "int (length txt) \<le> s + int (cs_size opts) \<Longrightarrow> chunk_end opts txt s = int (length txt)"
  by (simp add: chunk_end_def Let_def)

lemma js_substring_length: "a \<le> b \<Longrightarrow> int (length (js_substring txt a b)) \<le> b - a"
  by (auto simp: js_substring_def Let_def)

lemma js_substring_mem:
  assumes "0 \<le> p" "a \<le> p" "p < b" "p < int (length txt)"
  shows "txt ! nat p \<in> set (js_substring txt a b)"
proof -
  let ?a = "min (nat a) (length txt)" and ?b = "min (nat b) (length txt)"
  have ab: "?a \<le> nat p" "nat p < ?b" using assms by auto
  then have le: "?a \<le> ?b" by linarith
  have "js_substring txt a b = take (max ?a ?b - min ?a ?b) (drop (min ?a ?b) txt)"
    by (simp only: js_substring_def Let_def)
  also have "\<dots> = take (?b - ?a) (drop ?a txt)" using le by (simp only: max_absorb2 min_absorb1)
  finally have "js_substring txt a b = take (?b - ?a) (drop ?a txt)" .
  moreover have "take (?b - ?a) (drop ?a txt) ! (nat p - ?a) = txt ! nat p"
  proof -
    have i: "nat p - ?a < ?b - ?a" using ab by linarith
    have "take (?b - ?a) (drop ?a txt) ! (nat p - ?a) = drop ?a txt ! (nat p - ?a)" by (rule nth_take [OF i])
    also have "\<dots> = txt ! (?a + (nat p - ?a))" by (rule nth_drop) simp
    also have "?a + (nat p - ?a) = nat p" using ab by linarith
    finally show ?thesis .
  qed
  moreover have "nat p - ?a < length (take (?b - ?a) (drop ?a txt))"
  proof -
    have "length (take (?b - ?a) (drop ?a txt)) = ?b - ?a" by simp
    moreover have "nat p - ?a < ?b - ?a" using ab by linarith
    ultimately show ?thesis by simp
  qed
  ultimately show ?thesis by (metis nth_mem)
qed

lemma js_substring_empty: "js_substring txt a a = []"
  by (simp add: js_substring_def Let_def)

lemma next_start_cases:
  "next_start opts e cs = e \<or> next_start opts e cs = e - int (cs_overlap opts)"
  by (simp add: next_start_def Let_def)

lemma chunk_loop_unfold:
  assumes "s < int (length txt)"
  shows "chunk_loop opts txt s i cs =
    (if 0 < length (js_trim (js_substring txt s (chunk_end opts txt s)))
     then chunk_loop opts txt
            (next_start opts (chunk_end opts txt s)
               (cs @ [\<lparr>ch_text = js_trim (js_substring txt s (chunk_end opts txt s)), ch_index = i, ch_start = s,
                       ch_end = chunk_end opts txt s, ch_metadata = None\<rparr>]))
            (Suc i)
            (cs @ [\<lparr>ch_text = js_trim (js_substring txt s (chunk_end opts txt s)), ch_index = i, ch_start = s,
                   ch_end = chunk_end opts txt s, ch_metadata = None\<rparr>])
     else chunk_loop opts txt (next_start opts (chunk_end opts txt s) cs) i cs)"
  using assms by (subst chunk_loop.simps) (simp add: Let_def)

lemma chunk_loop_exit: "\<not> s < int (length txt) \<Longrightarrow> chunk_loop opts txt s i cs = Some cs"
  by (subst chunk_loop.simps) simp

lemma last_char_in_tail:
  assumes "txt \<noteq> []" "0 \<le> s" "s < int (length txt)"
  shows "last txt \<in> set (js_substring txt s (int (length txt)))"
proof -
  have "txt ! nat (int (length txt) - 1) \<in> set (js_substring txt s (int (length txt)))"
    using assms by (intro js_substring_mem) auto
  moreover have "nat (int (length txt) - 1) = length txt - 1" by simp
  ultimately show ?thesis using assms(1) by (simp add: last_conv_nth)
qed

lemma final_chunk_nonempty:
  assumes "txt \<noteq> []" "\<not> js_space (last txt)" "0 \<le> s" "s < int (length txt)"
  shows "js_trim (js_substring txt s (int (length txt))) \<noteq> []"
  using last_char_in_tail [OF assms(1,3,4)] assms(2) by (auto simp: js_trim_Nil_iff)

lemma split_progress:
  assumes "int (cs_overlap opts) + 200 < int (cs_size opts)" "s + int (cs_size opts) < int (length txt)"
  shows "s < next_start opts (chunk_end opts txt s) cs"
proof -
  have "s + int (cs_size opts) - 200 \<le> chunk_end opts txt s" using assms(2) by (rule chunk_end_split)
  then have "s < chunk_end opts txt s - int (cs_overlap opts)" "s < chunk_end opts txt s" using assms(1) by linarith+
  then show ?thesis using next_start_cases [of opts "chunk_end opts txt s" cs] by auto
qed

lemma final_progress:
  assumes "s < e"
  shows "s < next_start opts e (cs @ [\<lparr>ch_text = t, ch_index = i, ch_start = s, ch_end = e, ch_metadata = md\<rparr>])"
  using assms by (simp add: next_start_def Let_def)

lemma chunk_loop_terminates:
  assumes ov: "cs_overlap opts + 200 < cs_size opts" and ne: "txt \<noteq> []" and tr: "\<not> js_space (last txt)"
  shows "0 \<le> s \<Longrightarrow> \<exists>r. chunk_loop opts txt s i cs = Some r"
proof (induction "nat (int (length txt) - s)" arbitrary: s i cs rule: less_induct)
  case less
  show ?case
  proof (cases "s < int (length txt)")
    case False
    then show ?thesis by (simp add: chunk_loop_exit)
  next
    case True
    let ?e = "chunk_end opts txt s"
    have step: "\<exists>r. chunk_loop opts txt s' i' cs' = Some r" if "s < s'" for s' i' cs'
      using that True less.prems by (intro less.hyps) auto
    have ov': "int (cs_overlap opts) + 200 < int (cs_size opts)" using ov by linarith
    show ?thesis
    proof (cases "s + int (cs_size opts) < int (length txt)")
      case True
      then show ?thesis
        using split_progress [OF ov' True] step by (simp add: chunk_loop_unfold [OF \<open>s < int (length txt)\<close>])
    next
      case False
      then have e: "?e = int (length txt)" by (intro chunk_end_last) simp
      have "js_trim (js_substring txt s ?e) \<noteq> []"
        unfolding e using final_chunk_nonempty [OF ne tr less.prems \<open>s < int (length txt)\<close>] .
      then show ?thesis
        using final_progress [of s ?e] step \<open>s < int (length txt)\<close> e
        by (simp add: chunk_loop_unfold [OF \<open>s < int (length txt)\<close>])
    qed
  qed
qed

lemma sorted_wrt_less_snoc:
  assumes "sorted_wrt (<) xs" "xs \<noteq> [] \<longrightarrow> last xs < (a::int)"
  shows "sorted_wrt (<) (xs @ [a])"
proof -
  have "\<forall>x\<in>set xs. x < a"
  proof
    fix x assume x: "x \<in> set xs"
    then obtain ys zs where "xs = ys @ x # zs" by (meson split_list)
    with assms(1) have "x = last xs \<or> x < last xs" by (cases zs rule: rev_cases) (auto simp: sorted_wrt_append)
    then show "x < a" using assms(2) x by auto
  qed
  then show ?thesis using assms(1) by (simp add: sorted_wrt_append)
qed

lemma next_start_le: "next_start opts e cs \<le> e"
  using next_start_cases [of opts e cs] by auto

lemma loop_inv_push:
  assumes inv: "loop_inv opts txt s i cs" and sl: "s < int (length txt)"
    and ne: "js_trim (js_substring txt s (chunk_end opts txt s)) \<noteq> []"
  defines "c \<equiv> \<lparr>ch_text = js_trim (js_substring txt s (chunk_end opts txt s)), ch_index = i, ch_start = s,
                  ch_end = chunk_end opts txt s, ch_metadata = None\<rparr>"
  shows "loop_inv opts txt (next_start opts (chunk_end opts txt s) (cs @ [c])) (Suc i) (cs @ [c])"
proof -
  let ?e = "chunk_end opts txt s"
  have b: "s \<le> ?e" "?e \<le> s + int (cs_size opts) + int (max_sep_len (cs_separators opts))"
    using chunk_end_bounds [OF sl] by auto
  have "?e \<noteq> s" using ne by (auto simp: js_substring_empty)
  with b have se: "s < ?e" by simp
  have ok: "chunk_ok opts txt c" using ne b se by (simp add: chunk_ok_def c_def)
  have nxt: "s < next_start opts ?e (cs @ [c])" using final_progress [OF se] by (simp add: c_def)
  have cov: "covers txt (cs @ [c]) (next_start opts ?e (cs @ [c]))"
    unfolding covers_def
  proof (intro allI impI)
    fix p assume p: "0 \<le> p \<and> p < next_start opts ?e (cs @ [c]) \<and> p < int (length txt) \<and> \<not> js_space (txt ! nat p)"
    show "\<exists>c'\<in>set (cs @ [c]). ch_start c' \<le> p \<and> p < ch_end c'"
    proof (cases "p < s")
      case True
      with inv p show ?thesis by (auto simp: loop_inv_def covers_def)
    next
      case False
      have "p < ?e" using p next_start_le [of opts ?e "cs @ [c]"] by linarith
      with False show ?thesis by (auto simp: c_def)
    qed
  qed
  show ?thesis
    using inv ok nxt cov sorted_wrt_less_snoc [of "map ch_start cs" s]
    by (auto simp: loop_inv_def c_def last_map)
qed

lemma loop_inv_skip:
  assumes inv: "loop_inv opts txt s i cs" and sl: "s < int (length txt)"
    and em: "js_trim (js_substring txt s (chunk_end opts txt s)) = []"
  shows "loop_inv opts txt (next_start opts (chunk_end opts txt s) cs) i cs"
proof -
  let ?e = "chunk_end opts txt s"
  let ?n = "next_start opts ?e cs"
  have se: "s \<le> ?e" using chunk_end_bounds [OF sl] by auto
  have last: "cs \<noteq> [] \<longrightarrow> ch_start (last cs) < ?n"
  proof
    assume "cs \<noteq> []"
    then have "ch_start (last cs) < s" using inv by (simp add: loop_inv_def)
    then show "ch_start (last cs) < ?n" using se \<open>cs \<noteq> []\<close> by (auto simp: next_start_def Let_def)
  qed
  have cov: "covers txt cs ?n"
    unfolding covers_def
  proof (intro allI impI)
    fix p assume p: "0 \<le> p \<and> p < ?n \<and> p < int (length txt) \<and> \<not> js_space (txt ! nat p)"
    show "\<exists>c\<in>set cs. ch_start c \<le> p \<and> p < ch_end c"
    proof (cases "p < s")
      case True
      with inv p show ?thesis by (auto simp: loop_inv_def covers_def)
    next
      case False
      have "p < ?e" using p next_start_le [of opts ?e cs] by linarith
      then have "txt ! nat p \<in> set (js_substring txt s ?e)" using False p by (intro js_substring_mem) auto
      then have "js_space (txt ! nat p)" using em by (auto simp: js_trim_Nil_iff)
      with p show ?thesis by blast
    qed
  qed
  show ?thesis using inv last cov by (simp add: loop_inv_def)
qed

lemma chunk_loop_inv:
  assumes "chunk_loop opts txt s i cs = Some r"
  shows "loop_inv opts txt s i cs \<longrightarrow> (\<exists>s'. int (length txt) \<le> s' \<and> loop_inv opts txt s' (length r) r)"
proof (rule chunk_loop.raw_induct [where P = "\<lambda>opts w s i cs r. loop_inv opts w s i cs \<longrightarrow>
          (\<exists>s'. int (length w) \<le> s' \<and> loop_inv opts w s' (length r) r)", OF _ assms])
  fix f :: "chunk_opts \<Rightarrow> string \<Rightarrow> int \<Rightarrow> nat \<Rightarrow> chunk list \<Rightarrow> chunk list option"
  fix opts w s i cs r
  assume IH: "\<And>opts w s i cs r. f opts w s i cs = Some r \<Longrightarrow>
              loop_inv opts w s i cs \<longrightarrow> (\<exists>s'. int (length w) \<le> s' \<and> loop_inv opts w s' (length r) r)"
    and eq: "(if s < int (length w) then
        (let endPos = chunk_end opts w s;
             chunkText = js_trim (js_substring w s endPos)
         in if 0 < length chunkText then
              (let chunks' = cs @ [\<lparr>ch_text = chunkText, ch_index = i, ch_start = s,
                                         ch_end = endPos, ch_metadata = None\<rparr>]
               in f opts w (next_start opts endPos chunks') (Suc i) chunks')
            else f opts w (next_start opts endPos cs) i cs)
      else Some cs) = Some r"
  show "loop_inv opts w s i cs \<longrightarrow> (\<exists>s'. int (length w) \<le> s' \<and> loop_inv opts w s' (length r) r)"
  proof
    assume inv: "loop_inv opts w s i cs"
    show "\<exists>s'. int (length w) \<le> s' \<and> loop_inv opts w s' (length r) r"
    proof (cases "s < int (length w)")
      case False
      then have "r = cs" using eq by simp
      then show ?thesis using False inv by (intro exI [of _ s]) (simp add: loop_inv_def)
    next
      case True
      let ?e = "chunk_end opts w s"
      let ?t = "js_trim (js_substring w s ?e)"
      let ?c = "\<lparr>ch_text = ?t, ch_index = i, ch_start = s, ch_end = ?e, ch_metadata = None\<rparr>"
      show ?thesis
      proof (cases "?t = []")
        case True
        then have "f opts w (next_start opts ?e cs) i cs = Some r"
          using eq \<open>s < int (length w)\<close> by (simp add: Let_def)
        moreover have "loop_inv opts w (next_start opts ?e cs) i cs"
          using loop_inv_skip [OF inv \<open>s < int (length w)\<close> True] .
        ultimately show ?thesis using IH by blast
      next
        case False
        then have "f opts w (next_start opts ?e (cs @ [?c])) (Suc i) (cs @ [?c]) = Some r"
          using eq \<open>s < int (length w)\<close> by (simp add: Let_def)
        moreover have "loop_inv opts w (next_start opts ?e (cs @ [?c])) (Suc i) (cs @ [?c])"
          using loop_inv_push [OF inv \<open>s < int (length w)\<close> False] .
        ultimately show ?thesis using IH by blast
      qed
    qed
  qed
qed

lemma loop_inv_init: "loop_inv opts txt 0 0 []"
  by (simp add: loop_inv_def covers_def)

lemma clean_text_trimmed:
  "\<not> cs_preserve opts \<Longrightarrow> clean_text opts text \<noteq> [] \<Longrightarrow> \<not> js_space (last (clean_text opts text))"
  by (simp add: clean_text_def normalize_ws_def js_trim_ends)

lemma chunkText_loop:
  "chunkText text options = Some cs \<Longrightarrow>
     \<exists>s'. int (length (clean_text (resolve_chunking options) text)) \<le> s' \<and>
         loop_inv (resolve_chunking options) (clean_text (resolve_chunking options) text) s' (length cs) cs"
  using chunk_loop_inv [of "resolve_chunking options" "clean_text (resolve_chunking options) text" 0 0 "[]" cs]
    loop_inv_init
  by (cases "clean_text (resolve_chunking options) text = []")
     (auto simp: chunkText_def Let_def loop_inv_def covers_def)

lemma js_substring_all: "js_substring txt 0 (int (length txt)) = txt"
  by (simp add: js_substring_def Let_def)

lemma js_substring_suffix:
  "0 \<le> a \<Longrightarrow> js_substring txt a (int (length txt)) = drop (nat a) txt"
  by (simp add: js_substring_def Let_def min_def)

lemma chunk_loop_stuck:
  assumes sl: "s < int (length txt)" and em: "js_trim (js_substring txt s (chunk_end opts txt s)) = []"
    and ns: "next_start opts (chunk_end opts txt s) cs = s"
  shows "chunk_loop opts txt s i cs = None"
proof (rule ccontr)
  assume "chunk_loop opts txt s i cs \<noteq> None"
  then obtain r where r: "chunk_loop opts txt s i cs = Some r" by blast
  have "\<not> (opts = opts \<and> txt = txt \<and> s = s \<and> i = i \<and> cs = cs)"
  proof (rule chunk_loop.raw_induct [where P = "\<lambda>oo w s' i' cs' r. \<not> (oo = opts \<and> w = txt \<and> s' = s \<and> i' = i \<and> cs' = cs)", OF _ r])
    fix f :: "chunk_opts \<Rightarrow> string \<Rightarrow> int \<Rightarrow> nat \<Rightarrow> chunk list \<Rightarrow> chunk list option"
    fix oo w s' i' cs' r'
    assume IH: "\<And>oo w s' i' cs' r'. f oo w s' i' cs' = Some r' \<Longrightarrow> \<not> (oo = opts \<and> w = txt \<and> s' = s \<and> i' = i \<and> cs' = cs)"
      and eq: "(if s' < int (length w) then
        (let endPos = chunk_end oo w s';
             chunkText = js_trim (js_substring w s' endPos)
         in if 0 < length chunkText then
              (let chunks' = cs' @ [\<lparr>ch_text = chunkText, ch_index = i', ch_start = s',
                                         ch_end = endPos, ch_metadata = None\<rparr>]
               in f oo w (next_start oo endPos chunks') (Suc i') chunks')
            else f oo w (next_start oo endPos cs') i' cs')
      else Some cs') = Some r'"
    show "\<not> (oo = opts \<and> w = txt \<and> s' = s \<and> i' = i \<and> cs' = cs)"
    proof
      assume same: "oo = opts \<and> w = txt \<and> s' = s \<and> i' = i \<and> cs' = cs"
      then have "f opts txt s i cs = Some r'" using eq sl em ns by (simp add: Let_def)
      then show False using IH by blast
    qed
  qed
  then show False by simp
qed

lemma dropWhile_replicate_append: "P a \<Longrightarrow> dropWhile P (replicate n a @ ys) = dropWhile P ys"
  by (induction n) auto

lemma js_trim_spaces_after:
  "\<not> js_space x \<Longrightarrow> js_trim (x # replicate n (CHR '' '')) = [x]"
  by (simp add: js_trim_def dropWhile_replicate_append js_space_def)

lemma js_trim_spaces: "js_trim (replicate n (CHR '' '')) = []"
  by (simp add: js_trim_Nil_iff js_space_def)

lemma demo_split_chunks:
  "chunkText ''abcd. ef'' split_opts =
     Some [\<lparr>ch_text = ''abcd.'', ch_index = 0, ch_start = 0, ch_end = 6, ch_metadata = None\<rparr>,
           \<lparr>ch_text = ''ef'', ch_index = 1, ch_start = 6, ch_end = 8, ch_metadata = None\<rparr>]"
  unfolding split_opts_def by code_simp

lemma normalize_hello: "normalize_ws ''hello'' = ''hello''"
  by (simp add: normalize_ws_def space_or_tab_def js_trim_def js_space_def)

lemma chunkText_total:
  assumes "\<not> cs_preserve (resolve_chunking options)"
    and "cs_overlap (resolve_chunking options) + 200 < cs_size (resolve_chunking options)"
  shows "\<exists>cs. chunkText text options = Some cs"
proof (cases "clean_text (resolve_chunking options) text = []")
  case True
  then show ?thesis by (simp add: chunkText_def Let_def)
next
  case False
  then show ?thesis
    using chunk_loop_terminates [OF assms(2) False clean_text_trimmed [OF assms(1) False], of 0 0 "[]"]
    by (simp add: chunkText_def Let_def)
qed

section \<open>Properties of the chunker\<close>

text \<open>C6: \<open>chunkText\<close> terminates on every text when white space is normalised and
  \<open>chunkSize > chunkOverlap + 200\<close> (the defaults 1000 and 200 qualify): each iteration moves the
  cursor strictly forward, since a cut is never before \<open>end - 200\<close>, and the last chunk is never
  blank because the normalised text is trimmed.\<close>

theorem chunkText_terminates:
  assumes "\<not> cs_preserve (resolve_chunking options)"
    and "cs_overlap (resolve_chunking options) + 200 < cs_size (resolve_chunking options)"
  shows "\<exists>cs. chunkText text options = Some cs"
  using assms by (rule chunkText_total)

theorem chunkText_terminates_witness:
  "\<not> cs_preserve (resolve_chunking no_chunking_options) \<and>
   cs_overlap (resolve_chunking no_chunking_options) + 200 < cs_size (resolve_chunking no_chunking_options) \<and>
   (\<exists>cs. chunkText ''Our tone is friendly and direct.'' no_chunking_options = Some cs)"
  using chunkText_terminates [of no_chunking_options "''Our tone is friendly and direct.''"]
  by (simp add: resolve_chunking_def no_chunking_options_def)

text \<open>C7: every result of \<open>chunkText\<close> is well formed: indices are 0, 1, 2, ... in order, start
  positions strictly increase, and every chunk is non-empty, trimmed, and the trimmed text of its
  span of the cleaned text.\<close>

theorem chunkText_chunks_wf:
  assumes "chunkText text options = Some cs"
  shows "map ch_index cs = [0..<length cs] \<and> sorted_wrt (<) (map ch_start cs) \<and>
    (\<forall>c\<in>set cs. ch_text c \<noteq> [] \<and> js_trim (ch_text c) = ch_text c \<and>
       ch_text c = js_trim (js_substring (clean_text (resolve_chunking options) text) (ch_start c) (ch_end c)))"
proof -
  obtain s' where "loop_inv (resolve_chunking options) (clean_text (resolve_chunking options) text) s' (length cs) cs"
    using chunkText_loop [OF assms] by blast
  then show ?thesis by (auto simp: loop_inv_def chunk_ok_def)
qed

theorem chunkText_chunks_wf_witness:
  "map ch_index [\<lparr>ch_text = ''abcd.'', ch_index = 0, ch_start = 0, ch_end = 6, ch_metadata = None\<rparr>,
                 \<lparr>ch_text = ''ef'', ch_index = 1, ch_start = 6, ch_end = 8, ch_metadata = None\<rparr>] = [0..<2] \<and>
   sorted_wrt (<) (map ch_start [\<lparr>ch_text = ''abcd.'', ch_index = 0, ch_start = 0, ch_end = 6, ch_metadata = None\<rparr>,
                 \<lparr>ch_text = ''ef'', ch_index = 1, ch_start = 6, ch_end = 8, ch_metadata = None\<rparr>])"
  using chunkText_chunks_wf [OF demo_split_chunks] by (simp add: numeral_2_eq_2)

text \<open>the chunks cover the text: every non-white-space character of the cleaned text lies in
  the span \<open>[startPosition, endPosition)\<close> of some chunk.\<close>

theorem chunkText_covers:
  assumes "chunkText text options = Some cs" "0 \<le> p" "p < int (length (clean_text (resolve_chunking options) text))"
    "\<not> js_space (clean_text (resolve_chunking options) text ! nat p)"
  shows "\<exists>c\<in>set cs. ch_start c \<le> p \<and> p < ch_end c"
proof -
  obtain s' where "int (length (clean_text (resolve_chunking options) text)) \<le> s'"
     "loop_inv (resolve_chunking options) (clean_text (resolve_chunking options) text) s' (length cs) cs"
    using chunkText_loop [OF assms(1)] by blast
  then show ?thesis using assms(2-4) by (auto simp: loop_inv_def covers_def)
qed

theorem chunkText_covers_witness:
  "0 \<le> (0::int) \<and> 0 < int (length (clean_text (resolve_chunking split_opts) ''abcd. ef'')) \<and>
   \<not> js_space (clean_text (resolve_chunking split_opts) ''abcd. ef'' ! nat 0) \<and>
   (\<exists>c. c \<in> set [\<lparr>ch_text = ''abcd.'', ch_index = 0, ch_start = 0, ch_end = 6, ch_metadata = None\<rparr>,
                 \<lparr>ch_text = ''ef'', ch_index = 1, ch_start = 6, ch_end = 8, ch_metadata = None\<rparr>] \<and>
       ch_start c \<le> 0 \<and> 0 < ch_end c)"
proof -
  have cl: "clean_text (resolve_chunking split_opts) ''abcd. ef'' = ''abcd. ef''"
    by (simp add: clean_text_def resolve_chunking_def split_opts_def normalize_ws_def space_or_tab_def
        js_trim_def js_space_def)
  have a: "\<not> js_space (clean_text (resolve_chunking split_opts) ''abcd. ef'' ! nat 0)"
    by (simp add: cl js_space_def)
  have l: "0 < int (length (clean_text (resolve_chunking split_opts) ''abcd. ef''))" by (simp add: cl)
  have "\<exists>c\<in>set [\<lparr>ch_text = ''abcd.'', ch_index = 0, ch_start = 0, ch_end = 6, ch_metadata = None\<rparr>,
                 \<lparr>ch_text = ''ef'', ch_index = 1, ch_start = 6, ch_end = 8, ch_metadata = None\<rparr>].
       ch_start c \<le> 0 \<and> 0 < ch_end c"
    by (rule chunkText_covers [OF demo_split_chunks _ l a]) simp
  then show ?thesis using a l by blast
qed

text \<open>C9: a chunk's text is at most \<open>chunkSize\<close> plus the length of the longest separator, and
  that much is reached: a cut just after a separator that starts at \<open>start + chunkSize\<close> makes a
  chunk longer than \<open>chunkSize\<close> (with size 4, \<open>abcd. ef\<close> gives the 5-character chunk
  \<open>abcd.\<close>).\<close>

theorem chunkText_length_bound:
  assumes "chunkText text options = Some cs" "c \<in> set cs"
  shows "length (ch_text c) \<le> cs_size (resolve_chunking options) + max_sep_len (cs_separators (resolve_chunking options))"
proof -
  let ?o = "resolve_chunking options" and ?w = "clean_text (resolve_chunking options) text"
  obtain s' where "loop_inv ?o ?w s' (length cs) cs" using chunkText_loop [OF assms(1)] by blast
  then have ok: "chunk_ok ?o ?w c" using assms(2) by (simp add: loop_inv_def)
  then have "int (length (js_substring ?w (ch_start c) (ch_end c))) \<le> ch_end c - ch_start c"
    by (intro js_substring_length) (simp add: chunk_ok_def)
  moreover have "length (ch_text c) \<le> length (js_substring ?w (ch_start c) (ch_end c))"
    using ok js_trim_length by (metis chunk_ok_def)
  ultimately show ?thesis using ok unfolding chunk_ok_def by linarith
qed

theorem chunkText_length_bound_witness:
  "length (ch_text \<lparr>ch_text = ''abcd.'', ch_index = 0, ch_start = 0, ch_end = 6, ch_metadata = None\<rparr>) = 5 \<and>
   cs_size (resolve_chunking split_opts) = 4 \<and>
   length (ch_text \<lparr>ch_text = ''abcd.'', ch_index = 0, ch_start = 0, ch_end = 6, ch_metadata = None\<rparr>) \<le>
     cs_size (resolve_chunking split_opts) + max_sep_len (cs_separators (resolve_chunking split_opts))"
  using chunkText_length_bound [OF demo_split_chunks, of "\<lparr>ch_text = ''abcd.'', ch_index = 0, ch_start = 0, ch_end = 6, ch_metadata = None\<rparr>"]
  by (simp add: resolve_chunking_def split_opts_def)

text \<open>a cleaned text longer than the overlap but no longer than \<open>chunkSize\<close> gives two
  chunks, the whole text and again its last \<open>chunkOverlap\<close> characters: after the last chunk the
  cursor steps back by the overlap and the progress guard does not stop it. So the number of
  iterations exceeds \<open>ceil(length / (size - overlap))\<close>.\<close>

theorem chunkText_short_text:
  assumes np: "\<not> cs_preserve (resolve_chunking options)"
    and ov: "0 < cs_overlap (resolve_chunking options)"
    and lo: "cs_overlap (resolve_chunking options) < length (normalize_ws text)"
    and hi: "length (normalize_ws text) \<le> cs_size (resolve_chunking options)"
  shows "chunkText text options =
    Some [\<lparr>ch_text = normalize_ws text, ch_index = 0, ch_start = 0, ch_end = int (length (normalize_ws text)),
            ch_metadata = None\<rparr>,
          \<lparr>ch_text = js_trim (drop (length (normalize_ws text) - cs_overlap (resolve_chunking options)) (normalize_ws text)),
            ch_index = 1, ch_start = int (length (normalize_ws text)) - int (cs_overlap (resolve_chunking options)),
            ch_end = int (length (normalize_ws text)), ch_metadata = None\<rparr>]"
proof -
  let ?o = "resolve_chunking options" and ?w = "normalize_ws text"
  let ?n = "length ?w" and ?v = "cs_overlap (resolve_chunking options)"
  let ?s1 = "int ?n - int ?v"
  let ?c0 = "\<lparr>ch_text = ?w, ch_index = 0, ch_start = 0, ch_end = int ?n, ch_metadata = None\<rparr>"
  let ?t1 = "js_trim (drop (?n - ?v) ?w)"
  let ?c1 = "\<lparr>ch_text = ?t1, ch_index = 1, ch_start = ?s1, ch_end = int ?n, ch_metadata = None\<rparr>"
  have cl: "clean_text ?o text = ?w" using np by (simp add: clean_text_def)
  have ne: "?w \<noteq> []" using lo by auto
  have tr: "\<not> js_space (last ?w)" using clean_text_trimmed [OF np] cl ne by metis
  have w_trim: "js_trim ?w = ?w" by (simp add: normalize_ws_def)
  have e0: "chunk_end ?o ?w 0 = int ?n" using hi by (intro chunk_end_last) simp
  have s1: "?s1 < int ?n" "0 \<le> ?s1" "nat ?s1 = ?n - ?v" using lo ov by auto
  have e1: "chunk_end ?o ?w ?s1 = int ?n" using hi lo by (intro chunk_end_last) simp
  have sub1: "js_substring ?w ?s1 (int ?n) = drop (?n - ?v) ?w"
    using js_substring_suffix [OF s1(2)] s1(3) by simp
  have t1: "?t1 \<noteq> []"
    using final_chunk_nonempty [OF ne tr s1(2) s1(1)] sub1 by simp
  have step0: "chunk_loop ?o ?w 0 0 [] = chunk_loop ?o ?w ?s1 1 [?c0]"
    using ne lo by (simp add: chunk_loop_unfold e0 js_substring_all w_trim next_start_def Let_def)
  have step1: "chunk_loop ?o ?w ?s1 1 [?c0] = chunk_loop ?o ?w (int ?n) 2 [?c0, ?c1]"
    using s1 t1 by (subst chunk_loop_unfold [OF s1(1)]) (simp add: e1 sub1 next_start_def Let_def numeral_2_eq_2)
  have "chunk_loop ?o ?w (int ?n) 2 [?c0, ?c1] = Some [?c0, ?c1]" by (simp add: chunk_loop_exit)
  then show ?thesis using step0 step1 ne cl by (simp add: chunkText_def Let_def)
qed

theorem chunkText_short_text_witness:
  "chunkText ''hello'' small_opts =
     Some [\<lparr>ch_text = ''hello'', ch_index = 0, ch_start = 0, ch_end = 5, ch_metadata = None\<rparr>,
           \<lparr>ch_text = ''lo'', ch_index = 1, ch_start = 3, ch_end = 5, ch_metadata = None\<rparr>]"
  using chunkText_short_text [of small_opts "''hello''"]
  by (simp add: normalize_hello resolve_chunking_def small_opts_def js_trim_def js_space_def)

text \<open>C8: with \<open>preserveWhitespace: true\<close> \<open>chunkText\<close> can run forever: on a character
  followed by at least \<open>chunkOverlap\<close> (and fewer than \<open>chunkSize\<close>) spaces, the tail chunk is blank,
  nothing is pushed, and the cursor returns to the same place.\<close>

theorem chunkText_preserve_diverges:
  assumes pr: "cs_preserve (resolve_chunking options)"
    and ov: "0 < cs_overlap (resolve_chunking options)" "cs_overlap (resolve_chunking options) \<le> n"
    and sz: "n < cs_size (resolve_chunking options)"
    and x: "\<not> js_space x"
  shows "chunkText (x # replicate n (CHR '' '')) options = None"
proof -
  let ?o = "resolve_chunking options" and ?w = "x # replicate n (CHR '' '')"
  let ?v = "cs_overlap (resolve_chunking options)"
  let ?s1 = "int (Suc n) - int ?v"
  let ?c0 = "\<lparr>ch_text = [x], ch_index = 0, ch_start = 0, ch_end = int (Suc n), ch_metadata = None\<rparr>"
  have cl: "clean_text ?o ?w = ?w" using pr by (simp add: clean_text_def)
  have e0: "chunk_end ?o ?w 0 = int (Suc n)" using chunk_end_last [of ?w 0 ?o] sz by simp
  have s1: "?s1 < int (length ?w)" "1 \<le> ?s1" using ov by auto
  have e1: "chunk_end ?o ?w ?s1 = int (Suc n)" using chunk_end_last [of ?w ?s1 ?o] sz ov by simp
  have step0: "chunk_loop ?o ?w 0 0 [] = chunk_loop ?o ?w ?s1 1 [?c0]"
    using ov x by (simp add: chunk_loop_unfold e0 js_substring_def Let_def js_trim_spaces_after next_start_def)
  have "js_substring ?w ?s1 (int (Suc n)) = drop (nat ?s1) ?w"
    using js_substring_suffix [of ?s1 ?w] s1 by simp
  also have "\<dots> = replicate (Suc n - nat ?s1) (CHR '' '')" using s1 by (cases "nat ?s1") auto
  finally have sub: "js_substring ?w ?s1 (int (Suc n)) = replicate (Suc n - nat ?s1) (CHR '' '')" .
  have em: "js_trim (js_substring ?w ?s1 (chunk_end ?o ?w ?s1)) = []"
    unfolding e1 by (simp only: sub js_trim_spaces)
  have ns: "next_start ?o (chunk_end ?o ?w ?s1) [?c0] = ?s1" unfolding e1 using ov by (simp add: next_start_def Let_def)
  have "chunk_loop ?o ?w ?s1 1 [?c0] = None" by (rule chunk_loop_stuck [OF s1(1) em ns])
  then show ?thesis using step0 cl by (simp add: chunkText_def Let_def)
qed

theorem chunkText_preserve_diverges_witness:
  "chunkText (CHR ''x'' # replicate 5 (CHR '' '')) preserve_opts = None"
  using chunkText_preserve_diverges [of preserve_opts 5 "CHR ''x''"]
  by (simp add: resolve_chunking_def preserve_opts_def js_space_def)

end
