(* ===== verification/Embeddings.thy ===== *)
theory Embeddings
  imports Prelude
begin

text \<open>
  The embedding generator, \<open>src/lib/ai/embeddings.ts\<close>: the embedding models, the
  single-text call \<open>generateEmbedding\<close>, the batching loop \<open>generateEmbeddingsBatch\<close>
  (a \<^theory_text>\<open>partial_function (option)\<close>: with \<open>batchSize = 0\<close> the loop may never end),
  \<open>cosineSimilarity\<close>, \<open>findMostSimilar\<close> and \<open>normalizeEmbedding\<close>.
  The OpenAI client is a parameter, the \<open>provider\<close>: for a model and a list of inputs it
  either rejects the request (network, authentication, rate limit: the message) or returns
  the vectors of \<open>response.data\<close> and \<open>response.usage.total_tokens\<close>.
\<close>

section \<open>Data\<close>

datatype embedding_model = Small | Large | Ada

fun model_name :: "embedding_model \<Rightarrow> string" where
  "model_name Small = ''text-embedding-3-small''"
| "model_name Large = ''text-embedding-3-large''"
| "model_name Ada = ''text-embedding-ada-002''"

definition DEFAULT_MODEL :: embedding_model where
  "DEFAULT_MODEL = Small"

record embedding_result =
  er_embedding :: vec
  er_text :: "string option"   \<comment> \<open>\<open>batch[index]\<close>: \<open>undefined\<close> past the end of the batch\<close>
  er_model :: embedding_model
  er_dimensions :: nat

record batch_embedding_result =
  be_embeddings :: "embedding_result list"
  be_total_tokens :: nat
  be_model :: embedding_model

type_synonym provider = "embedding_model \<Rightarrow> string list \<Rightarrow> string + (vec list \<times> nat)"

text \<open>What a successful run observed: the requests sent, in order, and the outcome.\<close>

type_synonym 'a traced = "string list list \<times> (error + 'a)"

section \<open>Single embedding\<close>

text \<open>\<open>generateEmbedding\<close>: one request; an empty \<open>response.data\<close> throws inside the
  \<open>try\<close>, and the \<open>catch\<close> wraps every failure in \<open>Failed to generate embedding\<close>.\<close>

definition generateEmbedding :: "provider \<Rightarrow> string \<Rightarrow> embedding_model \<Rightarrow> error + embedding_result" where
  "generateEmbedding prov text model =
     (case prov model [text] of
        Inl m \<Rightarrow> Inl (EmbeddingFailed m)
      | Inr (vs, _) \<Rightarrow>
          (case vs of
             [] \<Rightarrow> Inl (EmbeddingFailed ''No embedding returned from OpenAI'')
           | v # _ \<Rightarrow> Inr \<lparr>er_embedding = v, er_text = Some text, er_model = model,
                         er_dimensions = length v\<rparr>))"

section \<open>Batch embedding\<close>

text \<open>\<open>response.data.forEach((item, index) => allEmbeddings.push({..., text: batch[index]}))\<close>.\<close>

definition results_of :: "embedding_model \<Rightarrow> string list \<Rightarrow> vec list \<Rightarrow> embedding_result list" where
  "results_of model batch vs =
     map (\<lambda>(k, v). \<lparr>er_embedding = v, er_text = nth_opt batch k, er_model = model,
                    er_dimensions = length v\<rparr>) (enumerate 0 vs)"

record emb_loop =
  el_i :: nat
  el_acc :: "embedding_result list"
  el_tokens :: nat
  el_calls :: "string list list"

text \<open>The \<open>for\<close> loop of \<open>generateEmbeddingsBatch\<close>, one iteration per unfolding: a
  rejected batch is rethrown at once (no partial result, no retry).\<close>

partial_function (option) embed_loop ::
  "provider \<Rightarrow> embedding_model \<Rightarrow> nat \<Rightarrow> string list \<Rightarrow> emb_loop \<Rightarrow> batch_embedding_result traced option"
where
  "embed_loop prov model bs texts st =
     (if el_i st < length texts then
        (let batch = substr texts (el_i st) (el_i st + bs);
             calls = el_calls st @ [batch]
         in case prov model batch of
              Inl m \<Rightarrow> Some (calls, Inl (ProviderFailed m))
            | Inr (vs, tok) \<Rightarrow>
                embed_loop prov model bs texts
                  \<lparr>el_i = el_i st + bs, el_acc = el_acc st @ results_of model batch vs,
                   el_tokens = el_tokens st + tok, el_calls = calls\<rparr>)
      else Some (el_calls st, Inr \<lparr>be_embeddings = el_acc st, be_total_tokens = el_tokens st,
                                   be_model = model\<rparr>))"

declare embed_loop.simps [code]

definition generateEmbeddingsBatch ::
  "provider \<Rightarrow> string list \<Rightarrow> embedding_model \<Rightarrow> nat \<Rightarrow> batch_embedding_result traced option"
where
  "generateEmbeddingsBatch prov texts model bs =
     embed_loop prov model bs texts \<lparr>el_i = 0, el_acc = [], el_tokens = 0, el_calls = []\<rparr>"

text \<open>The reference: the same requests as a structural recursion over the batches.\<close>

fun embed_batches ::
  "provider \<Rightarrow> embedding_model \<Rightarrow> string list list \<Rightarrow> embedding_result list \<Rightarrow> nat \<Rightarrow>
   string list list \<Rightarrow> batch_embedding_result traced"
where
  "embed_batches prov model [] acc tok calls =
     (calls, Inr \<lparr>be_embeddings = acc, be_total_tokens = tok, be_model = model\<rparr>)"
| "embed_batches prov model (b # bss) acc tok calls =
     (case prov model b of
        Inl m \<Rightarrow> (calls @ [b], Inl (ProviderFailed m))
      | Inr (vs, t) \<Rightarrow> embed_batches prov model bss (acc @ results_of model b vs) (tok + t) (calls @ [b]))"

text \<open>The result a provider that embeds each text \<open>t\<close> as \<open>f t\<close> yields for \<open>t\<close>.\<close>

definition emb_of :: "embedding_model \<Rightarrow> (string \<Rightarrow> vec) \<Rightarrow> string \<Rightarrow> embedding_result" where
  "emb_of model f t = \<lparr>er_embedding = f t, er_text = Some t, er_model = model, er_dimensions = length (f t)\<rparr>"

section \<open>Cosine similarity\<close>

text \<open>The accumulation loop shared by both copies of \<open>cosineSimilarity\<close> (this file and
  \<open>src/lib/db/queries/brand-voice.ts\<close>), run once the lengths agree.\<close>

definition dot_mags :: "vec \<Rightarrow> vec \<Rightarrow> real \<times> real \<times> real" where
  "dot_mags a b =
     fold (\<lambda>(x, y) (d, ma, mb). (d + x * y, ma + x * x, mb + y * y)) (zip a b) (0, 0, 0)"

definition cos_core :: "vec \<Rightarrow> vec \<Rightarrow> real" where
  "cos_core a b =
     (let (d, ma, mb) = dot_mags a b; na = sqrt ma; nb = sqrt mb
      in if na = 0 \<or> nb = 0 then 0 else d / (na * nb))"

definition cosineSimilarity :: "vec \<Rightarrow> vec \<Rightarrow> error + real" where
  "cosineSimilarity a b = (if length a \<noteq> length b then Inl DimensionMismatch else Inr (cos_core a b))"

section \<open>Ranking and normalisation\<close>

definition findMostSimilar :: "vec \<Rightarrow> vec list \<Rightarrow> nat \<Rightarrow> error + (nat \<times> real) list" where
  "findMostSimilar q embs topK =
     (case map_throw (\<lambda>(i, e). map_sum id (Pair i) (cosineSimilarity q e)) (enumerate 0 embs) of
        Inl e \<Rightarrow> Inl e
      | Inr sims \<Rightarrow> Inr (take topK (rank_desc snd sims)))"

definition normalizeEmbedding :: "vec \<Rightarrow> vec" where
  "normalizeEmbedding v =
     (let magnitude = sqrt (fold (\<lambda>x s. s + x * x) v 0)
      in if magnitude = 0 then v else map (\<lambda>x. x / magnitude) v)"

section \<open>The batching loop: termination, equivalence, divergence\<close>

lemma embed_loop_unfold_step:
  assumes "i < length texts"
  shows "embed_loop prov model bs texts \<lparr>el_i = i, el_acc = acc, el_tokens = tok, el_calls = cs\<rparr> =
    (case prov model (take bs (drop i texts)) of
       Inl m \<Rightarrow> Some (cs @ [take bs (drop i texts)], Inl (ProviderFailed m))
     | Inr (vs, t) \<Rightarrow> embed_loop prov model bs texts
         \<lparr>el_i = i + bs, el_acc = acc @ results_of model (take bs (drop i texts)) vs,
          el_tokens = tok + t, el_calls = cs @ [take bs (drop i texts)]\<rparr>)"
  by (subst embed_loop.simps) (simp add: assms substr_def Let_def split: sum.split)

lemma embed_loop_batches:
  assumes "0 < bs"
  shows "embed_loop prov model bs texts \<lparr>el_i = i, el_acc = acc, el_tokens = tok, el_calls = cs\<rparr> =
           Some (embed_batches prov model (batches_from bs i texts) acc tok cs)"
  using assms
proof (induction bs i texts arbitrary: acc tok cs rule: batches_from.induct)
  case (1 bs i texts)
  show ?case
  proof (cases "i < length texts")
    case True
    note step = embed_loop_unfold_step [OF True] batches_from_step [OF "1.prems" True]
    show ?thesis
    proof (cases "prov model (take bs (drop i texts))")
      case (Inl m)
      then show ?thesis by (simp add: step)
    next
      case (Inr r)
      then show ?thesis using "1.IH" [OF _ "1.prems"] True "1.prems"
        by (cases r) (simp add: step)
    qed
  next
    case False
    then show ?thesis
      by (subst embed_loop.simps) (simp add: batches_from_done)
  qed
qed

lemma results_of_map: "results_of model b (map f b) = map (emb_of model f) b"
  by (rule nth_equalityI) (simp_all add: results_of_def enumerate_eq_zip nth_opt_def emb_of_def)

lemma embed_batches_faithful:
  "embed_batches (\<lambda>m b. Inr (map f b, tk b)) model bss acc tok cs =
     (cs @ bss, Inr \<lparr>be_embeddings = acc @ map (emb_of model f) (concat bss),
                     be_total_tokens = tok + sum_list (map tk bss), be_model = model\<rparr>)"
  by (induction bss arbitrary: acc tok cs) (simp_all add: results_of_map add.assoc)

lemma embed_loop_zero_no_progress:
  assumes "embed_loop prov model bs texts st = Some y"
  shows "bs = 0 \<longrightarrow> el_i st < length texts \<longrightarrow> (\<exists>m. prov model [] = Inl m)"
proof (rule embed_loop.raw_induct [where P = "\<lambda>prov model bs texts st y.
          bs = 0 \<longrightarrow> el_i st < length texts \<longrightarrow> (\<exists>m. prov model [] = Inl m)", OF _ assms])
  fix f :: "provider \<Rightarrow> embedding_model \<Rightarrow> nat \<Rightarrow> string list \<Rightarrow> emb_loop \<Rightarrow> batch_embedding_result traced option"
  fix prov model bs texts st y
  assume IH: "\<And>prov model bs texts st y. f prov model bs texts st = Some y \<Longrightarrow>
                 bs = 0 \<longrightarrow> el_i st < length texts \<longrightarrow> (\<exists>m. prov model [] = Inl m)"
    and eq: "(if el_i st < length texts
      then let batch = substr texts (el_i st) (el_i st + bs);
               calls = el_calls st @ [batch]
           in case prov model batch of
              Inl m \<Rightarrow> Some (calls, Inl (ProviderFailed m))
              | Inr (vs, tok) \<Rightarrow>
                  f prov model bs texts
                   \<lparr>el_i = el_i st + bs,
                      el_acc = el_acc st @ results_of model batch vs,
                      el_tokens = el_tokens st + tok, el_calls = calls\<rparr>
      else Some (el_calls st, Inr \<lparr>be_embeddings = el_acc st, be_total_tokens = el_tokens st,
                    be_model = model\<rparr>)) = Some y"
  show "bs = 0 \<longrightarrow> el_i st < length texts \<longrightarrow> (\<exists>m. prov model [] = Inl m)"
  proof (intro impI)
    assume bs: "bs = 0" and i: "el_i st < length texts"
    show "\<exists>m. prov model [] = Inl m"
    proof (cases "prov model []")
      case (Inl m)
      then show ?thesis by blast
    next
      case (Inr r)
      obtain vs t where r: "r = (vs, t)" by fastforce
      from eq bs i Inr r have "f prov model 0 texts
          \<lparr>el_i = el_i st, el_acc = el_acc st @ results_of model [] vs,
           el_tokens = el_tokens st + t, el_calls = el_calls st @ [[]]\<rparr> = Some y"
        by (simp add: substr_def)
      from IH [OF this] i show ?thesis by simp
    qed
  qed
qed

lemma embed_loop_zero_diverges:
  assumes "prov model [] = Inr r" and "el_i st < length texts"
  shows "embed_loop prov model 0 texts st = None"
proof (rule ccontr)
  assume "embed_loop prov model 0 texts st \<noteq> None"
  then obtain y where "embed_loop prov model 0 texts st = Some y" by blast
  from embed_loop_zero_no_progress [OF this] assms show False by simp
qed

section \<open>Cosine similarity: closed forms\<close>

lemma dot_mags_fold:
  "fold (\<lambda>(x, y) (d, ma, mb). (d + x * y, ma + x * x, mb + y * y)) zs (d0, m0, n0) =
     (d0 + (\<Sum>(x, y)\<leftarrow>zs. x * y), m0 + (\<Sum>(x, y)\<leftarrow>zs. x * x), n0 + (\<Sum>(x, y)\<leftarrow>zs. y * y))"
  by (induction zs arbitrary: d0 m0 n0) (auto simp: algebra_simps)

lemma cauchy_schwarz_pairs:
  "(\<Sum>(x, y)\<leftarrow>zs. x * y)\<^sup>2 \<le> (\<Sum>(x, y)\<leftarrow>zs. x * x) * (\<Sum>(x, y)\<leftarrow>zs. y * y :: real)"
proof (induction zs)
  case Nil
  then show ?case by simp
next
  case (Cons p zs)
  obtain x y where p: "p = (x, y)" by fastforce
  define d where "d = (\<Sum>(x, y)\<leftarrow>zs. x * y)"
  define A where "A = (\<Sum>(x, y)\<leftarrow>zs. x * x)"
  define B where "B = (\<Sum>(x, y)\<leftarrow>zs. y * y)"
  have A0: "0 \<le> A" unfolding A_def by (induction zs) auto
  have B0: "0 \<le> B" unfolding B_def by (induction zs) auto
  have IH: "d\<^sup>2 \<le> A * B" using Cons.IH by (simp add: d_def A_def B_def)
  have amgm: "4 * ((x * x * B) * (y * y * A)) \<le> (x * x * B + y * y * A)\<^sup>2"
  proof -
    have "0 \<le> (x * x * B - y * y * A)\<^sup>2" by (rule zero_le_power2)
    moreover have "(x * x * B + y * y * A)\<^sup>2 - 4 * ((x * x * B) * (y * y * A)) = (x * x * B - y * y * A)\<^sup>2"
      by (simp add: power2_eq_square algebra_simps)
    ultimately show ?thesis by linarith
  qed
  have "(2 * x * y * d)\<^sup>2 = 4 * (x * x) * (y * y) * d\<^sup>2"
    by (simp add: power2_eq_square algebra_simps)
  also have "\<dots> \<le> 4 * (x * x) * (y * y) * (A * B)"
  proof (rule mult_left_mono [OF IH])
    show "0 \<le> 4 * (x * x) * (y * y)" by simp
  qed
  also have "\<dots> = 4 * ((x * x * B) * (y * y * A))"
    by (simp add: algebra_simps)
  also have "\<dots> \<le> (x * x * B + y * y * A)\<^sup>2"
    by (rule amgm)
  finally have sq: "(2 * x * y * d)\<^sup>2 \<le> (x * x * B + y * y * A)\<^sup>2" .
  have "0 \<le> x * x * B" using B0 by simp
  moreover have "0 \<le> y * y * A" using A0 by simp
  ultimately have "0 \<le> x * x * B + y * y * A" by linarith
  with sq have "2 * x * y * d \<le> x * x * B + y * y * A"
    by (rule power2_le_imp_le)
  moreover have "(x * y + d)\<^sup>2 = x * x * (y * y) + 2 * x * y * d + d\<^sup>2"
    by (simp add: power2_eq_square algebra_simps)
  moreover have "(x * x + A) * (y * y + B) = x * x * (y * y) + (x * x * B + y * y * A) + A * B"
    by (simp add: algebra_simps)
  ultimately have "(x * y + d)\<^sup>2 \<le> (x * x + A) * (y * y + B)"
    using IH by linarith
  then show ?case by (simp add: p d_def A_def B_def)
qed

lemma dot_mags_sums:
  "dot_mags a b = ((\<Sum>(x, y)\<leftarrow>zip a b. x * y), (\<Sum>(x, y)\<leftarrow>zip a b. x * x), (\<Sum>(x, y)\<leftarrow>zip a b. y * y))"
  by (simp add: dot_mags_def dot_mags_fold)

lemma sum_sq_nonneg: "0 \<le> (\<Sum>(x, y)\<leftarrow>zs. f x y * f x y :: real)"
  by (induction zs) auto

lemma abs_dot_le: "\<bar>\<Sum>(x, y)\<leftarrow>zs. x * y\<bar> \<le> sqrt (\<Sum>(x, y)\<leftarrow>zs. x * x) * sqrt (\<Sum>(x, y)\<leftarrow>zs. y * y :: real)"
proof -
  have "sqrt ((\<Sum>(x, y)\<leftarrow>zs. x * y)\<^sup>2) \<le> sqrt ((\<Sum>(x, y)\<leftarrow>zs. x * x) * (\<Sum>(x, y)\<leftarrow>zs. y * y))"
    by (rule real_sqrt_le_mono [OF cauchy_schwarz_pairs])
  then show ?thesis by (simp add: real_sqrt_mult)
qed

lemma cos_core_bounds: "-1 \<le> cos_core a b \<and> cos_core a b \<le> 1"
proof -
  define d where "d = (\<Sum>(x, y)\<leftarrow>zip a b. x * y)"
  define na where "na = sqrt (\<Sum>(x, y)\<leftarrow>zip a b. x * x)"
  define nb where "nb = sqrt (\<Sum>(x, y)\<leftarrow>zip a b. y * y)"
  have cos: "cos_core a b = (if na = 0 \<or> nb = 0 then 0 else d / (na * nb))"
    unfolding cos_core_def dot_mags_sums d_def na_def nb_def Let_def by (simp only: prod.case)
  have le: "\<bar>d\<bar> \<le> na * nb" unfolding d_def na_def nb_def by (rule abs_dot_le)
  have na0: "0 \<le> na" unfolding na_def using sum_sq_nonneg [of "\<lambda>x y. x" "zip a b"] by simp
  have nb0: "0 \<le> nb" unfolding nb_def using sum_sq_nonneg [of "\<lambda>x y. y" "zip a b"] by simp
  show ?thesis
  proof (cases "na = 0 \<or> nb = 0")
    case True
    then show ?thesis by (simp add: cos)
  next
    case False
    with na0 nb0 have "0 < na" "0 < nb" by simp_all
    then have pos: "0 < na * nb" by (rule mult_pos_pos)
    from le have "d \<le> na * nb" "- (na * nb) \<le> d" by linarith+
    with pos have "d / (na * nb) \<le> 1" "-1 \<le> d / (na * nb)"
      by (simp_all add: divide_le_eq le_divide_eq)
    with False show ?thesis by (simp add: cos)
  qed
qed

lemma zip_self_sums:
  "(\<Sum>(x, y)\<leftarrow>zip v v. x * y) = (\<Sum>x\<leftarrow>v. x * x)"
  "(\<Sum>(x, y)\<leftarrow>zip v v. x * x) = (\<Sum>x\<leftarrow>v. x * x)"
  "(\<Sum>(x, y)\<leftarrow>zip v v. y * y) = (\<Sum>x\<leftarrow>v. x * x)"
  by (induction v) auto

lemma zip_neg_sums:
  "(\<Sum>(x, y)\<leftarrow>zip v (map uminus v). x * y) = - (\<Sum>x\<leftarrow>v. x * x :: real)"
  "(\<Sum>(x, y)\<leftarrow>zip v (map uminus v). x * x) = (\<Sum>x\<leftarrow>v. x * x :: real)"
  "(\<Sum>(x, y)\<leftarrow>zip v (map uminus v). y * y) = (\<Sum>x\<leftarrow>v. x * x :: real)"
  by (induction v) auto

lemma sum_squares_pos: "(\<exists>x\<in>set v. x \<noteq> 0) \<Longrightarrow> 0 < (\<Sum>x\<leftarrow>v. x * x :: real)"
proof -
  assume "\<exists>x\<in>set v. x \<noteq> 0"
  moreover have "0 \<le> (\<Sum>x\<leftarrow>v. x * x :: real)" by (induction v) auto
  moreover have "(\<Sum>x\<leftarrow>v. x * x :: real) = 0 \<longleftrightarrow> (\<forall>x\<in>set v. x = 0)"
    by (subst sum_list_nonneg_eq_0_iff) auto
  ultimately show ?thesis by fastforce
qed

lemma cos_core_self_lemma: "(\<exists>x\<in>set v. x \<noteq> 0) \<Longrightarrow> cos_core v v = 1"
proof -
  assume nz: "\<exists>x\<in>set v. x \<noteq> 0"
  define m where "m = (\<Sum>x\<leftarrow>v. x * x)"
  have "0 < m" using sum_squares_pos [OF nz] by (simp add: m_def)
  then have "sqrt m * sqrt m = m" "sqrt m \<noteq> 0" by simp_all
  then show ?thesis using \<open>0 < m\<close> by (simp add: cos_core_def dot_mags_sums zip_self_sums m_def [symmetric])
qed

lemma cos_core_neg_lemma: "(\<exists>x\<in>set v. x \<noteq> 0) \<Longrightarrow> cos_core v (map uminus v) = -1"
proof -
  assume nz: "\<exists>x\<in>set v. x \<noteq> 0"
  define m where "m = (\<Sum>x\<leftarrow>v. x * x)"
  have "0 < m" using sum_squares_pos [OF nz] by (simp add: m_def)
  then have "sqrt m * sqrt m = m" "sqrt m \<noteq> 0" by simp_all
  then show ?thesis using \<open>0 < m\<close> by (simp add: cos_core_def dot_mags_sums zip_neg_sums m_def [symmetric])
qed

lemma zip_zero_left_sums:
  "(\<forall>x\<in>set a. x = 0) \<Longrightarrow> (\<Sum>(x, y)\<leftarrow>zip a b. x * x) = (0::real)"
  by (induction a arbitrary: b) (auto simp: zip_Cons1 split: list.splits)

lemma cos_core_zero_left: "(\<forall>x\<in>set a. x = 0) \<Longrightarrow> cos_core a b = 0"
  by (simp add: cos_core_def dot_mags_sums zip_zero_left_sums)

lemma cos_core_sym: "cos_core a b = cos_core b a"
proof -
  have "\<And>f. (\<Sum>(x, y)\<leftarrow>zip b a. f x y) = (\<Sum>(x, y)\<leftarrow>zip a b. f y x :: real)"
    by (induction a arbitrary: b) (auto simp: zip_Cons1 split: list.splits)
  then show ?thesis by (simp add: cos_core_def dot_mags_sums mult.commute conj_commute)
qed

lemma zip_scale_sums:
  "(\<Sum>(x, y)\<leftarrow>zip (map (\<lambda>x. x / m) a) b. x * y) = (\<Sum>(x, y)\<leftarrow>zip a b. x * y) / (m :: real)"
  "(\<Sum>(x, y)\<leftarrow>zip (map (\<lambda>x. x / m) a) b. x * x) = (\<Sum>(x, y)\<leftarrow>zip a b. x * x) / (m * m)"
  "(\<Sum>(x, y)\<leftarrow>zip (map (\<lambda>x. x / m) a) b. y * y) = (\<Sum>(x, y)\<leftarrow>zip a b. y * y)"
  by (induction a arbitrary: b) (auto simp: zip_Cons1 add_divide_distrib split: list.splits)

lemma cos_core_scale:
  assumes "0 < m"
  shows "cos_core (map (\<lambda>x. x / m) a) b = cos_core a b"
proof -
  define d where "d = (\<Sum>(x, y)\<leftarrow>zip a b. x * y)"
  define ma where "ma = (\<Sum>(x, y)\<leftarrow>zip a b. x * x)"
  define mb where "mb = (\<Sum>(x, y)\<leftarrow>zip a b. y * y)"
  have s: "sqrt (ma / (m * m)) = sqrt ma / m"
    using assms by (simp add: real_sqrt_divide real_sqrt_mult)
  have lhs: "cos_core (map (\<lambda>x. x / m) a) b =
      (if sqrt ma / m = 0 \<or> sqrt mb = 0 then 0 else (d / m) / (sqrt ma / m * sqrt mb))"
    unfolding cos_core_def dot_mags_sums zip_scale_sums d_def ma_def mb_def Let_def
    by (simp only: prod.case s [unfolded ma_def])
  have rhs: "cos_core a b = (if sqrt ma = 0 \<or> sqrt mb = 0 then 0 else d / (sqrt ma * sqrt mb))"
    unfolding cos_core_def dot_mags_sums d_def ma_def mb_def Let_def by (simp only: prod.case)
  show ?thesis using assms by (simp add: lhs rhs)
qed

lemma fold_sq_sum: "fold (\<lambda>x s. s + x * x) v s0 = s0 + (\<Sum>x\<leftarrow>v. x * x :: real)"
  by (induction v arbitrary: s0) (auto simp: algebra_simps)

lemma normalize_cos:
  "cos_core (normalizeEmbedding a) b = cos_core a b"
proof -
  define m where "m = sqrt (\<Sum>x\<leftarrow>a. x * x)"
  have "0 \<le> (\<Sum>x\<leftarrow>a. x * x :: real)" by (induction a) auto
  then have "0 \<le> m" by (simp add: m_def)
  have n: "normalizeEmbedding a = (if m = 0 then a else map (\<lambda>x. x / m) a)"
    by (simp add: normalizeEmbedding_def fold_sq_sum m_def)
  show ?thesis
  proof (cases "m = 0")
    case True then show ?thesis by (simp add: n)
  next
    case False
    with \<open>0 \<le> m\<close> have "0 < m" by simp
    then show ?thesis by (simp add: n False cos_core_scale)
  qed
qed
section \<open>Properties of the embedding generator\<close>

text \<open>C30: For every positive batch size, \<open>generateEmbeddingsBatch\<close> returns, and its loop
  sends exactly the requests of the structural recursion over the slices
  \<open>texts.slice(i, i + batchSize)\<close>, with the same outcome.\<close>

theorem generateEmbeddingsBatch_refines_batches:
  "0 < bs \<Longrightarrow>
     generateEmbeddingsBatch prov texts model bs = Some (embed_batches prov model (batches bs texts) [] 0 [])"
  unfolding generateEmbeddingsBatch_def by (rule embed_loop_batches)

theorem generateEmbeddingsBatch_refines_batches_witness:
  "0 < (2::nat) \<and>
   generateEmbeddingsBatch (\<lambda>m b. Inr (map (\<lambda>t. [1]) b, 1)) [''a'', ''b'', ''c''] Small 2 =
     Some (embed_batches (\<lambda>m b. Inr (map (\<lambda>t. [1]) b, 1)) Small [[''a'', ''b''], [''c'']] [] 0 [])"
  using generateEmbeddingsBatch_refines_batches [of 2 "\<lambda>m b. Inr (map (\<lambda>t. [1]) b, 1)" "[''a'', ''b'', ''c'']" Small]
  by (simp add: batch_simps)

text \<open>With a provider that embeds every input, \<open>generateEmbeddingsBatch\<close> with a
  positive batch size sends one request per slice of the input, in order, and returns one
  embedding per text, in the order of the input, paired with that text, and the sum of the
  token counts of the requests.\<close>

theorem generateEmbeddingsBatch_order:
  "0 < bs \<Longrightarrow>
     generateEmbeddingsBatch (\<lambda>m b. Inr (map f b, tk b)) texts model bs =
       Some (batches bs texts,
             Inr \<lparr>be_embeddings = map (emb_of model f) texts,
                  be_total_tokens = sum_list (map tk (batches bs texts)), be_model = model\<rparr>)"
  by (simp add: generateEmbeddingsBatch_def embed_loop_batches embed_batches_faithful concat_batches_from)

text \<open>The scenario of the specification: batch size 2 over five texts, three requests.\<close>

theorem generateEmbeddingsBatch_order_witness:
  "0 < (2::nat) \<and>
   generateEmbeddingsBatch (\<lambda>m b. Inr (map (\<lambda>t. [of_nat (length t)]) b, length b))
       [''a'', ''bb'', ''ccc'', ''dddd'', ''eeeee''] Small 2 =
     Some ([[''a'', ''bb''], [''ccc'', ''dddd''], [''eeeee'']],
           Inr \<lparr>be_embeddings = map (emb_of Small (\<lambda>t. [of_nat (length t)]))
                                  [''a'', ''bb'', ''ccc'', ''dddd'', ''eeeee''],
                be_total_tokens = 5, be_model = Small\<rparr>)"
  using generateEmbeddingsBatch_order [of 2 "\<lambda>t. [of_nat (length t)]" length
      "[''a'', ''bb'', ''ccc'', ''dddd'', ''eeeee'']" Small]
  by (simp add: batch_simps)

text \<open>\<open>batchSize = 0\<close> is not rejected: if the provider accepts an empty request, the loop
  of \<open>generateEmbeddingsBatch\<close> never ends on a non-empty input (the index never moves).\<close>

theorem generateEmbeddingsBatch_zero_diverges:
  "prov model [] = Inr r \<Longrightarrow> texts \<noteq> [] \<Longrightarrow> generateEmbeddingsBatch prov texts model 0 = None"
  unfolding generateEmbeddingsBatch_def by (rule embed_loop_zero_diverges) simp_all

theorem generateEmbeddingsBatch_zero_diverges_witness:
  "(\<lambda>m b. Inr ([], 0)) Small [] = (Inr ([], 0) :: string + (vec list \<times> nat)) \<and> [''a''] \<noteq> [] \<and>
   generateEmbeddingsBatch (\<lambda>m b. Inr ([], 0)) [''a''] Small 0 = None"
  using generateEmbeddingsBatch_zero_diverges [of "\<lambda>m b. Inr ([], 0)" Small "([], 0)" "[''a'']"]
  by simp

text \<open>The cosine similarity of a vector with at least one non-zero component with itself
  is exactly 1.\<close>

theorem cosineSimilarity_self:
  "\<exists>x\<in>set v. x \<noteq> 0 \<Longrightarrow> cosineSimilarity v v = Inr 1"
  by (simp add: cosineSimilarity_def cos_core_self_lemma)

theorem cosineSimilarity_self_witness:
  "(\<exists>x\<in>set [3 :: real]. x \<noteq> 0) \<and> cosineSimilarity [3] [3] = Inr 1"
  using cosineSimilarity_self [of "[3]"] by simp

text \<open>The cosine similarity of a non-zero vector with its negation is exactly -1.\<close>

theorem cosineSimilarity_opposite:
  "\<exists>x\<in>set v. x \<noteq> 0 \<Longrightarrow> cosineSimilarity v (map uminus v) = Inr (-1)"
  by (simp add: cosineSimilarity_def cos_core_neg_lemma)

theorem cosineSimilarity_opposite_witness:
  "(\<exists>x\<in>set [1, 0 :: real]. x \<noteq> 0) \<and> cosineSimilarity [1, 0] [-1, 0] = Inr (-1)"
  using cosineSimilarity_opposite [of "[1, 0]"] by simp

text \<open>Whatever its inputs, the similarity the loop computes lies in [-1, 1]
  (Cauchy-Schwarz), and it is 0 when a vector has zero magnitude.\<close>

theorem cos_core_range:
  "-1 \<le> cos_core a b \<and> cos_core a b \<le> 1 \<and> ((\<forall>x\<in>set a. x = 0) \<longrightarrow> cos_core a b = 0)"
  using cos_core_bounds cos_core_zero_left by blast

theorem cos_core_range_witness:
  "-1 \<le> cos_core [0, 0] [1, 2] \<and> cos_core [0, 0] [1, 2] \<le> 1 \<and> cos_core [0, 0] [1, 2] = 0"
  using cos_core_range [of "[0, 0]" "[1, 2]"] by simp

text \<open>\<open>cosineSimilarity\<close> of \<open>embeddings.ts\<close> throws on vectors of different dimensions
  instead of returning 0.\<close>

theorem cosineSimilarity_mismatch_throws:
  "length a \<noteq> length b \<Longrightarrow> cosineSimilarity a b = Inl DimensionMismatch"
  by (simp add: cosineSimilarity_def)

theorem cosineSimilarity_mismatch_throws_witness:
  "length [1 :: real] \<noteq> length [1, 2 :: real] \<and> cosineSimilarity [1] [1, 2] = Inl DimensionMismatch"
  using cosineSimilarity_mismatch_throws [of "[1]" "[1, 2]"] by simp

text \<open>\<open>normalizeEmbedding\<close> does not change the cosine similarity with any vector.\<close>

theorem normalizeEmbedding_preserves_cosine:
  "cos_core (normalizeEmbedding a) b = cos_core a b"
  by (rule normalize_cos)

end
