(* ===== verification/Knowledge_Store.thy ===== *)
theory Knowledge_Store
  imports Embeddings
begin

text \<open>
  The knowledge store, \<open>src/lib/db/queries/brand-voice.ts\<close>, over the table
  \<open>brand_voice_embeddings\<close> of \<open>src/lib/db/migrations/001_initial_schema.sql\<close> (with the
  \<open>source_file\<close> column its later migration adds). The table is an explicit state: its rows
  in table order, the next row identifier and the database clock that \<open>NOW()\<close> reads.
  Every write is one SQL statement: it either fails as a whole (the enum check on
  \<open>source\<close>) or adds or removes its rows and advances the clock by one tick.
  The operations: \<open>insertBrandVoiceEmbedding\<close>, \<open>bulkInsertBrandVoiceEmbeddings\<close> (one
  statement per batch of 50, so a failing batch leaves the earlier ones in place),
  \<open>getBrandVoiceEmbeddingsBySource\<close>, \<open>getBrandVoiceEmbeddingsByFile\<close>,
  \<open>findSimilarBrandVoice\<close> with its own \<open>cosineSimilarity\<close>, the two deletes and
  \<open>getBrandVoiceStats\<close>; and a datatype of the writes with the step function the
  ingestion pipeline drives.
\<close>

section \<open>Data\<close>

text \<open>The source tags the TypeScript code writes, and the three the database enum
  \<open>brand_voice_source\<close> accepts.\<close>

datatype bv_source = StyleGuide | ExamplePost | KnowledgeBase | Feedback | Other

fun source_name :: "bv_source \<Rightarrow> string" where
  "source_name StyleGuide = ''style_guide''"
| "source_name ExamplePost = ''example_post''"
| "source_name KnowledgeBase = ''knowledge_base''"
| "source_name Feedback = ''feedback''"
| "source_name Other = ''other''"

fun db_enum_accepts :: "bv_source \<Rightarrow> bool" where
  "db_enum_accepts StyleGuide = True"
| "db_enum_accepts ExamplePost = True"
| "db_enum_accepts Feedback = True"
| "db_enum_accepts KnowledgeBase = False"
| "db_enum_accepts Other = False"

record bv_row =
  row_id :: nat
  row_source :: bv_source
  row_source_file :: "string option"
  row_text :: string
  row_embedding :: vec
  row_metadata :: "jobj option"
  row_created_at :: timestamp

record bv_insert =
  ins_source :: bv_source
  ins_source_file :: "string option"
  ins_text :: string
  ins_embedding :: vec
  ins_metadata :: "jobj option"

record bv_db =
  bv_rows :: "bv_row list"
  bv_next_id :: nat
  bv_clock :: timestamp

section \<open>Writes\<close>

text \<open>\<open>${data.source_file || null}\<close>: an empty file name is stored as \<open>NULL\<close>.\<close>

definition sf_column :: "string option \<Rightarrow> string option" where
  "sf_column sf = (case sf of None \<Rightarrow> None | Some f \<Rightarrow> if f = [] then None else Some f)"

definition enum_error :: "bv_source \<Rightarrow> error" where
  "enum_error s = StoreFailed (''invalid input value for enum brand_voice_source: \"'' @ source_name s @ ''\"'')"

definition mk_row :: "nat \<Rightarrow> timestamp \<Rightarrow> bv_insert \<Rightarrow> bv_row" where
  "mk_row i now d = \<lparr>row_id = i, row_source = ins_source d, row_source_file = sf_column (ins_source_file d),
     row_text = ins_text d, row_embedding = ins_embedding d, row_metadata = ins_metadata d,
     row_created_at = now\<rparr>"

text \<open>One \<open>INSERT ... VALUES (...), (...)\<close> statement: all its rows or none, all stamped
  with the statement's \<open>NOW()\<close>.\<close>

definition insert_statement :: "bv_db \<Rightarrow> bv_insert list \<Rightarrow> error + bv_db" where
  "insert_statement db items =
     (case filter (\<lambda>d. \<not> db_enum_accepts (ins_source d)) items of
        d # _ \<Rightarrow> Inl (enum_error (ins_source d))
      | [] \<Rightarrow> Inr \<lparr>bv_rows = bv_rows db @ map (\<lambda>(k, d). mk_row (bv_next_id db + k) (bv_clock db) d)
                                              (enumerate 0 items),
                 bv_next_id = bv_next_id db + length items, bv_clock = Suc (bv_clock db)\<rparr>)"

definition insertBrandVoiceEmbedding :: "bv_db \<Rightarrow> bv_insert \<Rightarrow> error + (bv_row \<times> bv_db)" where
  "insertBrandVoiceEmbedding db d =
     (case insert_statement db [d] of
        Inl e \<Rightarrow> Inl e
      | Inr db' \<Rightarrow> Inr (mk_row (bv_next_id db) (bv_clock db) d, db'))"

definition BULK_BATCH :: nat where
  "BULK_BATCH = 50"

text \<open>The \<open>for\<close> loop of \<open>bulkInsertBrandVoiceEmbeddings\<close>: the state after a failure is
  kept, since the batches already inserted were separate statements.\<close>

function bulk_loop :: "bv_db \<Rightarrow> bv_insert list \<Rightarrow> nat \<Rightarrow> nat \<Rightarrow> (error + nat) \<times> bv_db" where
  "bulk_loop db items i inserted =
     (if i < length items then
        (case insert_statement db (substr items i (i + BULK_BATCH)) of
           Inl e \<Rightarrow> (Inl e, db)
         | Inr db' \<Rightarrow> bulk_loop db' items (i + BULK_BATCH) (inserted + length (substr items i (i + BULK_BATCH))))
      else (Inr inserted, db))"
  by pat_completeness auto
termination
  by (relation "measure (\<lambda>(db, items, i, inserted). length items - i)") (auto simp: BULK_BATCH_def)

declare bulk_loop.simps [simp del]

definition bulkInsertBrandVoiceEmbeddings :: "bv_db \<Rightarrow> bv_insert list \<Rightarrow> (error + nat) \<times> bv_db" where
  "bulkInsertBrandVoiceEmbeddings db items =
     (if items = [] then (Inr 0, db) else bulk_loop db items 0 0)"

text \<open>\<open>DELETE ... WHERE source_file = $1\<close> and \<open>WHERE source = $1\<close>, returning
  \<open>result.count || 0\<close>. A row whose \<open>source_file\<close> is \<open>NULL\<close> matches no file.\<close>

definition delete_where :: "bv_db \<Rightarrow> (bv_row \<Rightarrow> bool) \<Rightarrow> nat \<times> bv_db" where
  "delete_where db P =
     (length (filter P (bv_rows db)),
      db\<lparr>bv_rows := filter (\<lambda>r. \<not> P r) (bv_rows db), bv_clock := Suc (bv_clock db)\<rparr>)"

definition deleteBrandVoiceEmbeddingsByFile :: "bv_db \<Rightarrow> string \<Rightarrow> nat \<times> bv_db" where
  "deleteBrandVoiceEmbeddingsByFile db f = delete_where db (\<lambda>r. row_source_file r = Some f)"

definition deleteBrandVoiceEmbeddingsBySource :: "bv_db \<Rightarrow> bv_source \<Rightarrow> nat \<times> bv_db" where
  "deleteBrandVoiceEmbeddingsBySource db s = delete_where db (\<lambda>r. row_source r = s)"

section \<open>Reads\<close>

text \<open>\<open>ORDER BY created_at DESC\<close>; rows with equal timestamps stay in table order.\<close>

definition newest_first :: "bv_row list \<Rightarrow> bv_row list" where
  "newest_first rs = rank_desc (\<lambda>r. real (row_created_at r)) rs"

definition getBrandVoiceEmbeddingsBySource :: "bv_db \<Rightarrow> bv_source \<Rightarrow> bv_row list" where
  "getBrandVoiceEmbeddingsBySource db s = newest_first (filter (\<lambda>r. row_source r = s) (bv_rows db))"

definition getBrandVoiceEmbeddingsByFile :: "bv_db \<Rightarrow> string \<Rightarrow> bv_row list" where
  "getBrandVoiceEmbeddingsByFile db f = newest_first (filter (\<lambda>r. row_source_file r = Some f) (bv_rows db))"

text \<open>The store's own copy of \<open>cosineSimilarity\<close>: 0 on a dimension mismatch.\<close>

definition store_cosineSimilarity :: "vec \<Rightarrow> vec \<Rightarrow> real" where
  "store_cosineSimilarity a b = (if length a \<noteq> length b then 0 else cos_core a b)"

text \<open>\<open>findSimilarBrandVoice\<close>: all rows (of one source when one is given; \<open>SELECT *\<close>
  without \<open>ORDER BY\<close>, read in table order), scored, filtered by \<open>minSimilarity\<close>,
  sorted by descending similarity, cut to \<open>limit\<close>.\<close>

definition findSimilarBrandVoice ::
  "bv_db \<Rightarrow> vec \<Rightarrow> nat \<Rightarrow> real \<Rightarrow> bv_source option \<Rightarrow> (bv_row \<times> real) list"
where
  "findSimilarBrandVoice db q limit minSimilarity source =
     (let allEmbeddings = (case source of None \<Rightarrow> bv_rows db
                                        | Some s \<Rightarrow> filter (\<lambda>r. row_source r = s) (bv_rows db));
          similarities = map (\<lambda>r. (r, store_cosineSimilarity q (row_embedding r))) allEmbeddings
      in take limit (rank_desc snd (filter (\<lambda>p. minSimilarity \<le> snd p) similarities)))"

record bv_stats =
  st_total :: nat
  st_by_source :: "string \<Rightarrow> nat option"
  st_by_file :: "string \<Rightarrow> nat option"

text \<open>\<open>Object.fromEntries\<close> of a \<open>GROUP BY\<close>: a key appears exactly when some row has it.\<close>

definition group_count :: "('a \<Rightarrow> string option) \<Rightarrow> 'a list \<Rightarrow> string \<Rightarrow> nat option" where
  "group_count key rs k = (let n = length (filter (\<lambda>r. key r = Some k) rs) in if n = 0 then None else Some n)"

definition getBrandVoiceStats :: "bv_db \<Rightarrow> bv_stats" where
  "getBrandVoiceStats db =
     \<lparr>st_total = length (bv_rows db),
      st_by_source = group_count (\<lambda>r. Some (source_name (row_source r))) (bv_rows db),
      st_by_file = group_count row_source_file (bv_rows db)\<rparr>"

section \<open>The writes as operations\<close>

datatype store_op =
    InsertOne bv_insert
  | InsertBulk "bv_insert list"
  | DeleteByFile string
  | DeleteBySource bv_source

fun store_step :: "bv_db \<Rightarrow> store_op \<Rightarrow> bv_db" where
  "store_step db (InsertOne d) = (case insertBrandVoiceEmbedding db d of Inl _ \<Rightarrow> db | Inr (_, db') \<Rightarrow> db')"
| "store_step db (InsertBulk ds) = snd (bulkInsertBrandVoiceEmbeddings db ds)"
| "store_step db (DeleteByFile f) = snd (deleteBrandVoiceEmbeddingsByFile db f)"
| "store_step db (DeleteBySource s) = snd (deleteBrandVoiceEmbeddingsBySource db s)"

text \<open>What the table always satisfies: identifiers are distinct and below the next one,
  no row is stamped after the clock, and every \<open>source\<close> is a value of the enum.\<close>

definition store_wf :: "bv_db \<Rightarrow> bool" where
  "store_wf db \<longleftrightarrow>
     distinct (map row_id (bv_rows db)) \<and>
     list_all (\<lambda>r. row_id r < bv_next_id db \<and> row_created_at r \<le> bv_clock db \<and>
                   db_enum_accepts (row_source r)) (bv_rows db)"

definition empty_db :: bv_db where
  "empty_db = \<lparr>bv_rows = [], bv_next_id = 0, bv_clock = 0\<rparr>"

section \<open>Helpers of the proofs\<close>

text \<open>What a row stores of the insert that created it, and the insert as the database
  normalises it; the batches of a bulk insert as a structural recursion; the source filter
  of \<open>findSimilarBrandVoice\<close> as a predicate.\<close>

definition ins_norm :: "bv_insert \<Rightarrow> bv_insert" where
  "ins_norm d = d\<lparr>ins_source_file := sf_column (ins_source_file d)\<rparr>"

definition row_payload :: "bv_row \<Rightarrow> bv_insert" where
  "row_payload r = \<lparr>ins_source = row_source r, ins_source_file = row_source_file r, ins_text = row_text r,
     ins_embedding = row_embedding r, ins_metadata = row_metadata r\<rparr>"

fun bulk_batches :: "bv_db \<Rightarrow> bv_insert list list \<Rightarrow> nat \<Rightarrow> (error + nat) \<times> bv_db" where
  "bulk_batches db [] n = (Inr n, db)"
| "bulk_batches db (b # bss) n =
     (case insert_statement db b of Inl e \<Rightarrow> (Inl e, db) | Inr db' \<Rightarrow> bulk_batches db' bss (n + length b))"

abbreviation ins_ok :: "bv_insert \<Rightarrow> bool" where
  "ins_ok d \<equiv> db_enum_accepts (ins_source d)"

definition src_match :: "bv_source option \<Rightarrow> bv_row \<Rightarrow> bool" where
  "src_match src r = (case src of None \<Rightarrow> True | Some s \<Rightarrow> row_source r = s)"

section \<open>Sample rows\<close>

definition demo_row :: "nat \<Rightarrow> bv_source \<Rightarrow> vec \<Rightarrow> bv_row" where
  "demo_row i s v = \<lparr>row_id = i, row_source = s, row_source_file = Some ''guide.pdf'', row_text = ''t'',
     row_embedding = v, row_metadata = None, row_created_at = 0\<rparr>"

definition demo_db :: bv_db where
  "demo_db = \<lparr>bv_rows = [demo_row 0 StyleGuide [1, 0], demo_row 1 ExamplePost [0, 1]],
     bv_next_id = 2, bv_clock = 1\<rparr>"

definition demo_insert :: "bv_source \<Rightarrow> bv_insert" where
  "demo_insert s = \<lparr>ins_source = s, ins_source_file = Some ''style-guide.pdf'', ins_text = ''Be direct.'',
     ins_embedding = [1, 0], ins_metadata = None\<rparr>"

section \<open>Writes: round trip, batching, partial failure\<close>

lemma row_payload_mk_row [simp]: "row_payload (mk_row i now d) = ins_norm d"
  by (simp add: row_payload_def mk_row_def ins_norm_def)

lemma insert_statement_ok:
  assumes "list_all (\<lambda>d. db_enum_accepts (ins_source d)) items"
  shows "insert_statement db items = Inr \<lparr>bv_rows = bv_rows db @ map (\<lambda>(k, d). mk_row (bv_next_id db + k) (bv_clock db) d) (enumerate 0 items),
                 bv_next_id = bv_next_id db + length items, bv_clock = Suc (bv_clock db)\<rparr>"
proof -
  have "filter (\<lambda>d. \<not> db_enum_accepts (ins_source d)) items = []"
    using assms by (simp add: filter_empty_conv list_all_iff)
  then show ?thesis by (simp add: insert_statement_def)
qed

lemma insert_statement_Inr_rows:
  "insert_statement db items = Inr db' \<Longrightarrow>
     \<exists>new. bv_rows db' = bv_rows db @ new \<and> map row_payload new = map ins_norm items"
  by (auto simp: insert_statement_def enumerate_eq_zip split: list.splits
           intro!: nth_equalityI)

lemma insert_statement_Inr_iff:
  "(\<exists>db'. insert_statement db items = Inr db') \<longleftrightarrow> list_all (\<lambda>d. db_enum_accepts (ins_source d)) items"
proof -
  have "(\<exists>db'. insert_statement db items = Inr db') \<longleftrightarrow>
          filter (\<lambda>d. \<not> db_enum_accepts (ins_source d)) items = []"
    by (simp add: insert_statement_def split: list.split)
  then show ?thesis by (simp add: filter_empty_conv list_all_iff)
qed

lemma bulk_loop_batches:
  "bulk_loop db items i n = bulk_batches db (batches_from BULK_BATCH i items) n"
proof (induction db items i n rule: bulk_loop.induct)
  case (1 db items i n)
  have pos: "0 < BULK_BATCH" by (simp add: BULK_BATCH_def)
  show ?case
  proof (cases "i < length items")
    case True
    then show ?thesis using "1.IH" [OF True]
      by (subst bulk_loop.simps) (simp add: batches_from_step [OF pos True] substr_def split: sum.split)
  next
    case False
    then show ?thesis by (subst bulk_loop.simps) (simp add: batches_from_done)
  qed
qed

lemma bulk_batches_all_ok:
  "list_all (list_all ins_ok) bss \<Longrightarrow>
     \<exists>db'. bulk_batches db bss n = (Inr (n + length (concat bss)), db') \<and>
           (\<exists>new. bv_rows db' = bv_rows db @ new \<and> map row_payload new = map ins_norm (concat bss))"
proof (induction bss arbitrary: db n)
  case Nil
  then show ?case by simp
next
  case (Cons b bss)
  then obtain db1 where db1: "insert_statement db b = Inr db1"
    using insert_statement_Inr_iff [of db b] by auto
  obtain new1 where new1: "bv_rows db1 = bv_rows db @ new1" "map row_payload new1 = map ins_norm b"
    using insert_statement_Inr_rows [OF db1] by blast
  from Cons obtain db' new where "bulk_batches db1 bss (n + length b) = (Inr (n + length b + length (concat bss)), db')"
      "bv_rows db' = bv_rows db1 @ new" "map row_payload new = map ins_norm (concat bss)"
    by fastforce
  with db1 new1 show ?case
    by (intro exI [of _ db'] conjI exI [of _ "new1 @ new"]) (simp_all add: add.assoc)
qed

lemma take_drop_prefix_ok:
  assumes "list_all P (take j xs)" "i + k \<le> j"
  shows "list_all P (take k (drop i xs))"
proof -
  have "take k (drop i xs) = drop i (take (k + i) (take j xs))"
    using assms(2) by (simp add: take_drop min_absorb1)
  then have "set (take k (drop i xs)) \<subseteq> set (take j xs)"
    by (metis order_trans set_drop_subset set_take_subset)
  with assms(1) show ?thesis by (auto simp: list_all_iff)
qed

lemma first_bad_in_batch:
  assumes "list_all P (take j xs)" "\<not> P (xs ! j)" "j < length xs" "i \<le> j" "j < i + k"
  shows "\<exists>rest. filter (\<lambda>d. \<not> P d) (take k (drop i xs)) = xs ! j # rest"
proof -
  have split: "take k (drop i xs) = take (j - i) (drop i xs) @ xs ! j # take (k - (j - i) - 1) (drop (Suc j) xs)"
  proof -
    have "k = (j - i) + (k - (j - i))" using assms by simp
    then have "take k (drop i xs) = take ((j - i) + (k - (j - i))) (drop i xs)" by simp
    also have "\<dots> = take (j - i) (drop i xs) @ take (k - (j - i)) (drop (j - i) (drop i xs))"
      by (rule take_add)
    also have "drop (j - i) (drop i xs) = xs ! j # drop (Suc j) xs"
      using assms by (simp add: Cons_nth_drop_Suc)
    also have "take (k - (j - i)) (xs ! j # drop (Suc j) xs) = xs ! j # take (k - (j - i) - 1) (drop (Suc j) xs)"
      using assms by (cases "k - (j - i)") auto
    finally show ?thesis .
  qed
  have "list_all P (take (j - i) (drop i xs))"
    using take_drop_prefix_ok [OF assms(1)] assms(4) by simp
  then have "filter (\<lambda>d. \<not> P d) (take (j - i) (drop i xs)) = []"
    by (simp add: filter_empty_conv list_all_iff)
  with assms(2) show ?thesis by (simp add: split)
qed

lemma batch_start_arith:
  assumes "(i::nat) mod bs = 0" "0 < bs"
  shows "i \<le> j \<Longrightarrow> j < i + bs \<Longrightarrow> j div bs * bs = i"
    and "i + bs \<le> j \<Longrightarrow> i + bs \<le> j div bs * bs"
proof -
  have "bs dvd i" using assms(1) by (rule mod_0_imp_dvd)
  then obtain q where q: "i = bs * q" by (rule dvdE)
  show "j div bs * bs = i" if "i \<le> j" "j < i + bs"
  proof -
    have j: "j = (j - i) + bs * q" using that q by simp
    have "(j - i) div bs = 0" using that by simp
    then have "j div bs = q"
      using assms(2) div_mult_self2 [of bs "j - i" q] j by simp
    then show ?thesis using q by simp
  qed
  show "i + bs \<le> j div bs * bs" if "i + bs \<le> j"
  proof -
    have "Suc q * bs \<le> j" using that q by (simp add: algebra_simps)
    then have "Suc q \<le> j div bs" using assms(2) by (simp add: less_eq_div_iff_mult_less_eq)
    then have "Suc q * bs \<le> j div bs * bs" by (rule mult_le_mono1)
    then show ?thesis using q by (simp add: algebra_simps)
  qed
qed

lemma bulk_batches_fail_at:
  "list_all ins_ok (take j items) \<Longrightarrow> \<not> ins_ok (items ! j) \<Longrightarrow> j < length items \<Longrightarrow> 0 < bs \<Longrightarrow>
   i \<le> j \<Longrightarrow> i mod bs = 0 \<Longrightarrow>
    \<exists>db'. bulk_batches db (batches_from bs i items) n = (Inl (enum_error (ins_source (items ! j))), db') \<and>
          (\<exists>new. bv_rows db' = bv_rows db @ new \<and>
                 map row_payload new = map ins_norm (drop i (take (j div bs * bs) items)))"
proof (induction bs i items arbitrary: db n rule: batches_from.induct)
  case (1 bs i items)
  note ok = "1.prems"(1) and bad = "1.prems"(2) and j = "1.prems"(3) and bs = "1.prems"(4)
  let ?jd = "j div bs * bs"
  let ?b = "take bs (drop i items)"
  from "1.prems" have i: "i < length items" by simp
  note step = batches_from_step [OF bs i]
  show ?case
  proof (cases "i + bs \<le> j")
    case True
    have okb: "list_all ins_ok ?b" using take_drop_prefix_ok [OF ok True] .
    then obtain db1 where db1: "insert_statement db ?b = Inr db1"
      using insert_statement_Inr_iff [of db ?b] by auto
    obtain new1 where new1: "bv_rows db1 = bv_rows db @ new1" "map row_payload new1 = map ins_norm ?b"
      using insert_statement_Inr_rows [OF db1] by blast
    have "(i + bs) mod bs = 0" using "1.prems" by simp
    with True "1.IH" [of db1 "n + length ?b"] ok bad j bs i obtain db' new where
      rec: "bulk_batches db1 (batches_from bs (i + bs) items) (n + length ?b) =
              (Inl (enum_error (ins_source (items ! j))), db')"
           "bv_rows db' = bv_rows db1 @ new"
           "map row_payload new = map ins_norm (drop (i + bs) (take ?jd items))"
      by auto
    have jd: "i + bs \<le> ?jd" using batch_start_arith(2) [OF "1.prems"(6) bs True] .
    have "drop i (take ?jd items) = ?b @ drop (i + bs) (take ?jd items)"
    proof -
      have "drop i (take ?jd items) = take bs (drop i (take ?jd items)) @ drop bs (drop i (take ?jd items))"
        by (rule append_take_drop_id [symmetric])
      moreover have "take bs (drop i (take ?jd items)) = ?b"
        using jd by (simp add: take_drop min_absorb1 add.commute)
      ultimately show ?thesis by (simp add: add.commute)
    qed
    with rec new1 db1 step show ?thesis
      by (intro exI [of _ db'] conjI exI [of _ "new1 @ new"]) simp_all
  next
    case False
    then have lt: "j < i + bs" by simp
    obtain rest where f: "filter (\<lambda>d. \<not> ins_ok d) ?b = items ! j # rest"
      using first_bad_in_batch [OF ok bad j "1.prems"(5) lt] by blast
    have "insert_statement db ?b = Inl (enum_error (ins_source (items ! j)))"
      by (simp add: insert_statement_def f)
    moreover have "?jd = i" using batch_start_arith(1) [OF "1.prems"(6) bs "1.prems"(5) lt] .
    ultimately show ?thesis using step
      by (intro exI [of _ db] conjI exI [of _ "[]"]) simp_all
  qed
qed

section \<open>Reads: ranking, deletes, statistics\<close>

lemma findSimilar_eq:
  "findSimilarBrandVoice db q limit minS src =
     take limit (rank_desc snd (filter (\<lambda>p. minS \<le> snd p)
        (map (\<lambda>r. (r, store_cosineSimilarity q (row_embedding r)))
           (case src of None \<Rightarrow> bv_rows db | Some s \<Rightarrow> filter (\<lambda>r. row_source r = s) (bv_rows db)))))"
  by (simp add: findSimilarBrandVoice_def Let_def)

lemma candidates_filter:
  "(case src of None \<Rightarrow> rs | Some s \<Rightarrow> filter (\<lambda>r. row_source r = s) rs) = filter (src_match src) rs"
  by (cases src) (auto intro: filter_cong simp: src_match_def)

lemma findSimilar_eq':
  "findSimilarBrandVoice db q limit minS src =
     take limit (rank_desc snd (filter (\<lambda>p. minS \<le> snd p)
        (map (\<lambda>r. (r, store_cosineSimilarity q (row_embedding r))) (filter (src_match src) (bv_rows db)))))"
  by (simp add: findSimilar_eq candidates_filter)

lemma in_scored_iff:
  "p \<in> set (filter (\<lambda>p. minS \<le> snd p) (map (\<lambda>r. (r, g r)) (filter P rs))) \<longleftrightarrow>
     fst p \<in> set rs \<and> P (fst p) \<and> snd p = g (fst p) \<and> minS \<le> snd p"
  by (cases p) auto

lemma findSimilar_sorted:
  "sorted_wrt (\<lambda>x y. snd y \<le> snd x) (findSimilarBrandVoice db q limit minS src) \<and>
   length (findSimilarBrandVoice db q limit minS src) \<le> limit"
  unfolding findSimilar_eq' by (simp add: sorted_wrt_take_prefix)

lemma findSimilar_mem:
  assumes "p \<in> set (findSimilarBrandVoice db q limit minS src)"
  shows "minS \<le> snd p \<and> snd p = store_cosineSimilarity q (row_embedding (fst p)) \<and>
    fst p \<in> set (bv_rows db) \<and> src_match src (fst p)"
proof -
  let ?M = "filter (\<lambda>p. minS \<le> snd p)
        (map (\<lambda>r. (r, store_cosineSimilarity q (row_embedding r))) (filter (src_match src) (bv_rows db)))"
  have "set (take limit (rank_desc snd ?M)) \<subseteq> set ?M"
    using set_take_subset [of limit "rank_desc snd ?M"] by (simp only: set_rank_desc)
  with assms have "p \<in> set ?M" unfolding findSimilar_eq' by blast
  then show ?thesis by (simp only: in_scored_iff) auto
qed

lemma length_newest_first [simp]: "length (newest_first rs) = length rs"
  by (simp add: newest_first_def)

lemma newest_first_Nil_iff [simp]: "newest_first rs = [] \<longleftrightarrow> rs = []"
  by (metis length_0_conv length_newest_first)

lemma group_count_file:
  "st_by_file (getBrandVoiceStats db) f =
     (if getBrandVoiceEmbeddingsByFile db f = [] then None else Some (length (getBrandVoiceEmbeddingsByFile db f)))"
  by (simp add: getBrandVoiceStats_def group_count_def getBrandVoiceEmbeddingsByFile_def Let_def)

lemma source_name_inj: "source_name s = source_name t \<longleftrightarrow> s = t"
  by (cases s; cases t) simp_all

lemma group_count_source:
  "st_by_source (getBrandVoiceStats db) (source_name s) =
     (if getBrandVoiceEmbeddingsBySource db s = [] then None else Some (length (getBrandVoiceEmbeddingsBySource db s)))"
  by (simp add: getBrandVoiceStats_def group_count_def getBrandVoiceEmbeddingsBySource_def Let_def source_name_inj)

lemma length_split_sources:
  "length rs = sum_list (map (\<lambda>s. length (filter (\<lambda>r. row_source r = s) rs)) [StyleGuide, ExamplePost, KnowledgeBase, Feedback, Other])"
proof (induction rs)
  case Nil then show ?case by simp
next
  case (Cons r rs)
  then show ?case by (cases "row_source r") simp_all
qed

lemma stats_total_split:
  "st_total (getBrandVoiceStats db) =
     sum_list (map (\<lambda>s. length (getBrandVoiceEmbeddingsBySource db s)) [StyleGuide, ExamplePost, KnowledgeBase, Feedback, Other])"
  using length_split_sources [of "bv_rows db"]
  by (simp add: getBrandVoiceStats_def getBrandVoiceEmbeddingsBySource_def)

section \<open>The table invariant\<close>

lemma new_rows_ids:
  "map row_id (map (\<lambda>(k, d). mk_row (n + k) c d) (enumerate 0 items)) = [n..<n + length items]"
  by (rule nth_equalityI) (simp_all add: enumerate_eq_zip mk_row_def)

lemma new_rows_mem:
  "r \<in> set (map (\<lambda>(k, d). mk_row (n + k) c d) (enumerate 0 items)) \<Longrightarrow>
     \<exists>k<length items. r = mk_row (n + k) c (items ! k)"
  by (auto simp: in_set_enumerate_eq)

lemma insert_statement_wf:
  assumes wf: "store_wf db" and ins: "insert_statement db items = Inr db'"
  shows "store_wf db'"
proof -
  let ?new = "map (\<lambda>(k, d). mk_row (bv_next_id db + k) (bv_clock db) d) (enumerate 0 items)"
  have ok: "list_all ins_ok items" using ins insert_statement_Inr_iff by blast
  then have db': "db' = \<lparr>bv_rows = bv_rows db @ ?new, bv_next_id = bv_next_id db + length items,
                         bv_clock = Suc (bv_clock db)\<rparr>"
    using ins insert_statement_ok [OF ok, of db] by simp
  have old: "\<forall>r\<in>set (bv_rows db). row_id r < bv_next_id db \<and> row_created_at r \<le> bv_clock db \<and>
                   db_enum_accepts (row_source r)" "distinct (map row_id (bv_rows db))"
    using wf by (simp_all add: store_wf_def list_all_iff)
  have "distinct (map row_id (bv_rows db @ ?new))"
  proof -
    have "set (map row_id (bv_rows db)) \<inter> set [bv_next_id db..<bv_next_id db + length items] = {}"
      using old(1) by auto
    moreover have "map row_id (bv_rows db @ ?new) = map row_id (bv_rows db) @ [bv_next_id db..<bv_next_id db + length items]"
      by (simp only: map_append new_rows_ids)
    ultimately show ?thesis using old(2) by (simp only: distinct_append) simp
  qed
  moreover have "\<forall>r\<in>set ?new. row_id r < bv_next_id db + length items \<and> row_created_at r \<le> Suc (bv_clock db) \<and>
                   db_enum_accepts (row_source r)"
  proof
    fix r assume "r \<in> set ?new"
    then obtain k where k: "k < length items" "r = mk_row (bv_next_id db + k) (bv_clock db) (items ! k)"
      by (blast dest: new_rows_mem)
    moreover have "ins_ok (items ! k)" using ok k(1) by (simp add: list_all_length)
    ultimately show "row_id r < bv_next_id db + length items \<and> row_created_at r \<le> Suc (bv_clock db) \<and>
                   db_enum_accepts (row_source r)" by (simp add: mk_row_def)
  qed
  moreover have "\<forall>r\<in>set (bv_rows db). row_id r < bv_next_id db + length items \<and> row_created_at r \<le> Suc (bv_clock db) \<and>
                   db_enum_accepts (row_source r)"
    using old(1) by fastforce
  ultimately show ?thesis unfolding db' store_wf_def
    by (simp only: bv_db.select_convs list_all_iff set_append ball_Un)
qed

lemma bulk_batches_wf: "store_wf db \<Longrightarrow> store_wf (snd (bulk_batches db bss n))"
  by (induction bss arbitrary: db n) (auto split: sum.split intro: insert_statement_wf)

lemma delete_where_wf: "store_wf db \<Longrightarrow> store_wf (snd (delete_where db P))"
  by (fastforce simp: store_wf_def delete_where_def list_all_iff distinct_map_filter)

lemma store_step_wf: "store_wf db \<Longrightarrow> store_wf (store_step db op)"
proof (cases op)
  case (InsertOne d)
  assume wf: "store_wf db"
  show ?thesis using wf insert_statement_wf
    by (auto simp: InsertOne insertBrandVoiceEmbedding_def split: sum.split)
next
  case (InsertBulk ds)
  assume wf: "store_wf db"
  then show ?thesis
    by (simp add: InsertBulk bulkInsertBrandVoiceEmbeddings_def bulk_loop_batches bulk_batches_wf)
next
  case (DeleteByFile f)
  assume "store_wf db"
  then show ?thesis by (simp add: DeleteByFile deleteBrandVoiceEmbeddingsByFile_def delete_where_wf)
next
  case (DeleteBySource s)
  assume "store_wf db"
  then show ?thesis by (simp add: DeleteBySource deleteBrandVoiceEmbeddingsBySource_def delete_where_wf)
qed

lemma store_run_wf: "store_wf db \<Longrightarrow> store_wf (fold (\<lambda>op db. store_step db op) ops db)"
  by (induction ops arbitrary: db) (simp_all add: store_step_wf)

lemma empty_db_wf: "store_wf empty_db"
  by (simp add: store_wf_def empty_db_def)

lemma bulk_insert_ok:
  assumes "list_all ins_ok items"
  shows "\<exists>db'. bulkInsertBrandVoiceEmbeddings db items = (Inr (length items), db') \<and>
           (\<exists>new. bv_rows db' = bv_rows db @ new \<and> map row_payload new = map ins_norm items)"
proof (cases "items = []")
  case True
  then show ?thesis by (simp add: bulkInsertBrandVoiceEmbeddings_def)
next
  case False
  have pos: "0 < BULK_BATCH" by (simp add: BULK_BATCH_def)
  have "list_all (list_all ins_ok) (batches_from BULK_BATCH 0 items)"
    using assms concat_batches_from [OF pos, of 0 items] by (simp add: list_all_iff) (metis set_concat UN_I)
  from bulk_batches_all_ok [OF this, of db 0] False show ?thesis
    by (simp add: bulkInsertBrandVoiceEmbeddings_def bulk_loop_batches concat_batches_from [OF pos])
qed

lemma bulk_insert_fail:
  assumes "list_all ins_ok (take j items)" "\<not> ins_ok (items ! j)" "j < length items"
  shows "\<exists>db'. bulkInsertBrandVoiceEmbeddings db items = (Inl (enum_error (ins_source (items ! j))), db') \<and>
           (\<exists>new. bv_rows db' = bv_rows db @ new \<and> map row_payload new = map ins_norm (take (j div 50 * 50) items))"
proof -
  have pos: "0 < BULK_BATCH" by (simp add: BULK_BATCH_def)
  have ne: "items \<noteq> []" using assms(3) by auto
  from bulk_batches_fail_at [OF assms pos, of 0 db 0] show ?thesis
    by (simp add: bulkInsertBrandVoiceEmbeddings_def bulk_loop_batches ne BULK_BATCH_def)
qed

text \<open>A bulk insert that returns a count stored every item, and every item had an accepted source.\<close>

lemma bulk_insert_Inr:
  assumes "fst (bulkInsertBrandVoiceEmbeddings db items) = Inr n"
  shows "list_all ins_ok items \<and> n = length items"
proof (cases "list_all ins_ok items")
  case True
  then show ?thesis using bulk_insert_ok [OF True, of db] assms by auto
next
  case False
  then have "\<exists>x\<in>set items. \<not> ins_ok x" by (simp add: list_all_iff)
  then obtain ys x zs where s: "items = ys @ x # zs" "\<not> ins_ok x" "\<forall>y\<in>set ys. ins_ok y"
    using split_list_first_prop [of items "\<lambda>x. \<not> ins_ok x"] by auto
  have "list_all ins_ok (take (length ys) items)" "\<not> ins_ok (items ! length ys)" "length ys < length items"
    using s by (simp_all add: list_all_iff)
  from bulk_insert_fail [OF this, of db] assms show ?thesis by auto
qed

section \<open>Properties of the knowledge store\<close>

text \<open>C1: \<open>findSimilarBrandVoice\<close> returns at most \<open>limit\<close> results, in descending order of
  similarity, each a row of the table (of the requested source, when one is given), scored
  with the store's cosine similarity of its embedding, and none below \<open>minSimilarity\<close>.\<close>

theorem findSimilarBrandVoice_ranked:
  "sorted_wrt (\<lambda>x y. snd y \<le> snd x) (findSimilarBrandVoice db q limit minS src) \<and>
   length (findSimilarBrandVoice db q limit minS src) \<le> limit \<and>
   (\<forall>p\<in>set (findSimilarBrandVoice db q limit minS src).
      minS \<le> snd p \<and> snd p = store_cosineSimilarity q (row_embedding (fst p)) \<and>
      fst p \<in> set (bv_rows db) \<and> src_match src (fst p))"
  using findSimilar_sorted [of db q limit minS src] findSimilar_mem [of _ db q limit minS src] by blast

lemma demo_search: "findSimilarBrandVoice demo_db [1, 0] 1 0 None = [(demo_row 0 StyleGuide [1, 0], 1)]"
  by (simp add: findSimilarBrandVoice_def demo_db_def demo_row_def store_cosineSimilarity_def cos_core_def
      dot_mags_def rank_desc_def)

theorem findSimilarBrandVoice_ranked_witness:
  "findSimilarBrandVoice demo_db [1, 0] 1 0 None = [(demo_row 0 StyleGuide [1, 0], 1)] \<and>
   store_cosineSimilarity [1, 0] (row_embedding (demo_row 0 StyleGuide [1, 0])) = 1"
  using findSimilarBrandVoice_ranked [of demo_db "[1, 0]" 1 0 None] demo_search by simp

text \<open>C2: \<open>findSimilarBrandVoice\<close> is a top-k search: a row of the requested source that
  reaches \<open>minSimilarity\<close> but is not returned is left out only because \<open>limit\<close> results
  were returned, each at least as similar as it.\<close>

theorem findSimilarBrandVoice_topk:
  assumes "r \<in> set (bv_rows db)" "src_match src r"
    "minS \<le> store_cosineSimilarity q (row_embedding r)"
    "(r, store_cosineSimilarity q (row_embedding r)) \<notin> set (findSimilarBrandVoice db q limit minS src)"
  shows "length (findSimilarBrandVoice db q limit minS src) = limit \<and>
         (\<forall>p\<in>set (findSimilarBrandVoice db q limit minS src). store_cosineSimilarity q (row_embedding r) \<le> snd p)"
proof -
  let ?M = "filter (\<lambda>p. minS \<le> snd p)
        (map (\<lambda>r. (r, store_cosineSimilarity q (row_embedding r))) (filter (src_match src) (bv_rows db)))"
  let ?L = "rank_desc snd ?M"
  let ?p = "(r, store_cosineSimilarity q (row_embedding r))"
  have "?p \<in> set ?M" by (subst in_scored_iff) (simp add: assms(1-3))
  then have inL: "?p \<in> set ?L" by simp
  have notin: "?p \<notin> set (take limit ?L)" using assms(4) by (simp add: findSimilar_eq')
  have "set ?L = set (take limit ?L) \<union> set (drop limit ?L)"
    by (simp flip: set_append)
  with inL notin have indrop: "?p \<in> set (drop limit ?L)" by blast
  then have "drop limit ?L \<noteq> []" by auto
  then have "limit < length ?L" by simp
  then have len: "length (take limit ?L) = limit" by simp
  have "\<forall>p\<in>set (take limit ?L). snd ?p \<le> snd p"
    using sorted_wrt_take_drop [OF rank_desc_sorted _ indrop] by blast
  with len show ?thesis by (simp add: findSimilar_eq')
qed

theorem findSimilarBrandVoice_topk_witness:
  "demo_row 1 ExamplePost [0, 1] \<in> set (bv_rows demo_db) \<and> src_match None (demo_row 1 ExamplePost [0, 1]) \<and>
   0 \<le> store_cosineSimilarity [1, 0] (row_embedding (demo_row 1 ExamplePost [0, 1])) \<and>
   (demo_row 1 ExamplePost [0, 1], store_cosineSimilarity [1, 0] (row_embedding (demo_row 1 ExamplePost [0, 1])))
     \<notin> set (findSimilarBrandVoice demo_db [1, 0] 1 0 None) \<and>
   length (findSimilarBrandVoice demo_db [1, 0] 1 0 None) = 1"
proof -
  have sim: "store_cosineSimilarity [1, 0] (row_embedding (demo_row 1 ExamplePost [0, 1])) = 0"
    by (simp add: demo_row_def store_cosineSimilarity_def cos_core_def dot_mags_def)
  have h: "demo_row 1 ExamplePost [0, 1] \<in> set (bv_rows demo_db)" "src_match None (demo_row 1 ExamplePost [0, 1])"
    by (simp_all add: demo_db_def src_match_def)
  have h3: "(demo_row 1 ExamplePost [0, 1], 0) \<notin> set (findSimilarBrandVoice demo_db [1, 0] 1 0 None)"
    unfolding demo_search by (simp add: demo_row_def)
  show ?thesis using findSimilarBrandVoice_topk [of "demo_row 1 ExamplePost [0, 1]" demo_db None 0 "[1, 0]" 1] h h3 sim
    by simp
qed

text \<open>C3: \<open>bulkInsertBrandVoiceEmbeddings\<close> of inserts whose sources the database enum accepts
  returns their number and appends one row per insert, in order, storing exactly what was
  inserted (an empty \<open>source_file\<close> becomes \<open>NULL\<close>).\<close>

theorem bulkInsert_roundtrip:
  assumes "list_all ins_ok items"
  shows "\<exists>db'. bulkInsertBrandVoiceEmbeddings db items = (Inr (length items), db') \<and>
           (\<exists>new. bv_rows db' = bv_rows db @ new \<and> map row_payload new = map ins_norm items)"
  using assms by (rule bulk_insert_ok)

theorem bulkInsert_roundtrip_witness:
  "list_all ins_ok [demo_insert StyleGuide, demo_insert Feedback] \<and>
   (\<exists>db'. bulkInsertBrandVoiceEmbeddings empty_db [demo_insert StyleGuide, demo_insert Feedback] = (Inr 2, db') \<and>
      (\<exists>new. bv_rows db' = bv_rows empty_db @ new \<and>
             map row_payload new = map ins_norm [demo_insert StyleGuide, demo_insert Feedback]))"
proof -
  have h: "list_all ins_ok [demo_insert StyleGuide, demo_insert Feedback]" by (simp add: demo_insert_def)
  show ?thesis using bulkInsert_roundtrip [OF h, of empty_db] h by (simp add: numeral_2_eq_2)
qed

text \<open>\<open>bulkInsertBrandVoiceEmbeddings\<close> is not atomic: when the insert at position \<open>j\<close> is
  the first whose source the enum rejects, the call throws that rejection, yet the rows of
  every batch of 50 before the failing one stay in the table.\<close>

theorem bulkInsert_partial_failure:
  assumes "list_all ins_ok (take j items)" "\<not> ins_ok (items ! j)" "j < length items"
  shows "\<exists>db'. bulkInsertBrandVoiceEmbeddings db items = (Inl (enum_error (ins_source (items ! j))), db') \<and>
           (\<exists>new. bv_rows db' = bv_rows db @ new \<and> map row_payload new = map ins_norm (take (j div 50 * 50) items))"
  using assms by (rule bulk_insert_fail)

theorem bulkInsert_partial_failure_witness:
  "list_all ins_ok (take 50 (replicate 50 (demo_insert StyleGuide) @ [demo_insert KnowledgeBase])) \<and>
   \<not> ins_ok ((replicate 50 (demo_insert StyleGuide) @ [demo_insert KnowledgeBase]) ! 50) \<and>
   50 < length (replicate 50 (demo_insert StyleGuide) @ [demo_insert KnowledgeBase]) \<and>
   (\<exists>db'. bulkInsertBrandVoiceEmbeddings empty_db (replicate 50 (demo_insert StyleGuide) @ [demo_insert KnowledgeBase]) =
            (Inl (enum_error KnowledgeBase), db') \<and>
          (\<exists>new. bv_rows db' = new \<and> map row_payload new = replicate 50 (ins_norm (demo_insert StyleGuide))))"
proof -
  let ?xs = "replicate 50 (demo_insert StyleGuide) @ [demo_insert KnowledgeBase]"
  have h: "list_all ins_ok (take 50 ?xs)" "\<not> ins_ok (?xs ! 50)" "50 < length ?xs"
    by (simp_all add: demo_insert_def nth_append list_all_iff)
  show ?thesis using bulkInsert_partial_failure [OF h, of empty_db] h
    by (simp add: nth_append demo_insert_def empty_db_def)
qed

text \<open>\<open>deleteBrandVoiceEmbeddingsByFile\<close> returns the number of rows of that file, after
  it \<open>getBrandVoiceEmbeddingsByFile\<close> finds none, and every row of another file (or of no
  file) stays, in order.\<close>

theorem deleteByFile_removes_file:
  "fst (deleteBrandVoiceEmbeddingsByFile db f) = length (getBrandVoiceEmbeddingsByFile db f) \<and>
   getBrandVoiceEmbeddingsByFile (snd (deleteBrandVoiceEmbeddingsByFile db f)) f = [] \<and>
   bv_rows (snd (deleteBrandVoiceEmbeddingsByFile db f)) = filter (\<lambda>r. row_source_file r \<noteq> Some f) (bv_rows db)"
  by (simp add: deleteBrandVoiceEmbeddingsByFile_def getBrandVoiceEmbeddingsByFile_def delete_where_def
      filter_empty_conv)

text \<open>\<open>getBrandVoiceStats\<close> agrees with the queries: its per-file and per-source counts
  are the lengths of \<open>getBrandVoiceEmbeddingsByFile\<close> and \<open>getBrandVoiceEmbeddingsBySource\<close>
  (absent when zero), and its total is the sum over all sources.\<close>

theorem getBrandVoiceStats_consistent:
  "st_by_file (getBrandVoiceStats db) f =
     (if getBrandVoiceEmbeddingsByFile db f = [] then None else Some (length (getBrandVoiceEmbeddingsByFile db f))) \<and>
   st_by_source (getBrandVoiceStats db) (source_name s) =
     (if getBrandVoiceEmbeddingsBySource db s = [] then None else Some (length (getBrandVoiceEmbeddingsBySource db s))) \<and>
   st_total (getBrandVoiceStats db) =
     sum_list (map (\<lambda>s. length (getBrandVoiceEmbeddingsBySource db s)) [StyleGuide, ExamplePost, KnowledgeBase, Feedback, Other])"
  using group_count_file group_count_source stats_total_split by blast

text \<open>C4: Every state the writes of the store reach from the empty table satisfies the table
  invariant: distinct row identifiers below the next one, no row stamped after the clock,
  and only sources the \<open>brand_voice_source\<close> enum accepts.\<close>

theorem store_writes_keep_invariant:
  "store_wf (fold (\<lambda>op db. store_step db op) ops empty_db)"
  by (rule store_run_wf [OF empty_db_wf])

text \<open>The store's \<open>cosineSimilarity\<close> degrades instead of failing: it lies in [-1, 1],
  is 0 on vectors of different dimensions and on a zero vector, and is 1 for a non-zero
  vector with itself.\<close>

theorem store_cosineSimilarity_policy:
  "-1 \<le> store_cosineSimilarity a b \<and> store_cosineSimilarity a b \<le> 1 \<and>
   (length a \<noteq> length b \<longrightarrow> store_cosineSimilarity a b = 0) \<and>
   ((\<forall>x\<in>set a. x = 0) \<longrightarrow> store_cosineSimilarity a b = 0) \<and>
   ((\<exists>x\<in>set a. x \<noteq> 0) \<longrightarrow> store_cosineSimilarity a a = 1)"
  using cos_core_bounds [of a b] cos_core_zero_left [of a b] cos_core_self_lemma [of a]
  by (simp add: store_cosineSimilarity_def)

theorem store_cosineSimilarity_policy_witness:
  "store_cosineSimilarity [0, 0] [1] = 0 \<and> store_cosineSimilarity [0, 0] [1, 1] = 0 \<and>
   store_cosineSimilarity [2, 0] [2, 0] = 1"
  using store_cosineSimilarity_policy [of "[0, 0]" "[1]"] store_cosineSimilarity_policy [of "[0, 0]" "[1, 1]"]
    store_cosineSimilarity_policy [of "[2, 0]" "[2, 0]"]
  by simp

end
