(* ===== verification/Ingestion.thy ===== *)
theory Ingestion
  imports Chunker Knowledge_Store
begin

text \<open>The document ingestion pipeline (\<open>src/unnamed/part_006\<close>, the brand-voice ingestion
  service) and the PDF reader it calls (the \<open>pdf-reader\<close> module, \<open>src/lib/utils/hubspot.ts\<close>
  lines 543-646). The file system is a value: the files under their paths (a parseable PDF with
  its text, page count and title, or bytes \<open>pdf-parse\<close> rejects with a message) and the
  listing of each directory. \<open>ingestDocument\<close> threads the knowledge store through
  delete, chunk, embed and insert; every exception of the \<open>try\<close> block becomes the failed
  result of its \<open>catch\<close>, with the store as the failed statement left it. A chunking loop or an
  embedding loop that never ends makes the whole call \<open>None\<close>.\<close>

section \<open>The file system and the PDF reader\<close>

record pdf_content =
  pdf_text :: string
  pdf_numPages :: nat
  pdf_title :: "string option"

datatype file_entry = PdfBytes pdf_content | Corrupt string

record fsys =
  fs_files :: "string \<Rightarrow> file_entry option"
  fs_dirs :: "string \<Rightarrow> string list option"

definition path_join :: "string \<Rightarrow> string \<Rightarrow> string" where
  "path_join dir name = dir @ ''/'' @ name"

definition basename :: "string \<Rightarrow> string" where
  "basename p = rev (takeWhile (\<lambda>c. c \<noteq> CHR ''/'') (rev p))"

definition enoent :: "string \<Rightarrow> string \<Rightarrow> string" where
  "enoent syscall p = ''ENOENT: no such file or directory, '' @ syscall @ '' '' @ [CHR 0x27] @ p @ [CHR 0x27]"

text \<open>\<open>readPDF\<close>: \<open>fs.readFile\<close> then \<open>pdfParse\<close>; either failure is rethrown as
  \<open>Failed to read PDF: ...\<close>.\<close>

definition readPDF :: "fsys \<Rightarrow> string \<Rightarrow> error + pdf_content" where
  "readPDF fs filePath =
     (case fs_files fs filePath of
        None \<Rightarrow> Inl (PdfReadFailed (enoent ''open'' filePath))
      | Some (Corrupt m) \<Rightarrow> Inl (PdfReadFailed m)
      | Some (PdfBytes d) \<Rightarrow> Inr d)"

definition is_pdf_name :: "string \<Rightarrow> bool" where
  "is_pdf_name file = ends_with (to_lower file) ''.pdf''"

text \<open>The \<open>for\<close> loop of \<open>readPDFsFromDirectory\<close>: a file \<open>readPDF\<close> rejects is logged and
  left out of the \<open>Map\<close>, which keeps insertion order.\<close>

fun read_pdfs :: "fsys \<Rightarrow> string \<Rightarrow> string list \<Rightarrow> (string \<times> pdf_content) list" where
  "read_pdfs fs dir [] = []"
| "read_pdfs fs dir (file # files) =
     (case readPDF fs (path_join dir file) of
        Inl _ \<Rightarrow> read_pdfs fs dir files
      | Inr content \<Rightarrow> (file, content) # read_pdfs fs dir files)"

definition readPDFsFromDirectory :: "fsys \<Rightarrow> string \<Rightarrow> error + (string \<times> pdf_content) list" where
  "readPDFsFromDirectory fs dirPath =
     (case fs_dirs fs dirPath of
        None \<Rightarrow> Inl (FsFailed (enoent ''scandir'' dirPath))
      | Some files \<Rightarrow> Inr (read_pdfs fs dirPath (filter is_pdf_name files)))"

definition fileExists :: "fsys \<Rightarrow> string \<Rightarrow> bool" where
  "fileExists fs filePath = (fs_files fs filePath \<noteq> None)"

definition listPDFFiles :: "fsys \<Rightarrow> string \<Rightarrow> string list" where
  "listPDFFiles fs dirPath = (case fs_dirs fs dirPath of None \<Rightarrow> [] | Some files \<Rightarrow> filter is_pdf_name files)"

section \<open>Ingesting one document\<close>

record ingestion_options =
  io_chunkSize :: "nat option"
  io_chunkOverlap :: "nat option"
  io_source :: bv_source
  io_reIngest :: "bool option"

record ingest_stats =
  stat_pages :: nat
  stat_characters :: nat
  stat_chunks :: nat
  stat_embeddings :: nat
  stat_tokens :: nat

record ingestion_result =
  ir_success :: bool
  ir_fileName :: string
  ir_source :: bv_source
  ir_stats :: ingest_stats
  ir_errors :: "string list"

definition zero_stats :: ingest_stats where
  "zero_stats = \<lparr>stat_pages = 0, stat_characters = 0, stat_chunks = 0, stat_embeddings = 0, stat_tokens = 0\<rparr>"

text \<open>\<open>n || d\<close> on an optional number: \<open>undefined\<close> and \<open>0\<close> both give \<open>d\<close>.\<close>

definition js_or_default :: "nat option \<Rightarrow> nat \<Rightarrow> nat" where
  "js_or_default x d = (case x of None \<Rightarrow> d | Some n \<Rightarrow> if n = 0 then d else n)"

definition ingest_chunk_options :: "ingestion_options \<Rightarrow> chunking_options" where
  "ingest_chunk_options options =
     \<lparr>co_chunkSize = Some (js_or_default (io_chunkSize options) 1000),
      co_chunkOverlap = Some (js_or_default (io_chunkOverlap options) 200),
      co_separators = None, co_preserveWhitespace = None\<rparr>"

text \<open>The metadata given to every chunk; an \<open>undefined\<close> title is dropped when stored.\<close>

definition doc_metadata :: "string \<Rightarrow> bv_source \<Rightarrow> pdf_content \<Rightarrow> jobj" where
  "doc_metadata fileName source pdf =
     [(''fileName'', JStr fileName), (''source'', JStr (source_name source))] @
     (case pdf_title pdf of None \<Rightarrow> [] | Some t \<Rightarrow> [(''title'', JStr t)]) @
     [(''numPages'', JNum (pdf_numPages pdf))]"

text \<open>One element of \<open>embeddingsResult.embeddings.map((emb, index) => ...)\<close>: reading
  \<open>chunks[index].metadata\<close> past the end of \<open>chunks\<close> throws a \<open>TypeError\<close>.\<close>

definition embedding_row ::
  "bv_source \<Rightarrow> string \<Rightarrow> chunk list \<Rightarrow> nat \<times> embedding_result \<Rightarrow> error + bv_insert"
where
  "embedding_row source fileName chunks p =
     (case p of (index, emb) \<Rightarrow>
       (case nth_opt chunks index of
          None \<Rightarrow> Inl (TypeErr ''metadata'')
        | Some ch \<Rightarrow>
            (let text = (case er_text emb of None \<Rightarrow> [] | Some t \<Rightarrow> t)
             in Inr \<lparr>ins_source = source, ins_source_file = Some fileName, ins_text = text,
                     ins_embedding = er_embedding emb,
                     ins_metadata = Some (obj_merge (case ch_metadata ch of None \<Rightarrow> [] | Some m \<Rightarrow> m)
                        [(''chunkIndex'', JNum (ch_index ch)), (''model'', JStr (model_name (er_model emb))),
                         (''dimensions'', JNum (er_dimensions emb)),
                         (''estimatedTokens'', JNum (estimateTokenCount text))])\<rparr>)))"

text \<open>\<open>if (options.reIngest) await deleteBrandVoiceEmbeddingsByFile(fileName)\<close>.\<close>

definition reingest_db :: "ingestion_options \<Rightarrow> bv_db \<Rightarrow> string \<Rightarrow> bv_db" where
  "reingest_db options db fileName =
     (if io_reIngest options = Some True then snd (deleteBrandVoiceEmbeddingsByFile db fileName) else db)"

text \<open>The \<open>try\<close> block of \<open>ingestDocument\<close>: the statistics, or the error it throws, with the
  store after the last statement it ran.\<close>

definition ingest_steps ::
  "provider \<Rightarrow> fsys \<Rightarrow> bv_db \<Rightarrow> string \<Rightarrow> ingestion_options \<Rightarrow> ((error + ingest_stats) \<times> bv_db) option"
where
  "ingest_steps prov fs db filePath options =
     (let fileName = basename filePath in
      if \<not> fileExists fs filePath then Some (Inl (FileNotFound filePath), db)
      else
        (let db1 = reingest_db options db fileName
         in case readPDF fs filePath of
              Inl e \<Rightarrow> Some (Inl e, db1)
            | Inr pdfContent \<Rightarrow>
               (case chunkTextWithMetadata (pdf_text pdfContent)
                       (doc_metadata fileName (io_source options) pdfContent) (ingest_chunk_options options) of
                  None \<Rightarrow> None
                | Some chunks \<Rightarrow>
                   (case generateEmbeddingsBatch prov (map ch_text chunks) Small 100 of
                      None \<Rightarrow> None
                    | Some (_, Inl e) \<Rightarrow> Some (Inl e, db1)
                    | Some (_, Inr embeddingsResult) \<Rightarrow>
                       (case map_throw (embedding_row (io_source options) fileName chunks)
                               (enumerate 0 (be_embeddings embeddingsResult)) of
                          Inl e \<Rightarrow> Some (Inl e, db1)
                        | Inr embeddingsToStore \<Rightarrow>
                           (case bulkInsertBrandVoiceEmbeddings db1 embeddingsToStore of
                              (Inl e, db2) \<Rightarrow> Some (Inl e, db2)
                            | (Inr stored, db2) \<Rightarrow>
                                Some (Inr \<lparr>stat_pages = pdf_numPages pdfContent,
                                           stat_characters = length (pdf_text pdfContent),
                                           stat_chunks = length chunks, stat_embeddings = stored,
                                           stat_tokens = be_total_tokens embeddingsResult\<rparr>, db2)))))))"

definition ingestDocument ::
  "provider \<Rightarrow> fsys \<Rightarrow> bv_db \<Rightarrow> string \<Rightarrow> ingestion_options \<Rightarrow> (ingestion_result \<times> bv_db) option"
where
  "ingestDocument prov fs db filePath options =
     map_option (\<lambda>(r, db').
       (case r of
          Inr stats \<Rightarrow> \<lparr>ir_success = True, ir_fileName = basename filePath, ir_source = io_source options,
                         ir_stats = stats, ir_errors = []\<rparr>
        | Inl e \<Rightarrow> \<lparr>ir_success = False, ir_fileName = basename filePath, ir_source = io_source options,
                     ir_stats = zero_stats, ir_errors = [err_message e]\<rparr>, db'))
       (ingest_steps prov fs db filePath options)"

section \<open>Ingesting a directory\<close>

definition infer_source :: "string \<Rightarrow> bv_source" where
  "infer_source fileName =
     (if str_includes (to_lower fileName) ''style'' then StyleGuide
      else if str_includes (to_lower fileName) ''knowledge'' then KnowledgeBase
      else Other)"

text \<open>The \<open>for (const [fileName, _content] of pdfs)\<close> loop: each document is ingested with
  \<open>{ ...options, source }\<close>, in order, against the store the previous one left.\<close>

fun ingest_each ::
  "provider \<Rightarrow> fsys \<Rightarrow> string \<Rightarrow> ingestion_options \<Rightarrow> bv_db \<Rightarrow> string list \<Rightarrow>
     (ingestion_result list \<times> bv_db) option"
where
  "ingest_each prov fs dir options db [] = Some ([], db)"
| "ingest_each prov fs dir options db (fileName # rest) =
     (case ingestDocument prov fs db (path_join dir fileName) (options\<lparr>io_source := infer_source fileName\<rparr>) of
        None \<Rightarrow> None
      | Some (r, db') \<Rightarrow>
          (case ingest_each prov fs dir options db' rest of
             None \<Rightarrow> None
           | Some (rs, db'') \<Rightarrow> Some (r # rs, db'')))"

definition add_stats :: "ingest_stats \<Rightarrow> ingest_stats \<Rightarrow> ingest_stats" where
  "add_stats acc s =
     \<lparr>stat_pages = stat_pages acc + stat_pages s, stat_characters = stat_characters acc + stat_characters s,
      stat_chunks = stat_chunks acc + stat_chunks s, stat_embeddings = stat_embeddings acc + stat_embeddings s,
      stat_tokens = stat_tokens acc + stat_tokens s\<rparr>"

record ingest_all_result =
  ia_success :: bool
  ia_results :: "ingestion_result list"
  ia_totalStats :: ingest_stats

definition ingestAllDocuments ::
  "provider \<Rightarrow> fsys \<Rightarrow> bv_db \<Rightarrow> string \<Rightarrow> ingestion_options \<Rightarrow> ((error + ingest_all_result) \<times> bv_db) option"
where
  "ingestAllDocuments prov fs db documentsDir options =
     (case readPDFsFromDirectory fs documentsDir of
        Inl e \<Rightarrow> Some (Inl e, db)
      | Inr pdfs \<Rightarrow>
          (if pdfs = [] then Some (Inr \<lparr>ia_success = True, ia_results = [], ia_totalStats = zero_stats\<rparr>, db)
           else
             (case ingest_each prov fs documentsDir options db (map fst pdfs) of
                None \<Rightarrow> None
              | Some (results, db') \<Rightarrow>
                  Some (Inr \<lparr>ia_success = list_all ir_success results, ia_results = results,
                             ia_totalStats = foldl add_stats zero_stats (map ir_stats results)\<rparr>, db'))))"

section \<open>Specification helpers\<close>

text \<open>The row \<open>ingestDocument\<close> stores for a chunk when the provider embeds each text \<open>t\<close>
  as \<open>f t\<close> with the small model.\<close>

definition chunk_insert :: "bv_source \<Rightarrow> string \<Rightarrow> (string \<Rightarrow> vec) \<Rightarrow> chunk \<Rightarrow> bv_insert" where
  "chunk_insert source fileName f ch =
     \<lparr>ins_source = source, ins_source_file = Some fileName, ins_text = ch_text ch, ins_embedding = f (ch_text ch),
      ins_metadata = Some (obj_merge (case ch_metadata ch of None \<Rightarrow> [] | Some m \<Rightarrow> m)
        [(''chunkIndex'', JNum (ch_index ch)), (''model'', JStr (model_name Small)),
         (''dimensions'', JNum (length (f (ch_text ch)))),
         (''estimatedTokens'', JNum (estimateTokenCount (ch_text ch)))])\<rparr>"

text \<open>A provider that embeds every text, as \<open>f\<close>, charging \<open>tk\<close> tokens per request.\<close>

definition total_provider :: "(string \<Rightarrow> vec) \<Rightarrow> (string list \<Rightarrow> nat) \<Rightarrow> provider" where
  "total_provider f tk = (\<lambda>m b. Inr (map f b, tk b))"

text \<open>The result \<open>ingestDocument\<close> returns from its \<open>catch\<close> block.\<close>

definition failed_result :: "string \<Rightarrow> ingestion_options \<Rightarrow> error \<Rightarrow> ingestion_result" where
  "failed_result filePath options e =
     \<lparr>ir_success = False, ir_fileName = basename filePath, ir_source = io_source options,
      ir_stats = zero_stats, ir_errors = [err_message e]\<rparr>"

text \<open>Sample inputs: a directory with a readable style guide, a PDF \<open>pdf-parse\<close> rejects and a
  text file; a store that already holds a row of the style guide and one of another file.\<close>

definition demo_pdf :: pdf_content where
  "demo_pdf = \<lparr>pdf_text = ''Our tone is friendly and direct.'', pdf_numPages = 1, pdf_title = None\<rparr>"

definition demo_fs :: fsys where
  "demo_fs = \<lparr>fs_files = (\<lambda>p. if p = ''docs/style-guide.pdf'' then Some (PdfBytes demo_pdf)
                              else if p = ''docs/broken.pdf'' then Some (Corrupt ''Invalid PDF structure'')
                              else if p = ''docs/notes.txt'' then Some (Corrupt ''not a PDF'') else None),
              fs_dirs = (\<lambda>d. if d = ''docs'' then Some [''notes.txt'', ''broken.pdf'', ''style-guide.pdf''] else None)\<rparr>"

definition demo_options :: "bv_source \<Rightarrow> ingestion_options" where
  "demo_options s = \<lparr>io_chunkSize = None, io_chunkOverlap = None, io_source = s, io_reIngest = Some True\<rparr>"

definition demo_chunk :: "bv_source \<Rightarrow> chunk" where
  "demo_chunk s = \<lparr>ch_text = ''Our tone is friendly and direct.'', ch_index = 0, ch_start = 0, ch_end = 32,
     ch_metadata = Some (doc_metadata ''style-guide.pdf'' s demo_pdf)\<rparr>"

definition demo_old_db :: bv_db where
  "demo_old_db = \<lparr>bv_rows = [(demo_row 0 StyleGuide [1, 0])\<lparr>row_source_file := Some ''style-guide.pdf''\<rparr>,
                              demo_row 1 ExamplePost [0, 1]], bv_next_id = 2, bv_clock = 1\<rparr>"

section \<open>Lemmas on one ingestion\<close>

lemma generateEmbeddingsBatch_100:
  "generateEmbeddingsBatch prov texts model 100 =
     Some (embed_batches prov model (batches 100 texts) [] 0 [])"
  by (simp add: generateEmbeddingsBatch_def embed_loop_batches)

lemma generateEmbeddingsBatch_total:
  "generateEmbeddingsBatch (total_provider f tk) texts model 100 =
     Some (batches 100 texts,
           Inr \<lparr>be_embeddings = map (emb_of model f) texts,
                be_total_tokens = sum_list (map tk (batches 100 texts)), be_model = model\<rparr>)"
  by (simp add: generateEmbeddingsBatch_100 total_provider_def embed_batches_faithful concat_batches_from)

lemma embedding_rows_total:
  "map_throw (embedding_row source fileName chunks) (enumerate 0 (map (emb_of Small f \<circ> ch_text) chunks)) =
     Inr (map (chunk_insert source fileName f) chunks)"
proof -
  have "map_throw (embedding_row source fileName chunks) (enumerate 0 (map (emb_of Small f \<circ> ch_text) chunks)) =
          Inr (map (\<lambda>(i, e). chunk_insert source fileName f (chunks ! i)) (enumerate 0 (map (emb_of Small f \<circ> ch_text) chunks)))"
    by (rule map_throw_Inr_map)
       (auto simp: in_set_enumerate_eq embedding_row_def nth_opt_def chunk_insert_def emb_of_def Let_def)
  also have "map (\<lambda>(i, e). chunk_insert source fileName f (chunks ! i)) (enumerate 0 (map (emb_of Small f \<circ> ch_text) chunks)) =
               map (chunk_insert source fileName f) chunks"
    by (rule nth_equalityI) (simp_all add: nth_enumerate_eq)
  finally show ?thesis .
qed

lemma ingest_steps_unfold:
  assumes "fs_files fs filePath = Some (PdfBytes pdf)"
    and "chunkTextWithMetadata (pdf_text pdf) (doc_metadata (basename filePath) (io_source options) pdf)
           (ingest_chunk_options options) = Some chunks"
  shows "ingest_steps (total_provider f tk) fs db filePath options =
    (case bulkInsertBrandVoiceEmbeddings (reingest_db options db (basename filePath))
            (map (chunk_insert (io_source options) (basename filePath) f) chunks) of
       (Inl e, db2) \<Rightarrow> Some (Inl e, db2)
     | (Inr stored, db2) \<Rightarrow>
         Some (Inr \<lparr>stat_pages = pdf_numPages pdf, stat_characters = length (pdf_text pdf),
                    stat_chunks = length chunks, stat_embeddings = stored,
                    stat_tokens = sum_list (map tk (batches 100 (map ch_text chunks)))\<rparr>, db2))"
  using assms by (simp add: ingest_steps_def fileExists_def readPDF_def generateEmbeddingsBatch_total
      embedding_rows_total Let_def split: prod.split sum.split)


lemma payload_fields:
  assumes "map row_payload new = map ins_norm items"
  shows "map row_source_file new = map (\<lambda>d. sf_column (ins_source_file d)) items"
    "map row_text new = map ins_text items" "map row_source new = map ins_source items"
proof -
  have "map (ins_source_file \<circ> row_payload) new = map (ins_source_file \<circ> ins_norm) items"
    "map (ins_text \<circ> row_payload) new = map (ins_text \<circ> ins_norm) items"
    "map (ins_source \<circ> row_payload) new = map (ins_source \<circ> ins_norm) items"
    using arg_cong [OF assms, of "map ins_source_file"] arg_cong [OF assms, of "map ins_text"]
      arg_cong [OF assms, of "map ins_source"] by simp_all
  then show "map row_source_file new = map (\<lambda>d. sf_column (ins_source_file d)) items"
    "map row_text new = map ins_text items" "map row_source new = map ins_source items"
    by (simp_all add: row_payload_def ins_norm_def comp_def)
qed

lemma chunk_inserts_ok:
  "db_enum_accepts source \<Longrightarrow> list_all ins_ok (map (chunk_insert source fileName f) chunks)"
  by (simp add: list_all_iff chunk_insert_def)

lemma ingestDocument_shape:
  assumes "ingestDocument prov fs db filePath options = Some (r, db')"
  shows "ir_fileName r = basename filePath \<and> ir_source r = io_source options \<and>
    (ir_success r \<longleftrightarrow> ir_errors r = []) \<and>
    (\<not> ir_success r \<longrightarrow> ir_stats r = zero_stats \<and> (\<exists>m. ir_errors r = [m]))"
proof -
  obtain x where x: "ingest_steps prov fs db filePath options = Some (x, db')"
    and rx: "r = (case x of
          Inr stats \<Rightarrow> \<lparr>ir_success = True, ir_fileName = basename filePath, ir_source = io_source options,
                         ir_stats = stats, ir_errors = []\<rparr>
        | Inl e \<Rightarrow> \<lparr>ir_success = False, ir_fileName = basename filePath, ir_source = io_source options,
                     ir_stats = zero_stats, ir_errors = [err_message e]\<rparr>)"
    using assms by (auto simp: ingestDocument_def)
  show ?thesis by (cases x) (simp_all add: rx)
qed

lemma ingestDocument_options_cong:
  assumes "ingest_chunk_options o1 = ingest_chunk_options o2" "io_source o1 = io_source o2"
    "io_reIngest o1 = Some True \<longleftrightarrow> io_reIngest o2 = Some True"
  shows "ingestDocument prov fs db filePath o1 = ingestDocument prov fs db filePath o2"
proof -
  have "reingest_db o1 = reingest_db o2" using assms(3) by (simp add: reingest_db_def fun_eq_iff)
  then have "ingest_steps prov fs db filePath o1 = ingest_steps prov fs db filePath o2"
    using assms(1,2) by (simp only: ingest_steps_def)
  then show ?thesis using assms(2) by (simp only: ingestDocument_def)
qed

lemma embedding_row_source:
  "embedding_row source fileName chunks p = Inr d \<Longrightarrow> ins_source d = source"
  by (auto simp: embedding_row_def Let_def split: option.splits prod.splits)

lemma ingest_steps_Inr:
  assumes "ingest_steps prov fs db filePath options = Some (Inr st, db')"
  shows "\<exists>items. fst (bulkInsertBrandVoiceEmbeddings (reingest_db options db (basename filePath)) items) =
      Inr (stat_embeddings st) \<and> (\<forall>d\<in>set items. ins_source d = io_source options)"
  using assms
  apply (simp add: ingest_steps_def Let_def split: if_splits sum.splits option.splits prod.splits)
  subgoal for pdf chunks b calls c res items e n
    by (rule exI [of _ items]) (auto dest: map_throw_Inr_elem embedding_row_source)
  done

lemma read_pdfs_spec:
  "map fst (read_pdfs fs dir files) = filter (\<lambda>f. \<exists>d. fs_files fs (path_join dir f) = Some (PdfBytes d)) files \<and>
   (\<forall>p\<in>set (read_pdfs fs dir files). fs_files fs (path_join dir (fst p)) = Some (PdfBytes (snd p)))"
  by (induction files) (auto simp: readPDF_def split: option.splits file_entry.splits)

lemma ingest_each_shape:
  "ingest_each prov fs dir options db names = Some (rs, db') \<Longrightarrow>
     map ir_fileName rs = map (\<lambda>f. basename (path_join dir f)) names \<and> map ir_source rs = map infer_source names"
proof (induction names arbitrary: db rs)
  case Nil then show ?case by simp
next
  case (Cons f names)
  then obtain r db1 rs' where r: "ingestDocument prov fs db (path_join dir f) (options\<lparr>io_source := infer_source f\<rparr>) = Some (r, db1)"
    and rest: "ingest_each prov fs dir options db1 names = Some (rs', db')" and rs: "rs = r # rs'"
    by (auto split: option.splits)
  from ingestDocument_shape [OF r] Cons.IH [OF rest] show ?case by (simp add: rs)
qed

lemma demo_basename [simp]: "basename ''docs/style-guide.pdf'' = ''style-guide.pdf''"
  by (simp add: basename_def)

lemma demo_pdf_fields [simp]: "pdf_numPages demo_pdf = 1" "length (pdf_text demo_pdf) = 32"
  by (simp_all add: demo_pdf_def)

lemma demo_chunks:
  "chunkTextWithMetadata (pdf_text demo_pdf) (doc_metadata (basename ''docs/style-guide.pdf'') s demo_pdf)
     (ingest_chunk_options (demo_options s)) = Some [demo_chunk s]"
  unfolding demo_basename demo_chunk_def by code_simp

lemma demo_file: "fs_files demo_fs ''docs/style-guide.pdf'' = Some (PdfBytes demo_pdf)"
  by (simp add: demo_fs_def)

lemma demo_run:
  "(case ingestDocument (total_provider (\<lambda>t. [1, 0]) (\<lambda>b. 8)) demo_fs empty_db ''docs/style-guide.pdf'' (demo_options StyleGuide) of
      Some (r, db') \<Rightarrow> ir_success r \<and> 0 < stat_embeddings (ir_stats r) | None \<Rightarrow> False)"
  by code_simp

lemma demo_all_run:
  "(case ingestAllDocuments (total_provider (\<lambda>t. [1, 0]) (\<lambda>b. 8)) demo_fs empty_db ''docs'' (demo_options Other) of
      Some (Inr a, db') \<Rightarrow> True | _ \<Rightarrow> False)"
  by code_simp

lemma demo_names: "\<not> is_pdf_name ''notes.txt''" "is_pdf_name ''broken.pdf''" "is_pdf_name ''style-guide.pdf''"
  "infer_source ''style-guide.pdf'' = StyleGuide"
  by code_simp+

lemma demo_listing: "readPDFsFromDirectory demo_fs ''docs'' = Inr [(''style-guide.pdf'', demo_pdf)]"
  by code_simp

section \<open>Properties of ingestion\<close>

lemma ingestDocument_success_run:
  assumes pdf: "fs_files fs filePath = Some (PdfBytes pdf)"
    and ch: "chunkTextWithMetadata (pdf_text pdf) (doc_metadata (basename filePath) (io_source options) pdf)
           (ingest_chunk_options options) = Some chunks"
    and ok: "db_enum_accepts (io_source options)"
  shows "\<exists>db' new. ingestDocument (total_provider f tk) fs db filePath options =
      Some (\<lparr>ir_success = True, ir_fileName = basename filePath, ir_source = io_source options,
              ir_stats = \<lparr>stat_pages = pdf_numPages pdf, stat_characters = length (pdf_text pdf),
                          stat_chunks = length chunks, stat_embeddings = length chunks,
                          stat_tokens = sum_list (map tk (batches 100 (map ch_text chunks)))\<rparr>,
              ir_errors = []\<rparr>, db') \<and>
      bv_rows db' = bv_rows (reingest_db options db (basename filePath)) @ new \<and>
      map row_payload new = map ins_norm (map (chunk_insert (io_source options) (basename filePath) f) chunks)"
proof -
  let ?items = "map (chunk_insert (io_source options) (basename filePath) f) chunks"
  let ?st = "\<lparr>stat_pages = pdf_numPages pdf, stat_characters = length (pdf_text pdf),
                stat_chunks = length chunks, stat_embeddings = length chunks,
                stat_tokens = sum_list (map tk (batches 100 (map ch_text chunks)))\<rparr>"
  obtain db' new where b: "bulkInsertBrandVoiceEmbeddings (reingest_db options db (basename filePath)) ?items =
      (Inr (length ?items), db')" "bv_rows db' = bv_rows (reingest_db options db (basename filePath)) @ new"
      "map row_payload new = map ins_norm ?items"
    using bulk_insert_ok [OF chunk_inserts_ok [OF ok]] by blast
  have "ingest_steps (total_provider f tk) fs db filePath options = Some (Inr ?st, db')"
    unfolding ingest_steps_unfold [OF pdf ch] b(1) by simp
  then have "ingestDocument (total_provider f tk) fs db filePath options =
      Some (\<lparr>ir_success = True, ir_fileName = basename filePath, ir_source = io_source options,
              ir_stats = ?st, ir_errors = []\<rparr>, db')"
    by (simp add: ingestDocument_def)
  then show ?thesis using b(2,3) by blast
qed

text \<open>C10: A readable PDF whose source the database accepts is ingested: the result reports success
  with the page, character, chunk and token counts, one stored embedding per chunk, and the
  store gains exactly the rows of the chunks, in order, after whatever the re-ingest deletion left.\<close>

theorem ingestDocument_success:
  assumes pdf: "fs_files fs filePath = Some (PdfBytes pdf)"
    and ch: "chunkTextWithMetadata (pdf_text pdf) (doc_metadata (basename filePath) (io_source options) pdf)
           (ingest_chunk_options options) = Some chunks"
    and ok: "db_enum_accepts (io_source options)"
  shows "\<exists>db' new. ingestDocument (total_provider f tk) fs db filePath options =
      Some (\<lparr>ir_success = True, ir_fileName = basename filePath, ir_source = io_source options,
              ir_stats = \<lparr>stat_pages = pdf_numPages pdf, stat_characters = length (pdf_text pdf),
                          stat_chunks = length chunks, stat_embeddings = length chunks,
                          stat_tokens = sum_list (map tk (batches 100 (map ch_text chunks)))\<rparr>,
              ir_errors = []\<rparr>, db') \<and>
      bv_rows db' = bv_rows (reingest_db options db (basename filePath)) @ new \<and>
      map row_payload new = map ins_norm (map (chunk_insert (io_source options) (basename filePath) f) chunks)"
  by (rule ingestDocument_success_run [OF pdf ch ok])

theorem ingestDocument_success_witness:
  "fs_files demo_fs ''docs/style-guide.pdf'' = Some (PdfBytes demo_pdf) \<and>
   chunkTextWithMetadata (pdf_text demo_pdf) (doc_metadata (basename ''docs/style-guide.pdf'') (io_source (demo_options StyleGuide)) demo_pdf)
     (ingest_chunk_options (demo_options StyleGuide)) = Some [demo_chunk StyleGuide] \<and>
   db_enum_accepts (io_source (demo_options StyleGuide)) \<and>
   (\<exists>db' new. ingestDocument (total_provider (\<lambda>t. [1, 0]) (\<lambda>b. 8)) demo_fs empty_db ''docs/style-guide.pdf'' (demo_options StyleGuide) =
      Some (\<lparr>ir_success = True, ir_fileName = ''style-guide.pdf'', ir_source = StyleGuide,
              ir_stats = \<lparr>stat_pages = 1, stat_characters = 32, stat_chunks = 1, stat_embeddings = 1, stat_tokens = 8\<rparr>,
              ir_errors = []\<rparr>, db') \<and>
      bv_rows db' = new \<and>
      map row_payload new = [ins_norm (chunk_insert StyleGuide ''style-guide.pdf'' (\<lambda>t. [1, 0]) (demo_chunk StyleGuide))])"
proof -
  have h: "fs_files demo_fs ''docs/style-guide.pdf'' = Some (PdfBytes demo_pdf)"
    "chunkTextWithMetadata (pdf_text demo_pdf) (doc_metadata (basename ''docs/style-guide.pdf'') (io_source (demo_options StyleGuide)) demo_pdf)
     (ingest_chunk_options (demo_options StyleGuide)) = Some [demo_chunk StyleGuide]"
    "db_enum_accepts (io_source (demo_options StyleGuide))"
    using demo_file demo_chunks [of StyleGuide] by (simp_all add: demo_options_def)
  have e: "bv_rows (reingest_db (demo_options StyleGuide) empty_db ''style-guide.pdf'') = []"
    by (simp add: reingest_db_def demo_options_def deleteBrandVoiceEmbeddingsByFile_def delete_where_def empty_db_def)
  show ?thesis
    using ingestDocument_success [OF h, of "\<lambda>t. [1, 0]" "\<lambda>b. 8" empty_db] h e
    by (simp add: demo_options_def demo_chunk_def batches_from.simps)
qed

text \<open>C11: Re-ingesting a document replaces it: afterwards the rows of that file are exactly the
  new chunks, and the rows of every other file are unchanged.\<close>

theorem ingestDocument_reingest_replaces:
  assumes pdf: "fs_files fs filePath = Some (PdfBytes pdf)"
    and ch: "chunkTextWithMetadata (pdf_text pdf) (doc_metadata (basename filePath) (io_source options) pdf)
           (ingest_chunk_options options) = Some chunks"
    and ok: "db_enum_accepts (io_source options)" and re: "io_reIngest options = Some True"
    and fn: "basename filePath \<noteq> []"
  shows "\<exists>r db'. ingestDocument (total_provider f tk) fs db filePath options = Some (r, db') \<and> ir_success r \<and>
      map row_text (filter (\<lambda>row. row_source_file row = Some (basename filePath)) (bv_rows db')) = map ch_text chunks \<and>
      filter (\<lambda>row. row_source_file row \<noteq> Some (basename filePath)) (bv_rows db') =
        filter (\<lambda>row. row_source_file row \<noteq> Some (basename filePath)) (bv_rows db)"
proof -
  let ?fn = "basename filePath"
  let ?items = "map (chunk_insert (io_source options) ?fn f) chunks"
  obtain db' new where res: "ingestDocument (total_provider f tk) fs db filePath options =
      Some (\<lparr>ir_success = True, ir_fileName = ?fn, ir_source = io_source options,
              ir_stats = \<lparr>stat_pages = pdf_numPages pdf, stat_characters = length (pdf_text pdf),
                          stat_chunks = length chunks, stat_embeddings = length chunks,
                          stat_tokens = sum_list (map tk (batches 100 (map ch_text chunks)))\<rparr>,
              ir_errors = []\<rparr>, db')"
    and rows: "bv_rows db' = bv_rows (reingest_db options db ?fn) @ new"
    and pay: "map row_payload new = map ins_norm ?items"
    using ingestDocument_success_run [OF pdf ch ok, of f tk db] by (elim exE conjE)
  have del: "bv_rows (reingest_db options db ?fn) = filter (\<lambda>row. row_source_file row \<noteq> Some ?fn) (bv_rows db)"
    using re by (simp add: reingest_db_def deleteBrandVoiceEmbeddingsByFile_def delete_where_def)
  have sf: "map row_source_file new = map (\<lambda>_. Some ?fn) chunks"
    using payload_fields(1) [OF pay] fn by (simp add: chunk_insert_def sf_column_def comp_def)
  have all: "\<forall>row\<in>set new. row_source_file row = Some ?fn"
  proof
    fix row assume "row \<in> set new"
    then have "row_source_file row \<in> set (map row_source_file new)" by simp
    then show "row_source_file row = Some ?fn" unfolding sf by auto
  qed
  have texts: "map row_text new = map ch_text chunks"
    using payload_fields(2) [OF pay] by (simp add: chunk_insert_def comp_def)
  have f1: "filter (\<lambda>row. row_source_file row = Some ?fn) new = new"
    using all by (simp add: filter_id_conv)
  have f2: "filter (\<lambda>row. row_source_file row \<noteq> Some ?fn) new = []"
    using all by (simp add: filter_empty_conv)
  have "filter (\<lambda>row. row_source_file row = Some ?fn) (bv_rows db') = new"
    unfolding rows del filter_append f1 by (simp add: filter_filter)
  moreover have "filter (\<lambda>row. row_source_file row \<noteq> Some ?fn) (bv_rows db') =
                   filter (\<lambda>row. row_source_file row \<noteq> Some ?fn) (bv_rows db)"
    unfolding rows del filter_append f2 by (simp add: filter_filter)
  ultimately show ?thesis using res texts by fastforce
qed

theorem ingestDocument_reingest_replaces_witness:
  "fs_files demo_fs ''docs/style-guide.pdf'' = Some (PdfBytes demo_pdf) \<and>
   chunkTextWithMetadata (pdf_text demo_pdf) (doc_metadata (basename ''docs/style-guide.pdf'') (io_source (demo_options StyleGuide)) demo_pdf)
     (ingest_chunk_options (demo_options StyleGuide)) = Some [demo_chunk StyleGuide] \<and>
   db_enum_accepts (io_source (demo_options StyleGuide)) \<and> io_reIngest (demo_options StyleGuide) = Some True \<and>
   basename ''docs/style-guide.pdf'' \<noteq> [] \<and>
   (\<exists>r db'. ingestDocument (total_provider (\<lambda>t. [1, 0]) (\<lambda>b. 8)) demo_fs demo_old_db ''docs/style-guide.pdf'' (demo_options StyleGuide) = Some (r, db') \<and>
      ir_success r \<and>
      map row_text (filter (\<lambda>row. row_source_file row = Some ''style-guide.pdf'') (bv_rows db')) = [''Our tone is friendly and direct.''] \<and>
      filter (\<lambda>row. row_source_file row \<noteq> Some ''style-guide.pdf'') (bv_rows db') = [demo_row 1 ExamplePost [0, 1]])"
proof -
  have h: "fs_files demo_fs ''docs/style-guide.pdf'' = Some (PdfBytes demo_pdf)"
    "chunkTextWithMetadata (pdf_text demo_pdf) (doc_metadata (basename ''docs/style-guide.pdf'') (io_source (demo_options StyleGuide)) demo_pdf)
     (ingest_chunk_options (demo_options StyleGuide)) = Some [demo_chunk StyleGuide]"
    "db_enum_accepts (io_source (demo_options StyleGuide))" "io_reIngest (demo_options StyleGuide) = Some True"
    "basename ''docs/style-guide.pdf'' \<noteq> []"
    using demo_file demo_chunks [of StyleGuide] by (simp_all add: demo_options_def)
  have o: "filter (\<lambda>row. row_source_file row \<noteq> Some ''style-guide.pdf'') (bv_rows demo_old_db) = [demo_row 1 ExamplePost [0, 1]]"
    by (simp add: demo_old_db_def demo_row_def)
  show ?thesis
    using ingestDocument_reingest_replaces [OF h, of "\<lambda>t. [1, 0]" "\<lambda>b. 8" demo_old_db] h o
    by (simp add: demo_chunk_def)
qed

text \<open>Re-ingesting a document under a source the database enum rejects (\<open>knowledge_base\<close>,
  \<open>other\<close>) deletes the document's old rows and then fails on the first insert: the result
  is a failure with the enum error and the store has lost that file's rows.\<close>

theorem ingestDocument_rejected_source:
  assumes pdf: "fs_files fs filePath = Some (PdfBytes pdf)"
    and ch: "chunkTextWithMetadata (pdf_text pdf) (doc_metadata (basename filePath) (io_source options) pdf)
           (ingest_chunk_options options) = Some chunks"
    and ne: "chunks \<noteq> []" and bad: "\<not> db_enum_accepts (io_source options)" and re: "io_reIngest options = Some True"
  shows "\<exists>r db'. ingestDocument (total_provider f tk) fs db filePath options = Some (r, db') \<and>
      \<not> ir_success r \<and> ir_errors r = [err_message (enum_error (io_source options))] \<and>
      bv_rows db' = filter (\<lambda>row. row_source_file row \<noteq> Some (basename filePath)) (bv_rows db)"
proof -
  let ?fn = "basename filePath"
  let ?items = "map (chunk_insert (io_source options) ?fn f) chunks"
  have "list_all ins_ok (take 0 ?items)" "\<not> ins_ok (?items ! 0)" "0 < length ?items"
    using ne bad by (auto simp: chunk_insert_def)
  from bulk_insert_fail [OF this] obtain db' new where
    b: "bulkInsertBrandVoiceEmbeddings (reingest_db options db ?fn) ?items =
          (Inl (enum_error (ins_source (?items ! 0))), db')"
      "bv_rows db' = bv_rows (reingest_db options db ?fn) @ new" "map row_payload new = map ins_norm (take (0 div 50 * 50) ?items)"
    by blast
  have "new = []" using b(3) by simp
  moreover have "ins_source (?items ! 0) = io_source options" using ne by (simp add: chunk_insert_def)
  moreover have "bv_rows (reingest_db options db ?fn) = filter (\<lambda>row. row_source_file row \<noteq> Some ?fn) (bv_rows db)"
    using re by (simp add: reingest_db_def deleteBrandVoiceEmbeddingsByFile_def delete_where_def)
  ultimately have rows: "bv_rows db' = filter (\<lambda>row. row_source_file row \<noteq> Some ?fn) (bv_rows db)"
    and err: "enum_error (ins_source (?items ! 0)) = enum_error (io_source options)"
    using b(2) by simp_all
  have "ingest_steps (total_provider f tk) fs db filePath options = Some (Inl (enum_error (io_source options)), db')"
    unfolding ingest_steps_unfold [OF pdf ch] b(1) err by simp
  then have "ingestDocument (total_provider f tk) fs db filePath options =
      Some (\<lparr>ir_success = False, ir_fileName = ?fn, ir_source = io_source options,
              ir_stats = zero_stats, ir_errors = [err_message (enum_error (io_source options))]\<rparr>, db')"
    by (simp add: ingestDocument_def)
  then show ?thesis using rows by fastforce
qed

theorem ingestDocument_rejected_source_witness:
  "fs_files demo_fs ''docs/style-guide.pdf'' = Some (PdfBytes demo_pdf) \<and>
   chunkTextWithMetadata (pdf_text demo_pdf) (doc_metadata (basename ''docs/style-guide.pdf'') (io_source (demo_options KnowledgeBase)) demo_pdf)
     (ingest_chunk_options (demo_options KnowledgeBase)) = Some [demo_chunk KnowledgeBase] \<and>
   [demo_chunk KnowledgeBase] \<noteq> [] \<and> \<not> db_enum_accepts (io_source (demo_options KnowledgeBase)) \<and>
   io_reIngest (demo_options KnowledgeBase) = Some True \<and>
   (\<exists>r db'. ingestDocument (total_provider (\<lambda>t. [1, 0]) (\<lambda>b. 8)) demo_fs demo_old_db ''docs/style-guide.pdf'' (demo_options KnowledgeBase) = Some (r, db') \<and>
      \<not> ir_success r \<and> ir_errors r = [err_message (enum_error KnowledgeBase)] \<and>
      bv_rows db' = [demo_row 1 ExamplePost [0, 1]])"
proof -
  have h: "fs_files demo_fs ''docs/style-guide.pdf'' = Some (PdfBytes demo_pdf)"
    "chunkTextWithMetadata (pdf_text demo_pdf) (doc_metadata (basename ''docs/style-guide.pdf'') (io_source (demo_options KnowledgeBase)) demo_pdf)
     (ingest_chunk_options (demo_options KnowledgeBase)) = Some [demo_chunk KnowledgeBase]"
    "[demo_chunk KnowledgeBase] \<noteq> []" "\<not> db_enum_accepts (io_source (demo_options KnowledgeBase))"
    "io_reIngest (demo_options KnowledgeBase) = Some True"
    using demo_file demo_chunks [of KnowledgeBase] by (simp_all add: demo_options_def)
  have o: "filter (\<lambda>row. row_source_file row \<noteq> Some ''style-guide.pdf'') (bv_rows demo_old_db) = [demo_row 1 ExamplePost [0, 1]]"
    by (simp add: demo_old_db_def demo_row_def)
  show ?thesis
    using ingestDocument_rejected_source [OF h, of "\<lambda>t. [1, 0]" "\<lambda>b. 8" demo_old_db] h o
    by (simp add: demo_options_def)
qed

text \<open>A successful ingestion that stored an embedding used a source the database accepts, so a
  file classified as \<open>knowledge_base\<close> or \<open>other\<close> can never be stored.\<close>

theorem ingestDocument_stored_source:
  assumes "ingestDocument prov fs db filePath options = Some (r, db')" and "ir_success r"
    and "0 < stat_embeddings (ir_stats r)"
  shows "db_enum_accepts (io_source options)"
proof -
  obtain x where x: "ingest_steps prov fs db filePath options = Some (x, db')"
    and rx: "r = (case x of
          Inr stats \<Rightarrow> \<lparr>ir_success = True, ir_fileName = basename filePath, ir_source = io_source options,
                         ir_stats = stats, ir_errors = []\<rparr>
        | Inl e \<Rightarrow> \<lparr>ir_success = False, ir_fileName = basename filePath, ir_source = io_source options,
                     ir_stats = zero_stats, ir_errors = [err_message e]\<rparr>)"
    using assms(1) by (auto simp: ingestDocument_def)
  obtain st where st: "x = Inr st" "ir_stats r = st" using assms(2) rx by (cases x) simp_all
  obtain items where "fst (bulkInsertBrandVoiceEmbeddings (reingest_db options db (basename filePath)) items) =
      Inr (stat_embeddings st)" and src: "\<forall>d\<in>set items. ins_source d = io_source options"
    using ingest_steps_Inr [OF x [unfolded st(1)]] by blast
  from bulk_insert_Inr [OF this(1)] have "list_all ins_ok items" "stat_embeddings st = length items" by simp_all
  with assms(3) st(2) src obtain d where "d \<in> set items" "ins_ok d" "ins_source d = io_source options"
    by (cases items) auto
  then show ?thesis by simp
qed

theorem ingestDocument_stored_source_witness:
  "(case ingestDocument (total_provider (\<lambda>t. [1, 0]) (\<lambda>b. 8)) demo_fs empty_db ''docs/style-guide.pdf'' (demo_options StyleGuide) of
      Some (r, db') \<Rightarrow> ir_success r \<and> 0 < stat_embeddings (ir_stats r) | None \<Rightarrow> False) \<and>
   db_enum_accepts (io_source (demo_options StyleGuide))"
proof -
  obtain r db' where r: "ingestDocument (total_provider (\<lambda>t. [1, 0]) (\<lambda>b. 8)) demo_fs empty_db ''docs/style-guide.pdf'' (demo_options StyleGuide) = Some (r, db')"
    "ir_success r" "0 < stat_embeddings (ir_stats r)"
    using demo_run by (auto split: option.splits)
  show ?thesis using ingestDocument_stored_source [OF r] demo_run by simp
qed

text \<open>A missing file fails with \<open>File not found\<close> before anything is deleted; a file
  \<open>pdf-parse\<close> rejects fails with \<open>Failed to read PDF\<close> after the re-ingest deletion.\<close>

theorem ingestDocument_read_errors:
  "(fs_files fs filePath = None \<longrightarrow>
      ingestDocument prov fs db filePath options = Some (failed_result filePath options (FileNotFound filePath), db)) \<and>
   (fs_files fs filePath = Some (Corrupt m) \<longrightarrow>
      ingestDocument prov fs db filePath options =
        Some (failed_result filePath options (PdfReadFailed m), reingest_db options db (basename filePath)))"
  by (simp add: ingestDocument_def ingest_steps_def fileExists_def readPDF_def failed_result_def Let_def)

theorem ingestDocument_read_errors_witness:
  "fs_files demo_fs ''docs/missing.pdf'' = None \<and>
   ingestDocument (total_provider (\<lambda>t. [1, 0]) (\<lambda>b. 8)) demo_fs demo_old_db ''docs/missing.pdf'' (demo_options StyleGuide) =
     Some (failed_result ''docs/missing.pdf'' (demo_options StyleGuide) (FileNotFound ''docs/missing.pdf''), demo_old_db) \<and>
   fs_files demo_fs ''docs/broken.pdf'' = Some (Corrupt ''Invalid PDF structure'') \<and>
   bv_rows (snd (the (ingestDocument (total_provider (\<lambda>t. [1, 0]) (\<lambda>b. 8)) demo_fs demo_old_db ''docs/broken.pdf'' (demo_options StyleGuide)))) =
     bv_rows demo_old_db"
proof -
  have a: "fs_files demo_fs ''docs/missing.pdf'' = None" "fs_files demo_fs ''docs/broken.pdf'' = Some (Corrupt ''Invalid PDF structure'')"
    by (simp_all add: demo_fs_def)
  have b: "basename ''docs/broken.pdf'' = ''broken.pdf''" by (simp add: basename_def)
  have c: "bv_rows (reingest_db (demo_options StyleGuide) demo_old_db ''broken.pdf'') = bv_rows demo_old_db"
    by (simp add: reingest_db_def demo_options_def deleteBrandVoiceEmbeddingsByFile_def delete_where_def
        demo_old_db_def demo_row_def)
  show ?thesis
    using ingestDocument_read_errors [of demo_fs "''docs/missing.pdf''" "total_provider (\<lambda>t. [1, 0]) (\<lambda>b. 8)" demo_old_db "demo_options StyleGuide"]
      ingestDocument_read_errors [of demo_fs "''docs/broken.pdf''" "total_provider (\<lambda>t. [1, 0]) (\<lambda>b. 8)" demo_old_db "demo_options StyleGuide"
        "''Invalid PDF structure''"] a b c
    by simp
qed

text \<open>\<open>chunkOverlap: 0\<close> is treated as absent: the \<open>||\<close> default replaces it by 200.\<close>

theorem ingestDocument_overlap_zero:
  "ingestDocument prov fs db filePath (options\<lparr>io_chunkOverlap := Some 0\<rparr>) =
   ingestDocument prov fs db filePath (options\<lparr>io_chunkOverlap := None\<rparr>)"
  by (rule ingestDocument_options_cong) (simp_all add: ingest_chunk_options_def js_or_default_def)

text \<open>With the defaults (or any options whose effective overlap plus 200 stays below the
  effective chunk size) and a provider that answers, \<open>ingestDocument\<close> returns.\<close>

theorem ingestDocument_terminates:
  assumes "js_or_default (io_chunkOverlap options) 200 + 200 < js_or_default (io_chunkSize options) 1000"
  shows "\<exists>r. ingestDocument prov fs db filePath options = Some r"
proof -
  have "\<And>text. \<exists>cs. chunkText text (ingest_chunk_options options) = Some cs"
    using assms by (intro chunkText_total) (simp_all add: resolve_chunking_def ingest_chunk_options_def)
  then have "\<And>text md. \<exists>cs. chunkTextWithMetadata text md (ingest_chunk_options options) = Some cs"
    by (simp add: chunkTextWithMetadata_def)
  note ch = this
  have "\<exists>x. ingest_steps prov fs db filePath options = Some x"
  proof (cases "fileExists fs filePath")
    case False
    then show ?thesis by (simp add: ingest_steps_def)
  next
    case True
    show ?thesis
    proof (cases "readPDF fs filePath")
      case (Inl e)
      then show ?thesis using True by (simp add: ingest_steps_def Let_def)
    next
      case (Inr pdf)
      obtain chunks where c: "chunkTextWithMetadata (pdf_text pdf)
          (doc_metadata (basename filePath) (io_source options) pdf) (ingest_chunk_options options) = Some chunks"
        using ch by blast
      obtain t where g: "generateEmbeddingsBatch prov (map ch_text chunks) Small 100 = Some t"
        by (simp add: generateEmbeddingsBatch_100)
      show ?thesis using True Inr c g
        by (simp add: ingest_steps_def Let_def split: prod.split sum.split)
    qed
  qed
  then show ?thesis by (auto simp: ingestDocument_def)
qed

theorem ingestDocument_terminates_witness:
  "js_or_default (io_chunkOverlap (demo_options Other)) 200 + 200 < js_or_default (io_chunkSize (demo_options Other)) 1000 \<and>
   (\<exists>r. ingestDocument (total_provider (\<lambda>t. [1, 0]) (\<lambda>b. 8)) demo_fs empty_db ''docs/style-guide.pdf'' (demo_options Other) = Some r)"
proof -
  have h: "js_or_default (io_chunkOverlap (demo_options Other)) 200 + 200 < js_or_default (io_chunkSize (demo_options Other)) 1000"
    by (simp add: demo_options_def js_or_default_def)
  show ?thesis using ingestDocument_terminates [OF h] h by simp
qed

text \<open>C12: Reading a directory keeps, in listing order, exactly the \<open>.pdf\<close> files that parse;
  unreadable PDFs are skipped without an error.\<close>

theorem readPDFsFromDirectory_skips_unreadable:
  assumes "fs_dirs fs dir = Some files"
  shows "\<exists>pdfs. readPDFsFromDirectory fs dir = Inr pdfs \<and>
    map fst pdfs = filter (\<lambda>f. is_pdf_name f \<and> (\<exists>d. fs_files fs (path_join dir f) = Some (PdfBytes d))) files \<and>
    (\<forall>p\<in>set pdfs. fs_files fs (path_join dir (fst p)) = Some (PdfBytes (snd p)))"
  using assms read_pdfs_spec [of fs dir "filter is_pdf_name files"]
  by (simp add: readPDFsFromDirectory_def filter_filter conj_commute)

theorem readPDFsFromDirectory_skips_unreadable_witness:
  "fs_dirs demo_fs ''docs'' = Some [''notes.txt'', ''broken.pdf'', ''style-guide.pdf''] \<and>
   (\<exists>pdfs. readPDFsFromDirectory demo_fs ''docs'' = Inr pdfs \<and> map fst pdfs = [''style-guide.pdf''])"
proof -
  have d: "fs_dirs demo_fs ''docs'' = Some [''notes.txt'', ''broken.pdf'', ''style-guide.pdf'']"
    by (simp add: demo_fs_def)
  have f: "filter (\<lambda>f. is_pdf_name f \<and> (\<exists>d. fs_files demo_fs (path_join ''docs'' f) = Some (PdfBytes d)))
             [''notes.txt'', ''broken.pdf'', ''style-guide.pdf''] = [''style-guide.pdf'']"
    by (simp add: demo_names path_join_def demo_fs_def)
  show ?thesis using readPDFsFromDirectory_skips_unreadable [OF d] d f by auto
qed

text \<open>Ingesting a directory produces one result per readable PDF, in order, each under its
  file name and the source inferred from that name (whatever \<open>options.source\<close> says), and
  reports success exactly when every document succeeded.\<close>

theorem ingestAllDocuments_per_document:
  assumes "readPDFsFromDirectory fs dir = Inr pdfs"
    and "ingestAllDocuments prov fs db dir options = Some (Inr a, db')"
  shows "map ir_fileName (ia_results a) = map (\<lambda>p. basename (path_join dir (fst p))) pdfs \<and>
    map ir_source (ia_results a) = map (\<lambda>p. infer_source (fst p)) pdfs \<and>
    ia_success a = list_all ir_success (ia_results a)"
proof (cases "pdfs = []")
  case True
  then show ?thesis using assms by (auto simp: ingestAllDocuments_def)
next
  case False
  then obtain rs db1 where e: "ingest_each prov fs dir options db (map fst pdfs) = Some (rs, db1)"
    and a: "a = \<lparr>ia_success = list_all ir_success rs, ia_results = rs,
                 ia_totalStats = foldl add_stats zero_stats (map ir_stats rs)\<rparr>"
    using assms by (auto simp: ingestAllDocuments_def split: option.splits)
  from ingest_each_shape [OF e] show ?thesis by (simp add: a comp_def)
qed

theorem ingestAllDocuments_per_document_witness:
  "readPDFsFromDirectory demo_fs ''docs'' = Inr [(''style-guide.pdf'', demo_pdf)] \<and>
   (\<exists>a db'. ingestAllDocuments (total_provider (\<lambda>t. [1, 0]) (\<lambda>b. 8)) demo_fs empty_db ''docs'' (demo_options Other) = Some (Inr a, db') \<and>
      map ir_fileName (ia_results a) = [''style-guide.pdf''] \<and> map ir_source (ia_results a) = [StyleGuide] \<and>
      ia_success a = list_all ir_success (ia_results a))"
proof -
  obtain a db' where r: "ingestAllDocuments (total_provider (\<lambda>t. [1, 0]) (\<lambda>b. 8)) demo_fs empty_db ''docs'' (demo_options Other) = Some (Inr a, db')"
    using demo_all_run by (auto split: option.splits sum.splits)
  have s: "infer_source ''style-guide.pdf'' = StyleGuide" "basename (path_join ''docs'' ''style-guide.pdf'') = ''style-guide.pdf''"
    by (simp_all add: demo_names basename_def path_join_def)
  show ?thesis using ingestAllDocuments_per_document [OF demo_listing r] demo_listing r s by auto
qed

end
