(* ===== verification/Retrieval.thy ===== *)
theory Retrieval
  imports Knowledge_Store
begin

text \<open>The retrieval layer of \<open>src/lib/ai/brand-voice-rag.ts\<close>: a query is embedded with
  \<open>generateEmbedding\<close> (theory \<open>Embeddings\<close>) and the table of the knowledge store is searched
  with \<open>findSimilarBrandVoice\<close> (theory \<open>Knowledge_Store\<close>); the hits become \<open>BrandVoiceContext\<close>
  values, which \<open>formatBrandVoiceForPrompt\<close> renders for the prompt. Each exported function is a
  function of the embedding provider and the store's state; the two reads of
  \<open>getComprehensiveBrandVoice\<close> touch no shared state, so \<open>Promise.all\<close> is their sequence.\<close>

section \<open>Data\<close>

record bv_context =
  ctx_text :: string
  ctx_source :: bv_source
  ctx_source_file :: "string option"
  ctx_similarity :: real
  ctx_metadata :: "jobj option"

text \<open>\<open>RAGOptions\<close>: every field is optional; \<open>None\<close> is an absent key.\<close>

record rag_options =
  opt_topK :: "nat option"
  opt_minSimilarity :: "real option"
  opt_sources :: "bv_source list option"
  opt_includeMetadata :: "bool option"

definition no_options :: rag_options where
  "no_options = \<lparr>opt_topK = None, opt_minSimilarity = None, opt_sources = None, opt_includeMetadata = None\<rparr>"

text \<open>\<open>{ ...DEFAULT_OPTIONS, ...options }\<close> with \<open>DEFAULT_OPTIONS\<close> = topK 5,
  minSimilarity 0.7, includeMetadata true; \<open>sources\<close> has no default.\<close>

record rag_resolved =
  rr_topK :: nat
  rr_minSimilarity :: real
  rr_sources :: "bv_source list option"
  rr_includeMetadata :: bool

definition resolve :: "rag_options \<Rightarrow> rag_resolved" where
  "resolve options = \<lparr>rr_topK = (case opt_topK options of None \<Rightarrow> 5 | Some k \<Rightarrow> k),
     rr_minSimilarity = (case opt_minSimilarity options of None \<Rightarrow> 7 / 10 | Some m \<Rightarrow> m),
     rr_sources = opt_sources options,
     rr_includeMetadata = (case opt_includeMetadata options of None \<Rightarrow> True | Some b \<Rightarrow> b)\<rparr>"

section \<open>Retrieval\<close>

text \<open>\<open>results.map(result => ({text, source, sourceFile, similarity, metadata}))\<close>.\<close>

fun to_context :: "bool \<Rightarrow> bv_row \<times> real \<Rightarrow> bv_context" where
  "to_context incl (r, sim) =
     \<lparr>ctx_text = row_text r, ctx_source = row_source r, ctx_source_file = row_source_file r,
      ctx_similarity = sim, ctx_metadata = (if incl then row_metadata r else None)\<rparr>"

text \<open>\<open>retrieveBrandVoiceContext\<close>: the search is called with \<open>topK\<close> and \<open>minSimilarity\<close> only,
  so its \<open>source\<close> argument is \<open>undefined\<close> (\<open>None\<close>) whatever \<open>opts.sources\<close> holds. A failure of
  the embedding is rethrown with the prefix of the \<open>catch\<close>.\<close>

definition retrieveBrandVoiceContext ::
  "provider \<Rightarrow> bv_db \<Rightarrow> string \<Rightarrow> rag_options \<Rightarrow> error + bv_context list"
where
  "retrieveBrandVoiceContext prov db query options =
     (let opts = resolve options in
      case generateEmbedding prov query DEFAULT_MODEL of
        Inl e \<Rightarrow> Inl (RetrievalFailed (err_message e))
      | Inr queryEmbeddingResult \<Rightarrow>
          Inr (map (to_context (rr_includeMetadata opts))
                 (findSimilarBrandVoice db (er_embedding queryEmbeddingResult)
                    (rr_topK opts) (rr_minSimilarity opts) None)))"

definition guidelines_query :: "string \<Rightarrow> string option \<Rightarrow> string" where
  "guidelines_query contentType platform =
     (if js_truthy_str platform
      then ''Guidelines for '' @ contentType @ '' on '' @ the platform @ '' social media''
      else ''Guidelines for '' @ contentType)"

definition getBrandVoiceGuidelines ::
  "provider \<Rightarrow> bv_db \<Rightarrow> string \<Rightarrow> string option \<Rightarrow> error + bv_context list"
where
  "getBrandVoiceGuidelines prov db contentType platform =
     retrieveBrandVoiceContext prov db (guidelines_query contentType platform)
       \<lparr>opt_topK = Some 3, opt_minSimilarity = Some (65 / 100), opt_sources = Some [StyleGuide],
        opt_includeMetadata = None\<rparr>"

definition getBrandVoiceExamples ::
  "provider \<Rightarrow> bv_db \<Rightarrow> string \<Rightarrow> string \<Rightarrow> error + bv_context list"
where
  "getBrandVoiceExamples prov db topic postType =
     retrieveBrandVoiceContext prov db (''Example '' @ postType @ '' post about '' @ topic)
       \<lparr>opt_topK = Some 5, opt_minSimilarity = Some (7 / 10), opt_sources = Some [ExamplePost, KnowledgeBase],
        opt_includeMetadata = None\<rparr>"

section \<open>Prompt formatting\<close>

definition NO_CONTEXT_MSG :: string where
  "NO_CONTEXT_MSG = ''No specific brand voice guidelines found for this context.''"

text \<open>\<open>context.metadata?.section\<close> when truthy, rendered by the template literal. The metadata
  is a JSON object with distinct keys.\<close>

definition meta_section :: "jobj option \<Rightarrow> string option" where
  "meta_section md =
     (case md of None \<Rightarrow> None
      | Some m \<Rightarrow> (case map_of m ''section'' of
                    None \<Rightarrow> None
                  | Some (JStr s) \<Rightarrow> (if s = [] then None else Some s)
                  | Some (JNum n) \<Rightarrow> (if n = 0 then None else Some (nat_str n))
                  | Some (JBool b) \<Rightarrow> (if b then Some ''true'' else None)))"

definition ctx_section :: "nat \<Rightarrow> bv_context \<Rightarrow> string" where
  "ctx_section n c =
     ''[Brand Voice Reference '' @ nat_str n @ '']'' @
     (if js_truthy_str (ctx_source_file c) then '' (from '' @ the (ctx_source_file c) @ '')'' else []) @
     nl @ ctx_text c @
     (case meta_section (ctx_metadata c) of None \<Rightarrow> [] | Some s \<Rightarrow> nl @ ''Section: '' @ s)"

definition SECTION_SEP :: string where
  "SECTION_SEP = nl @ nl @ ''---'' @ nl @ nl"

definition formatBrandVoiceForPrompt :: "bv_context list \<Rightarrow> string" where
  "formatBrandVoiceForPrompt contexts =
     (if contexts = [] then NO_CONTEXT_MSG
      else join_str SECTION_SEP (map (\<lambda>(index, c). ctx_section (index + 1) c) (enumerate 0 contexts)))"

section \<open>Composite reads\<close>

record comprehensive_voice =
  cv_guidelines :: "bv_context list"
  cv_examples :: "bv_context list"
  cv_formattedContext :: string

definition getComprehensiveBrandVoice ::
  "provider \<Rightarrow> bv_db \<Rightarrow> string \<Rightarrow> string \<Rightarrow> string \<Rightarrow> string \<Rightarrow> error + comprehensive_voice"
where
  "getComprehensiveBrandVoice prov db contentSummary contentType platform postType =
     (case getBrandVoiceGuidelines prov db contentType (Some platform) of
        Inl e \<Rightarrow> Inl e
      | Inr guidelines \<Rightarrow>
          (case getBrandVoiceExamples prov db contentSummary postType of
             Inl e \<Rightarrow> Inl e
           | Inr examples \<Rightarrow>
               Inr \<lparr>cv_guidelines = guidelines, cv_examples = examples,
                    cv_formattedContext = formatBrandVoiceForPrompt (guidelines @ examples)\<rparr>))"

definition isBrandVoiceInitialized :: "bv_db \<Rightarrow> bool" where
  "isBrandVoiceInitialized db = (0 < st_total (getBrandVoiceStats db))"

record debug_info =
  dbg_initialized :: bool
  dbg_totalEmbeddings :: nat
  dbg_bySource :: "string \<Rightarrow> nat option"
  dbg_byFile :: "string \<Rightarrow> nat option"

definition getBrandVoiceDebugInfo :: "bv_db \<Rightarrow> debug_info" where
  "getBrandVoiceDebugInfo db =
     (let stats = getBrandVoiceStats db in
      \<lparr>dbg_initialized = (0 < st_total stats), dbg_totalEmbeddings = st_total stats,
       dbg_bySource = st_by_source stats, dbg_byFile = st_by_file stats\<rparr>)"

section \<open>Sample inputs\<close>

text \<open>A provider that embeds every text as \<open>[0, 1]\<close>, and a query result for it.\<close>

definition demo_prov :: provider where
  "demo_prov model texts = Inr (map (\<lambda>_. [0, 1]) texts, length texts)"

definition demo_ctx :: "nat \<Rightarrow> string \<Rightarrow> jobj option \<Rightarrow> bv_context" where
  "demo_ctx k txt md = \<lparr>ctx_text = txt, ctx_source = StyleGuide, ctx_source_file = Some ''guide.pdf'',
     ctx_similarity = of_nat k, ctx_metadata = md\<rparr>"

section \<open>Lemmas on retrieval and formatting\<close>

lemma to_context_fields [simp]:
  "ctx_text (to_context b p) = row_text (fst p)"
  "ctx_source (to_context b p) = row_source (fst p)"
  "ctx_source_file (to_context b p) = row_source_file (fst p)"
  "ctx_similarity (to_context b p) = snd p"
  by (cases p; simp)+

lemma retrieve_Inr:
  "generateEmbedding prov q DEFAULT_MODEL = Inr er \<Longrightarrow>
   retrieveBrandVoiceContext prov db q opts =
     Inr (map (to_context (rr_includeMetadata (resolve opts)))
       (findSimilarBrandVoice db (er_embedding er) (rr_topK (resolve opts)) (rr_minSimilarity (resolve opts)) None))"
  by (simp add: retrieveBrandVoiceContext_def Let_def)

lemma retrieve_Inl:
  "generateEmbedding prov q DEFAULT_MODEL = Inl e \<Longrightarrow>
   retrieveBrandVoiceContext prov db q opts = Inl (RetrievalFailed (err_message e))"
  by (simp add: retrieveBrandVoiceContext_def)

lemma generateEmbedding_fails:
  "prov DEFAULT_MODEL [q] = Inl m \<Longrightarrow> generateEmbedding prov q DEFAULT_MODEL = Inl (EmbeddingFailed m)"
  by (simp add: generateEmbedding_def)

lemma ctx_section_parts:
  "str_includes (ctx_section n c) (''[Brand Voice Reference '' @ nat_str n @ '']'')"
  "str_includes (ctx_section n c) (ctx_text c)"
  "meta_section (ctx_metadata c) = Some s \<Longrightarrow> str_includes (ctx_section n c) (''Section: '' @ s)"
proof -
  let ?h = "''[Brand Voice Reference '' @ nat_str n @ '']''"
  let ?f = "if js_truthy_str (ctx_source_file c) then '' (from '' @ the (ctx_source_file c) @ '')'' else []"
  let ?m = "case meta_section (ctx_metadata c) of None \<Rightarrow> [] | Some s \<Rightarrow> nl @ ''Section: '' @ s"
  have "ctx_section n c = [] @ ?h @ (?f @ nl @ ctx_text c @ ?m)" by (simp add: ctx_section_def)
  then show "str_includes (ctx_section n c) ?h" by (metis str_includes_infix)
  have "ctx_section n c = (?h @ ?f @ nl) @ ctx_text c @ ?m" by (simp add: ctx_section_def)
  then show "str_includes (ctx_section n c) (ctx_text c)" by (metis str_includes_infix)
  show "str_includes (ctx_section n c) (''Section: '' @ s)" if "meta_section (ctx_metadata c) = Some s"
  proof -
    from that have "ctx_section n c = (?h @ ?f @ nl @ ctx_text c @ nl) @ (''Section: '' @ s) @ []"
      by (simp add: ctx_section_def)
    then show ?thesis by (metis str_includes_infix)
  qed
qed

lemma format_section:
  assumes "i < length cs"
  shows "str_includes (formatBrandVoiceForPrompt cs) (ctx_section (Suc i) (cs ! i))"
proof -
  let ?secs = "map (\<lambda>(index, c). ctx_section (index + 1) c) (enumerate 0 cs)"
  have ne: "cs \<noteq> []" using assms by auto
  have "?secs ! i = ctx_section (Suc i) (cs ! i)" using assms by (simp add: nth_enumerate_eq)
  moreover have "i < length ?secs" using assms by simp
  ultimately have "ctx_section (Suc i) (cs ! i) \<in> set ?secs" by (metis nth_mem)
  then show ?thesis using ne by (simp add: formatBrandVoiceForPrompt_def join_str_includes)
qed

lemma demo_embedding:
  "generateEmbedding demo_prov q DEFAULT_MODEL =
     Inr \<lparr>er_embedding = [0, 1], er_text = Some q, er_model = DEFAULT_MODEL, er_dimensions = 2\<rparr>"
  by (simp add: generateEmbedding_def demo_prov_def)

lemma demo_retrieval:
  "0 < m \<Longrightarrow> m \<le> 1 \<Longrightarrow>
   findSimilarBrandVoice demo_db [0, 1] k m None = take k [(demo_row 1 ExamplePost [0, 1], 1)]"
  by (simp add: findSimilarBrandVoice_def demo_db_def demo_row_def store_cosineSimilarity_def cos_core_def
      dot_mags_def rank_desc_def)

section \<open>Properties of retrieval\<close>

text \<open>\<open>retrieveBrandVoiceContext\<close> ignores the \<open>sources\<close> option: whatever sources are asked
  for, the result is the same, because the search is called without a source filter.\<close>

theorem retrieveBrandVoiceContext_ignores_sources:
  "retrieveBrandVoiceContext prov db q (opts\<lparr>opt_sources := srcs\<rparr>) = retrieveBrandVoiceContext prov db q opts"
  by (simp add: retrieveBrandVoiceContext_def resolve_def Let_def split: sum.split)

text \<open>\<open>getBrandVoiceGuidelines\<close>, which asks for \<open>style_guide\<close> rows only, returns an
  \<open>example_post\<close> row when that row is the nearest to the query.\<close>

theorem getBrandVoiceGuidelines_returns_example_post:
  "getBrandVoiceGuidelines demo_prov demo_db ''hashtags'' (Some ''LinkedIn'') =
     Inr [to_context True (demo_row 1 ExamplePost [0, 1], 1)]"
  by (simp add: getBrandVoiceGuidelines_def retrieve_Inr [OF demo_embedding] demo_retrieval resolve_def)

text \<open>C5: when the query is embedded, \<open>retrieveBrandVoiceContext\<close> succeeds with at most
  \<open>topK\<close> contexts (default 5), in descending order of similarity, none below
  \<open>minSimilarity\<close> (default 0.7), each the text, source and file of a stored row scored by the
  cosine similarity of its embedding with the query's.\<close>

theorem retrieveBrandVoiceContext_ranked:
  assumes "generateEmbedding prov q DEFAULT_MODEL = Inr er"
  shows "\<exists>cs. retrieveBrandVoiceContext prov db q opts = Inr cs \<and>
     length cs \<le> rr_topK (resolve opts) \<and>
     sorted_wrt (\<lambda>x y. ctx_similarity y \<le> ctx_similarity x) cs \<and>
     (\<forall>c\<in>set cs. rr_minSimilarity (resolve opts) \<le> ctx_similarity c \<and>
        (\<exists>r\<in>set (bv_rows db). ctx_text c = row_text r \<and> ctx_source c = row_source r \<and>
            ctx_source_file c = row_source_file r \<and>
            ctx_similarity c = store_cosineSimilarity (er_embedding er) (row_embedding r)))"
proof -
  let ?F = "findSimilarBrandVoice db (er_embedding er) (rr_topK (resolve opts)) (rr_minSimilarity (resolve opts)) None"
  let ?cs = "map (to_context (rr_includeMetadata (resolve opts))) ?F"
  have r: "retrieveBrandVoiceContext prov db q opts = Inr ?cs" using assms by (rule retrieve_Inr)
  have s: "sorted_wrt (\<lambda>x y. snd y \<le> snd x) ?F \<and> length ?F \<le> rr_topK (resolve opts)"
    by (rule findSimilar_sorted)
  then have s': "sorted_wrt (\<lambda>x y. ctx_similarity y \<le> ctx_similarity x) ?cs"
    by (simp add: sorted_wrt_map)
  have m: "\<forall>c\<in>set ?cs. rr_minSimilarity (resolve opts) \<le> ctx_similarity c \<and>
        (\<exists>r\<in>set (bv_rows db). ctx_text c = row_text r \<and> ctx_source c = row_source r \<and>
            ctx_source_file c = row_source_file r \<and>
            ctx_similarity c = store_cosineSimilarity (er_embedding er) (row_embedding r))"
  proof
    fix c assume "c \<in> set ?cs"
    then obtain p where p: "p \<in> set ?F" "c = to_context (rr_includeMetadata (resolve opts)) p" by auto
    from findSimilar_mem [OF p(1)] p(2) show "rr_minSimilarity (resolve opts) \<le> ctx_similarity c \<and>
        (\<exists>r\<in>set (bv_rows db). ctx_text c = row_text r \<and> ctx_source c = row_source r \<and>
            ctx_source_file c = row_source_file r \<and>
            ctx_similarity c = store_cosineSimilarity (er_embedding er) (row_embedding r))"
      by auto
  qed
  show ?thesis using r s s' m by auto
qed

theorem retrieveBrandVoiceContext_ranked_witness:
  "generateEmbedding demo_prov ''tone'' DEFAULT_MODEL =
     Inr \<lparr>er_embedding = [0, 1], er_text = Some ''tone'', er_model = DEFAULT_MODEL, er_dimensions = 2\<rparr> \<and>
   (\<exists>cs. retrieveBrandVoiceContext demo_prov demo_db ''tone'' no_options = Inr cs \<and> length cs \<le> 5)"
  using retrieveBrandVoiceContext_ranked [OF demo_embedding [of "''tone''"], where db = demo_db and opts = no_options] demo_embedding [of "''tone''"]
  by (auto simp: resolve_def no_options_def)

text \<open>\<open>formatBrandVoiceForPrompt\<close> loses no context: for the i-th context (from 0) the
  prompt contains the header \<open>[Brand Voice Reference i+1]\<close>, the context's text, and the line
  \<open>Section: s\<close> when its metadata has a truthy \<open>section\<close> s.\<close>

theorem formatBrandVoiceForPrompt_complete:
  assumes "i < length cs"
  shows "str_includes (formatBrandVoiceForPrompt cs) (''[Brand Voice Reference '' @ nat_str (Suc i) @ '']'') \<and>
         str_includes (formatBrandVoiceForPrompt cs) (ctx_text (cs ! i)) \<and>
         (meta_section (ctx_metadata (cs ! i)) = Some s \<longrightarrow>
            str_includes (formatBrandVoiceForPrompt cs) (''Section: '' @ s))"
proof -
  have h: "str_includes (formatBrandVoiceForPrompt cs) (ctx_section (Suc i) (cs ! i))"
    using assms by (rule format_section)
  show ?thesis
    using str_includes_trans [OF h ctx_section_parts(1)] str_includes_trans [OF h ctx_section_parts(2)]
      str_includes_trans [OF h ctx_section_parts(3)] by blast
qed

theorem formatBrandVoiceForPrompt_complete_witness:
  "0 < length [demo_ctx 1 ''Be concise.'' (Some [(''section'', JStr ''Tone'')])] \<and>
   meta_section (ctx_metadata (demo_ctx 1 ''Be concise.'' (Some [(''section'', JStr ''Tone'')]))) = Some ''Tone'' \<and>
   str_includes (formatBrandVoiceForPrompt [demo_ctx 1 ''Be concise.'' (Some [(''section'', JStr ''Tone'')])])
     (''Section: '' @ ''Tone'')"
  using formatBrandVoiceForPrompt_complete [of 0 "[demo_ctx 1 ''Be concise.'' (Some [(''section'', JStr ''Tone'')])]" "''Tone''"]
  by (simp add: meta_section_def demo_ctx_def)

text \<open>\<open>getComprehensiveBrandVoice\<close> is all or nothing: it fails exactly when the embedding of
  the guidelines query or of the examples query fails, and returns no partial result.\<close>

theorem getComprehensiveBrandVoice_all_or_nothing:
  "isl (getComprehensiveBrandVoice prov db summary contentType platform postType) \<longleftrightarrow>
     isl (generateEmbedding prov (guidelines_query contentType (Some platform)) DEFAULT_MODEL) \<or>
     isl (generateEmbedding prov (''Example '' @ postType @ '' post about '' @ summary) DEFAULT_MODEL)"
  by (simp add: getComprehensiveBrandVoice_def getBrandVoiceGuidelines_def getBrandVoiceExamples_def
      retrieveBrandVoiceContext_def Let_def split: sum.split)

text \<open>The prompt of \<open>getComprehensiveBrandVoice\<close> numbers the guidelines first and the
  examples after them: guideline i is section i+1 and example j is section
  (number of guidelines) + j + 1, each with its text, file and section line.\<close>

theorem getComprehensiveBrandVoice_numbering:
  assumes "getComprehensiveBrandVoice prov db summary contentType platform postType = Inr r"
  shows "(i < length (cv_guidelines r) \<longrightarrow>
            str_includes (cv_formattedContext r) (ctx_section (Suc i) (cv_guidelines r ! i))) \<and>
         (j < length (cv_examples r) \<longrightarrow>
            str_includes (cv_formattedContext r) (ctx_section (length (cv_guidelines r) + Suc j) (cv_examples r ! j)))"
proof -
  have f: "cv_formattedContext r = formatBrandVoiceForPrompt (cv_guidelines r @ cv_examples r)"
    using assms by (auto simp: getComprehensiveBrandVoice_def split: sum.splits)
  have g: "str_includes (cv_formattedContext r) (ctx_section (Suc i) (cv_guidelines r ! i))"
    if "i < length (cv_guidelines r)"
    using format_section [of i "cv_guidelines r @ cv_examples r"] that by (simp add: f nth_append)
  have e: "str_includes (cv_formattedContext r) (ctx_section (length (cv_guidelines r) + Suc j) (cv_examples r ! j))"
    if "j < length (cv_examples r)"
    using format_section [of "length (cv_guidelines r) + j" "cv_guidelines r @ cv_examples r"] that
    by (simp add: f nth_append)
  show ?thesis using g e by blast
qed

lemma demo_comprehensive:
  "getComprehensiveBrandVoice demo_prov demo_db ''launch'' ''blog'' ''LinkedIn'' ''announcement'' =
     Inr \<lparr>cv_guidelines = [to_context True (demo_row 1 ExamplePost [0, 1], 1)],
          cv_examples = [to_context True (demo_row 1 ExamplePost [0, 1], 1)],
          cv_formattedContext = formatBrandVoiceForPrompt
            [to_context True (demo_row 1 ExamplePost [0, 1], 1), to_context True (demo_row 1 ExamplePost [0, 1], 1)]\<rparr>"
  by (simp add: getComprehensiveBrandVoice_def getBrandVoiceGuidelines_def getBrandVoiceExamples_def
      retrieve_Inr [OF demo_embedding] demo_retrieval resolve_def)

theorem getComprehensiveBrandVoice_numbering_witness:
  "str_includes
     (formatBrandVoiceForPrompt
       [to_context True (demo_row 1 ExamplePost [0, 1], 1), to_context True (demo_row 1 ExamplePost [0, 1], 1)])
     (ctx_section 2 (to_context True (demo_row 1 ExamplePost [0, 1], 1)))"
  using getComprehensiveBrandVoice_numbering [OF demo_comprehensive, of 0 0] by (simp add: numeral_2_eq_2)

text \<open>\<open>isBrandVoiceInitialized\<close> holds exactly when the table has a row of some source,
  and \<open>getBrandVoiceDebugInfo\<close> agrees with it and reports the number of rows.\<close>

theorem isBrandVoiceInitialized_iff:
  "(isBrandVoiceInitialized db \<longleftrightarrow> (\<exists>s. getBrandVoiceEmbeddingsBySource db s \<noteq> [])) \<and>
   dbg_initialized (getBrandVoiceDebugInfo db) = isBrandVoiceInitialized db \<and>
   dbg_totalEmbeddings (getBrandVoiceDebugInfo db) = length (bv_rows db)"
proof -
  have "bv_rows db \<noteq> [] \<longleftrightarrow> (\<exists>s. filter (\<lambda>r. row_source r = s) (bv_rows db) \<noteq> [])"
    by (cases "bv_rows db") auto
  then show ?thesis
    by (simp add: isBrandVoiceInitialized_def getBrandVoiceDebugInfo_def getBrandVoiceStats_def
        getBrandVoiceEmbeddingsBySource_def Let_def)
qed

end
