(* ===== verification/Routes.thy ===== *)
theory Routes
  imports Polling Ingestion Retrieval
begin

text \<open>The API routes that compose the modelled services: \<open>GET /api/brand-voice/status\<close> and
  \<open>POST /api/brand-voice/ingest\<close> (\<open>src/unnamed/part_009\<close>) and \<open>GET /api/content/status\<close>
  (\<open>src/unnamed/part_010\<close>). A response is its HTTP status and its JSON body. The awaited
  calls are the service definitions of the other theories; console output is not modelled, and
  the three queries of the content status, which \<open>Promise.all\<close> runs concurrently, only read
  the database and see the same instant \<open>now\<close>.\<close>

section \<open>GET /api/brand-voice/status\<close>

datatype bv_status_body =
    BvStatusOk debug_info string
  | BvStatusError bool string

text \<open>The response for the settled \<open>getBrandVoiceDebugInfo()\<close> call: the info spread with a
  message, or \<open>{ initialized: false, error }\<close> with status 500.\<close>

fun brand_status_response :: "error + debug_info \<Rightarrow> nat \<times> bv_status_body" where
  "brand_status_response (Inr info) =
     (200, BvStatusOk info (if dbg_initialized info then ''Brand voice system is initialized and ready''
                            else ''Brand voice system not initialized - please ingest documents''))"
| "brand_status_response (Inl e) = (500, BvStatusError False (err_message e))"

definition brand_status_GET :: "bv_db \<Rightarrow> nat \<times> bv_status_body" where
  "brand_status_GET db = brand_status_response (Inr (getBrandVoiceDebugInfo db))"

section \<open>POST /api/brand-voice/ingest\<close>

text \<open>What \<open>request.json()\<close> yields: a body that is not JSON (the \<open>catch\<close> then supplies
  \<open>{ reIngest: false }\<close>), \<open>null\<close>, an object, or any other JSON value.\<close>

datatype json_body = BodyInvalid | BodyNull | BodyObject "(string \<times> jval) list" | BodyOther

text \<open>\<open>const { reIngest } = await request.json().catch(...)\<close>: the property, \<open>None\<close> when
  absent; destructuring \<open>null\<close> throws.\<close>

fun body_reIngest :: "json_body \<Rightarrow> error + jval option" where
  "body_reIngest BodyInvalid = Inr (Some (JBool False))"
| "body_reIngest BodyNull = Inl (NullDestructure ''reIngest'')"
| "body_reIngest (BodyObject kvs) = Inr (map_of kvs ''reIngest'')"
| "body_reIngest BodyOther = Inr None"

text \<open>\<open>if (options.reIngest)\<close> tests truthiness.\<close>

fun jval_truthy :: "jval \<Rightarrow> bool" where
  "jval_truthy (JStr s) = (s \<noteq> [])"
| "jval_truthy (JNum n) = (n \<noteq> 0)"
| "jval_truthy (JBool b) = b"

text \<open>\<open>{ reIngest }\<close> as the options of \<open>ingestAllDocuments\<close>; the source field is set per
  document by \<open>{ ...options, source }\<close>.\<close>

definition route_options :: "jval option \<Rightarrow> ingestion_options" where
  "route_options r = \<lparr>io_chunkSize = None, io_chunkOverlap = None, io_source = Other,
                      io_reIngest = map_option jval_truthy r\<rparr>"

text \<open>\<open>path.join(process.cwd(), 'documents')\<close>, the default directory.\<close>

definition documents_dir :: "string \<Rightarrow> string" where
  "documents_dir cwd = path_join cwd ''documents''"

datatype ingest_body =
    IngestOk bool "ingestion_result list" ingest_stats
  | IngestFailed bool string

text \<open>The route: the body, then \<open>ingestAllDocuments(undefined, { reIngest })\<close>, then the
  statistics (printed only). \<open>None\<close> is a run that never returns.\<close>

definition ingest_POST ::
  "provider \<Rightarrow> fsys \<Rightarrow> bv_db \<Rightarrow> string \<Rightarrow> json_body \<Rightarrow> ((nat \<times> ingest_body) \<times> bv_db) option"
where
  "ingest_POST prov fs db cwd body =
     (case body_reIngest body of
        Inl e \<Rightarrow> Some ((500, IngestFailed False (err_message e)), db)
      | Inr reIngest \<Rightarrow>
          (case ingestAllDocuments prov fs db (documents_dir cwd) (route_options reIngest) of
             None \<Rightarrow> None
           | Some (Inl e, db') \<Rightarrow> Some ((500, IngestFailed False (err_message e)), db')
           | Some (Inr result, db') \<Rightarrow>
               Some ((200, IngestOk (ia_success result) (ia_results result) (ia_totalStats result)), db')))"

section \<open>GET /api/content/status\<close>

record content_status_data =
  csd_lastPoll :: "ms option"
  csd_shouldPoll :: bool
  csd_isPolling :: bool
  csd_timeSinceLastPoll :: "string option"
  csd_timeUntilNextPoll :: string
  csd_stats :: content_stats

datatype content_status_body =
    ContentStatusOk content_status_data
  | ContentStatusFailed string string

text \<open>\<open>Promise.all([getPollStatus(), getContentStats(), getTimeUntilNextPoll()])\<close>: only the
  statistics query can reject (the other two read the last poll through a \<open>try/catch\<close>).\<close>

definition content_status_GET :: "bool \<Rightarrow> ms \<Rightarrow> content_db \<Rightarrow> nat \<times> content_status_body" where
  "content_status_GET isPolling now db =
     (let pollStatus = getPollStatus isPolling now db; timeUntilNextPoll = getTimeUntilNextPoll now db
      in case getContentStats now db of
           Inl e \<Rightarrow> (500, ContentStatusFailed ''Failed to get content status'' (err_message e))
         | Inr contentStats \<Rightarrow>
             (200, ContentStatusOk \<lparr>csd_lastPoll = pst_lastPoll pollStatus, csd_shouldPoll = pst_shouldPoll pollStatus,
                                    csd_isPolling = pst_isPolling pollStatus,
                                    csd_timeSinceLastPoll = pst_timeSinceLastPoll pollStatus,
                                    csd_timeUntilNextPoll = timeUntilNextPoll, csd_stats = contentStats\<rparr>))"

section \<open>Lemmas: options of the ingestion and the last poll\<close>

lemma ingest_each_cong:
  assumes "ingest_chunk_options o1 = ingest_chunk_options o2"
    "io_reIngest o1 = Some True \<longleftrightarrow> io_reIngest o2 = Some True"
  shows "ingest_each prov fs dir o1 db names = ingest_each prov fs dir o2 db names"
proof (induction names arbitrary: db)
  case Nil then show ?case by simp
next
  case (Cons n names)
  have "ingestDocument prov fs db (path_join dir n) (o1\<lparr>io_source := infer_source n\<rparr>) =
        ingestDocument prov fs db (path_join dir n) (o2\<lparr>io_source := infer_source n\<rparr>)"
    by (rule ingestDocument_options_cong) (use assms in \<open>simp_all add: ingest_chunk_options_def\<close>)
  then show ?case using Cons.IH by (simp split: option.split prod.split)
qed

lemma ingestAllDocuments_cong:
  assumes "ingest_chunk_options o1 = ingest_chunk_options o2"
    "io_reIngest o1 = Some True \<longleftrightarrow> io_reIngest o2 = Some True"
  shows "ingestAllDocuments prov fs db dir o1 = ingestAllDocuments prov fs db dir o2"
  by (simp only: ingestAllDocuments_def ingest_each_cong [OF assms])

lemma route_options_cong:
  "map_option jval_truthy r1 = Some True \<longleftrightarrow> map_option jval_truthy r2 = Some True \<Longrightarrow>
   ingestAllDocuments prov fs db dir (route_options r1) = ingestAllDocuments prov fs db dir (route_options r2)"
  by (rule ingestAllDocuments_cong) (simp_all add: route_options_def ingest_chunk_options_def)

lemma max_last_polled_None: "max_last_polled rows = None \<longleftrightarrow> rows = []"
  by (simp add: max_last_polled_def split: list.split)

lemma time_until_needed:
  "getTimeUntilNextPoll now db = ''Poll needed'' \<longleftrightarrow> getLastPollFromDatabase db = None"
  using countdown_not_status by (auto simp: getTimeUntilNextPoll_def Let_def split: option.splits)

section \<open>Properties of the routes\<close>

text \<open>The content status route answers 200 exactly when the database is up, and its
  answer is consistent across the three concurrent queries: no last poll, the countdown
  \<open>Poll needed\<close> and an empty catalogue go together, and then a poll is due unless one runs.\<close>

theorem content_status_consistent:
  "(fst (content_status_GET isPolling now db) = 200 \<longleftrightarrow> cdb_up db) \<and>
   (cdb_up db \<longrightarrow> (\<exists>d. snd (content_status_GET isPolling now db) = ContentStatusOk d \<and>
      (csd_lastPoll d = None \<longleftrightarrow> cs_total (csd_stats d) = 0) \<and>
      (csd_timeUntilNextPoll d = ''Poll needed'' \<longleftrightarrow> cs_total (csd_stats d) = 0) \<and>
      (cs_total (csd_stats d) = 0 \<longrightarrow> csd_shouldPoll d = (\<not> isPolling))))"
proof (cases "cdb_up db")
  case False
  then show ?thesis by (simp add: content_status_GET_def getContentStats_def Let_def)
next
  case True
  have l: "getLastPollFromDatabase db = None \<longleftrightarrow> cdb_rows db = []"
    using True max_last_polled_None by (simp add: getLastPollFromDatabase_def)
  show ?thesis using True l time_until_needed [of now db]
    by (auto simp: content_status_GET_def getContentStats_def getPollStatus_def shouldPollContent_def Let_def)
qed

theorem content_status_consistent_witness:
  "fst (content_status_GET False 0 empty_content) = 200 \<and>
   (\<exists>d. snd (content_status_GET False 0 empty_content) = ContentStatusOk d \<and> csd_shouldPoll d \<and>
        csd_timeUntilNextPoll d = ''Poll needed'')"
proof -
  have up: "cdb_up empty_content" by (simp add: empty_content_def)
  have t: "\<forall>d. snd (content_status_GET False 0 empty_content) = ContentStatusOk d \<longrightarrow> cs_total (csd_stats d) = 0"
    by (auto simp: content_status_GET_def getContentStats_def empty_content_def Let_def)
  show ?thesis using content_status_consistent [of False 0 empty_content] up t by auto
qed

text \<open>C29: The ingest route reads \<open>reIngest\<close> from the body: a \<open>null\<close> body fails with a
  destructuring error before any ingestion, a body that is not JSON behaves as one without the
  property, and the property is tested for truthiness, so the string \<open>"false"\<close> re-ingests.\<close>

theorem ingest_POST_body:
  "ingest_POST prov fs db cwd BodyNull =
     Some ((500, IngestFailed False ''Cannot destructure property 'reIngest' of '(intermediate value)' as it is null.''), db) \<and>
   ingest_POST prov fs db cwd BodyInvalid = ingest_POST prov fs db cwd BodyOther \<and>
   ingest_POST prov fs db cwd (BodyObject [(''reIngest'', JStr ''false'')]) =
     ingest_POST prov fs db cwd (BodyObject [(''reIngest'', JBool True)])"
proof -
  have a: "ingestAllDocuments prov fs db (documents_dir cwd) (route_options (Some (JBool False))) =
           ingestAllDocuments prov fs db (documents_dir cwd) (route_options None)"
    by (rule route_options_cong) simp
  have b: "ingestAllDocuments prov fs db (documents_dir cwd) (route_options (Some (JStr ''false''))) =
           ingestAllDocuments prov fs db (documents_dir cwd) (route_options (Some (JBool True)))"
    by (rule route_options_cong) simp
  show ?thesis using a b by (simp add: ingest_POST_def)
qed

end
