(* ===== verification/Brand_Voice_Test.thy ===== *)
theory Brand_Voice_Test
  imports Routes
begin

text \<open>The brand-voice system test script (third module of \<open>src/unnamed/part_006\<close>): when the
  knowledge base is empty it ingests the documents directory with \<open>reIngest: true\<close> and
  stops with exit code 0 if there is no PDF; then it runs a general retrieval, the
  LinkedIn guidelines query and the prompt formatting, and exits with 0; any exception ends
  it with 1. The statistics it prints (\<open>showBrandVoiceStats\<close>) are console output only.\<close>

section \<open>The script\<close>

definition test_ingest_options :: ingestion_options where
  "test_ingest_options = \<lparr>io_chunkSize = None, io_chunkOverlap = None, io_source = Other, io_reIngest = Some True\<rparr>"

definition GENERAL_QUERY :: string where
  "GENERAL_QUERY = ''How should we write social media posts?''"

datatype bv_test_outcome =
    BvNoDocuments
  | BvCompleted "bv_context list" "bv_context list" string
  | BvTestFailed string

text \<open>Tests 1-3: the general retrieval with \<open>topK: 3\<close>, the guidelines for blog posts on
  LinkedIn, and the first 500 characters of the formatted general context.\<close>

definition rag_tests :: "provider \<Rightarrow> bv_db \<Rightarrow> bv_test_outcome \<times> nat" where
  "rag_tests prov db =
     (case retrieveBrandVoiceContext prov db GENERAL_QUERY (no_options\<lparr>opt_topK := Some 3\<rparr>) of
        Inl e \<Rightarrow> (BvTestFailed (err_message e), 1)
      | Inr generalContext \<Rightarrow>
          (case getBrandVoiceGuidelines prov db ''blog post'' (Some ''LinkedIn'') of
             Inl e \<Rightarrow> (BvTestFailed (err_message e), 1)
           | Inr guidelines \<Rightarrow>
               (BvCompleted generalContext guidelines (take 500 (formatBrandVoiceForPrompt generalContext)), 0)))"

text \<open>\<open>test()\<close>; \<open>None\<close> is an ingestion that never returns.\<close>

definition test_brand_voice :: "provider \<Rightarrow> fsys \<Rightarrow> bv_db \<Rightarrow> string \<Rightarrow> ((bv_test_outcome \<times> nat) \<times> bv_db) option" where
  "test_brand_voice prov fs db cwd =
     (if isBrandVoiceInitialized db then Some (rag_tests prov db, db)
      else
        (case ingestAllDocuments prov fs db (documents_dir cwd) test_ingest_options of
           None \<Rightarrow> None
         | Some (Inl e, db') \<Rightarrow> Some ((BvTestFailed (err_message e), 1), db')
         | Some (Inr result, db') \<Rightarrow>
             if ia_results result = [] then Some ((BvNoDocuments, 0), db')
             else Some (rag_tests prov db', db')))"

section \<open>Lemmas\<close>

text \<open>On a knowledge base that already holds embeddings the script only reads: it returns,
  leaves the table as it was, and fails exactly when one of its two query embeddings fails.\<close>

lemma test_brand_voice_initialized:
  assumes "isBrandVoiceInitialized db"
  shows "\<exists>out code. test_brand_voice prov fs db cwd = Some ((out, code), db) \<and>
           (code = 0 \<longleftrightarrow> \<not> isl (generateEmbedding prov GENERAL_QUERY DEFAULT_MODEL) \<and>
                         \<not> isl (generateEmbedding prov (guidelines_query ''blog post'' (Some ''LinkedIn'')) DEFAULT_MODEL))"
  using assms
  by (cases "generateEmbedding prov GENERAL_QUERY DEFAULT_MODEL";
      cases "generateEmbedding prov (guidelines_query ''blog post'' (Some ''LinkedIn'')) DEFAULT_MODEL")
     (simp_all add: test_brand_voice_def rag_tests_def getBrandVoiceGuidelines_def retrieve_Inr retrieve_Inl)

text \<open>A test that passes with nothing to test: on an empty knowledge base and a documents
  directory without PDFs the script exits with 0 without running any retrieval.\<close>

lemma test_brand_voice_no_documents:
  assumes "\<not> isBrandVoiceInitialized db" "readPDFsFromDirectory fs (documents_dir cwd) = Inr []"
  shows "test_brand_voice prov fs db cwd = Some ((BvNoDocuments, 0), db)"
  using assms by (simp add: test_brand_voice_def ingestAllDocuments_def)

end
