(* ===== verification/Sections.thy ===== *)
theory Sections
  imports Chunker
begin

text \<open>\<open>chunkBySection\<close> of the text-chunker module (\<open>hubspot.ts\<close> lines 461-492):
  \<open>text.split(/^#{1,3}\s+.+$/gm)\<close>, then one chunk per section that is not blank after
  trimming. The regular expression is modelled by the match it finds at a position, with
  JavaScript's backtracking resolved: \<open>^\<close> holds at the start and after a line terminator,
  \<open>#{1,3}\<close> must take the whole run of \<open>#\<close> (a shorter run is followed by \<open>#\<close>, which
  \<open>\s\<close> rejects), \<open>\s+\<close> takes the longest run of white space (line terminators included)
  that is followed by a character \<open>.\<close> accepts, and \<open>.+$\<close> takes the rest of that line.
  \<open>String.prototype.split\<close> scans left to right and cuts at every match, dropping it.\<close>

section \<open>The heading pattern\<close>

text \<open>Line terminators of the Latin-1 range (\<open>.\<close> rejects them, \<open>^\<close> and \<open>$\<close> hold next to
  them in multiline mode).\<close>

definition line_term :: "char \<Rightarrow> bool" where
  "line_term c = (c = CHR 0x0A \<or> c = CHR 0x0D)"

definition line_len :: "string \<Rightarrow> nat" where
  "line_len s = length (takeWhile (\<lambda>c. \<not> line_term c) s)"

text \<open>The length of the match of \<open>#{1,3}\s+.+$\<close> at the start of \<open>s\<close>, if any.\<close>

definition heading_match :: "string \<Rightarrow> nat option" where
  "heading_match s =
     (let h = length (takeWhile (\<lambda>c. c = CHR ''#'') s); rest = drop h s;
          w = length (takeWhile js_space rest)
      in if h < 1 \<or> 3 < h \<or> w < 1 then None
         else if w < length rest then Some (h + w + line_len (drop w rest))
         else (case find (\<lambda>i. \<not> line_term (rest ! i)) (rev [1..<w]) of
                 None \<Rightarrow> None
               | Some i \<Rightarrow> Some (h + i + line_len (drop i rest))))"

text \<open>The split loop: \<open>bol\<close> says whether \<open>^\<close> holds at the current position, \<open>acc\<close> is the
  piece since the end of the last match. The result is the list of (piece, removed heading)
  pairs and the final piece; the sections \<open>split\<close> returns are the pieces.\<close>

function split_scan :: "bool \<Rightarrow> string \<Rightarrow> string \<Rightarrow> (string \<times> string) list \<times> string" where
  "split_scan bol acc [] = ([], acc)"
| "split_scan bol acc (c # cs) =
     (case (if bol then heading_match (c # cs) else None) of
        Some n \<Rightarrow>
          (let (ps, lst) = split_scan False [] (drop n (c # cs)) in ((acc, take n (c # cs)) # ps, lst))
      | None \<Rightarrow> split_scan (line_term c) (acc @ [c]) cs)"
  by pat_completeness auto
termination
  by (relation "measure (\<lambda>(bol, acc, s). length s)")
     (auto simp: heading_match_def Let_def split: if_splits option.splits)

definition split_sections :: "string \<Rightarrow> string list" where
  "split_sections text = (let (ps, lst) = split_scan True [] text in map fst ps @ [lst])"

section \<open>Chunks by section\<close>

text \<open>The \<open>forEach\<close> loop: \<open>index\<close> counts every section, blank ones included, and
  \<open>currentPos\<close> advances by the untrimmed section's length only.\<close>

fun section_chunks :: "nat \<Rightarrow> nat \<Rightarrow> string list \<Rightarrow> chunk list" where
  "section_chunks index currentPos [] = []"
| "section_chunks index currentPos (section # sections) =
     (let trimmedSection = js_trim section
      in (if 0 < length trimmedSection
          then [\<lparr>ch_text = trimmedSection, ch_index = index, ch_start = int currentPos,
                 ch_end = int (currentPos + length trimmedSection),
                 ch_metadata = Some [(''isSection'', JBool True)]\<rparr>]
          else []) @ section_chunks (Suc index) (currentPos + length section) sections)"

definition chunkBySection :: "string \<Rightarrow> chunk list" where
  "chunkBySection text = section_chunks 0 0 (split_sections text)"

section \<open>Sample document\<close>

definition demo_doc :: string where
  "demo_doc = ''Intro'' @ nl @ ''# Voice'' @ nl @ ''Be clear.'' @ nl @ ''## Tone'' @ nl @ ''Warm.''"

section \<open>Lemmas: the split loop and the section chunks\<close>

lemma split_scan_concat:
  "split_scan bol acc s = (ps, lst) \<Longrightarrow> concat (map (\<lambda>(p, h). p @ h) ps) @ lst = acc @ s"
proof (induction bol acc s arbitrary: ps lst rule: split_scan.induct)
  case (1 bol acc) then show ?case by simp
next
  case (2 bol acc c cs)
  show ?case
  proof (cases "if bol then heading_match (c # cs) else None")
    case None
    then show ?thesis using "2.IH"(1) [OF None] "2.prems" by simp
  next
    case (Some n)
    obtain ps' lst' where r: "split_scan False [] (drop n (c # cs)) = (ps', lst')" by fastforce
    have "concat (map (\<lambda>(p, h). p @ h) ps') @ lst' = drop n (c # cs)"
      using "2.IH"(2) [OF Some r] by simp
    then show ?thesis using "2.prems" Some r by auto
  qed
qed

lemma section_chunks_nonempty: "c \<in> set (section_chunks index pos secs) \<Longrightarrow> ch_text c \<noteq> []"
  by (induction index pos secs rule: section_chunks.induct) (auto simp: Let_def split: if_splits)

lemma section_chunks_spec:
  "c \<in> set (section_chunks index pos secs) \<Longrightarrow>
   index \<le> ch_index c \<and> ch_index c < index + length secs \<and>
   ch_text c = js_trim (secs ! (ch_index c - index)) \<and>
   ch_start c = int (pos + sum_list (map length (take (ch_index c - index) secs))) \<and>
   ch_end c = ch_start c + int (length (ch_text c))"
proof (induction index pos secs rule: section_chunks.induct)
  case (1 index currentPos) then show ?case by simp
next
  case (2 index currentPos sec secs)
  show ?case
  proof (cases "c \<in> set (section_chunks (Suc index) (currentPos + length sec) secs)")
    case True
    note ih = "2.IH" [OF refl True]
    then obtain j where j: "ch_index c - index = Suc j" "j = ch_index c - Suc index"
      by (metis Suc_diff_Suc Suc_le_lessD)
    then show ?thesis using ih by simp
  next
    case False
    then show ?thesis using "2.prems" by (auto simp: Let_def split: if_splits)
  qed
qed

lemma demo_sections:
  "chunkBySection demo_doc =
     [\<lparr>ch_text = ''Intro'', ch_index = 0, ch_start = 0, ch_end = 5, ch_metadata = Some [(''isSection'', JBool True)]\<rparr>,
      \<lparr>ch_text = ''Be clear.'', ch_index = 1, ch_start = 6, ch_end = 15, ch_metadata = Some [(''isSection'', JBool True)]\<rparr>,
      \<lparr>ch_text = ''Warm.'', ch_index = 2, ch_start = 17, ch_end = 22, ch_metadata = Some [(''isSection'', JBool True)]\<rparr>]"
  by code_simp

section \<open>Properties of chunking by section\<close>

text \<open>The split loses no text: the sections \<open>chunkBySection\<close> splits the text into,
  interleaved with the headings the pattern matched and removed, give back the text.\<close>

theorem split_sections_roundtrip:
  "concat (map (\<lambda>(p, h). p @ h) (fst (split_scan True [] inp))) @ snd (split_scan True [] inp) = inp \<and>
   split_sections inp = map fst (fst (split_scan True [] inp)) @ [snd (split_scan True [] inp)]"
  using split_scan_concat [of True "[]" inp "fst (split_scan True [] inp)" "snd (split_scan True [] inp)"]
  by (simp add: split_sections_def split_def Let_def)

text \<open>C23: Each chunk of \<open>chunkBySection\<close> is the trimmed, non-blank section of its index,
  and its start is the total length of the sections before it: the removed heading lines are
  not counted and the start is that of the untrimmed section, so the positions are not
  offsets of the chunk in the text (in the sample, the second chunk is reported at 6 while its
  text starts at 14).\<close>

theorem chunkBySection_positions:
  assumes "c \<in> set (chunkBySection inp)"
  shows "ch_text c = js_trim (split_sections inp ! ch_index c) \<and> ch_text c \<noteq> [] \<and>
         ch_start c = int (sum_list (map length (take (ch_index c) (split_sections inp)))) \<and>
         ch_end c = ch_start c + int (length (ch_text c))"
proof -
  have "ch_index c < length (split_sections inp) \<and> ch_text c = js_trim (split_sections inp ! ch_index c) \<and>
        ch_text c \<noteq> [] \<and> ch_start c = int (sum_list (map length (take (ch_index c) (split_sections inp)))) \<and>
        ch_end c = ch_start c + int (length (ch_text c))"
    using section_chunks_spec [OF assms [unfolded chunkBySection_def]]
          section_chunks_nonempty [OF assms [unfolded chunkBySection_def]] by simp
  then show ?thesis by blast
qed

theorem chunkBySection_positions_witness:
  "ch_start (chunkBySection demo_doc ! 1) = 6 \<and> ch_text (chunkBySection demo_doc ! 1) = ''Be clear.'' \<and>
   take 9 (drop 6 demo_doc) \<noteq> ''Be clear.''"
proof -
  have m: "chunkBySection demo_doc ! 1 \<in> set (chunkBySection demo_doc)" by (simp add: demo_sections)
  have "ch_start (chunkBySection demo_doc ! 1) = int (sum_list (map length (take 1 (split_sections demo_doc))))"
    using chunkBySection_positions [OF m] by (simp add: demo_sections)
  moreover have "sum_list (map length (take 1 (split_sections demo_doc))) = 6" by code_simp
  moreover have "take 9 (drop 6 demo_doc) \<noteq> ''Be clear.''" by (simp add: demo_doc_def nl_def)
  ultimately show ?thesis by (simp add: demo_sections)
qed

end
