(* ===== verification/Migrations.thy ===== *)
theory Migrations
  imports Prelude "HOL-Library.List_Lexorder" "HOL-Library.Char_ord"
begin

text \<open>The migration runner (\<open>src/unnamed/part_004\<close>, \<open>migrations/run.js\<close>): it selects the
  migration files of its directory, sorts them by name, and runs every one whose name is not
  yet in the \<open>migrations\<close> table, a \<open>.js\<close> file through its exported \<open>up\<close>, a \<open>.sql\<close> file
  as the statements its text splits into, recording each name after it has run. The database
  is a type parameter: a statement is executed by \<open>exec\<close> (\<open>sql.unsafe\<close>), which rejects it or
  returns the database after it; the \<open>up\<close> of a JavaScript migration returns the database
  it leaves and, when it throws, the error. A statement that fails changes nothing, the
  statements before it stay applied (there is no transaction).\<close>

section \<open>Connection string\<close>

definition POOLER :: string where
  "POOLER = ''-pooler.''"

text \<open>\<open>String.prototype.replace\<close> with a string pattern: the first occurrence only.\<close>

fun replace_first :: "string \<Rightarrow> string \<Rightarrow> string \<Rightarrow> string" where
  "replace_first pat rep [] = (if pat = [] then rep else [])"
| "replace_first pat rep (c # cs) =
     (if take (length pat) (c # cs) = pat then rep @ drop (length pat) (c # cs)
      else c # replace_first pat rep cs)"

text \<open>The \<open>DATABASE_URL\<close> check (the script exits) and the direct connection.\<close>

definition connection_string :: "string option \<Rightarrow> error + string" where
  "connection_string url =
     (case url of
        None \<Rightarrow> Inl (StoreFailed ''DATABASE_URL environment variable is not set'')
      | Some u \<Rightarrow> if u = [] then Inl (StoreFailed ''DATABASE_URL environment variable is not set'')
                  else Inr (if str_includes u POOLER then replace_first POOLER ''.'' u else u))"

section \<open>Selecting and naming the files\<close>

definition is_migration_file :: "string \<Rightarrow> bool" where
  "is_migration_file f =
     ((ends_with f ''.sql'' \<or> ends_with f ''.js'') \<and>
      \<not> str_includes f ''run.js'' \<and> \<not> str_includes f ''rollback.js'' \<and> \<not> str_includes f ''create.js'')"

text \<open>\<open>readdirSync(..).filter(..).filter(..).sort()\<close>: the default sort compares the names
  code unit by code unit, a proper prefix first, which is the lexicographic order of
  \<open>List_Lexorder\<close> on strings.\<close>

definition migration_files :: "string list \<Rightarrow> string list" where
  "migration_files entries = sort (filter is_migration_file entries)"

definition migration_name :: "string \<Rightarrow> string" where
  "migration_name file = replace_first ''.sql'' [] file"

section \<open>Splitting a SQL file into statements\<close>

text \<open>\<open>s.split(c)\<close> for a one-character separator: the pieces between the separators,
  \<open>[""]\<close> for the empty string.\<close>

fun split_on :: "char \<Rightarrow> string \<Rightarrow> string list" where
  "split_on c [] = [[]]"
| "split_on c (x # xs) =
     (if x = c then [] # split_on c xs
      else (case split_on c xs of [] \<Rightarrow> [[x]] | w # ws \<Rightarrow> (x # w) # ws))"

definition starts_with :: "string \<Rightarrow> string \<Rightarrow> bool" where
  "starts_with s p = (take (length p) s = p)"

definition is_comment_line :: "string \<Rightarrow> bool" where
  "is_comment_line l = starts_with (js_trim l) ''--''"

text \<open>The statement list of a \<open>.sql\<close> migration: drop whole-line comments, rejoin the lines,
  split at every semicolon, trim, drop the empty pieces.\<close>

definition split_statements :: "string \<Rightarrow> string list" where
  "split_statements migrationSQL =
     filter (\<lambda>s. 0 < length s)
       (map js_trim (split_on (CHR '';'')
          (join_str nl (filter (\<lambda>line. \<not> is_comment_line line) (split_on (CHR 0x0A) migrationSQL)))))"

section \<open>Running the migrations\<close>

type_synonym 'db sql_exec = "string \<Rightarrow> 'db \<Rightarrow> error + 'db"

text \<open>The migrations directory: its entries in \<open>readdirSync\<close> order, the text
  \<open>readFileSync\<close> gives for a file, and what \<open>require\<close> gives for a file: the error it
  throws (a module that does not parse), or the module's \<open>up\<close> export, if any.\<close>

record 'db mig_dir =
  md_entries :: "string list"
  md_read :: "string \<Rightarrow> string"
  md_require :: "string \<Rightarrow> error + ('db \<Rightarrow> 'db \<times> error option) option"

record 'db mig_state =
  ms_applied :: "string list"
  ms_db :: 'db

text \<open>The inner loop over the statements: the first rejection ends it, with the database as
  the statements before it left it.\<close>

fun exec_stmts :: "'db sql_exec \<Rightarrow> string list \<Rightarrow> 'db \<Rightarrow> 'db \<times> error option" where
  "exec_stmts exec [] db = (db, None)"
| "exec_stmts exec (stmt # stmts) db =
     (case exec stmt db of Inl e \<Rightarrow> (db, Some e) | Inr db' \<Rightarrow> exec_stmts exec stmts db')"

definition NO_UP :: error where
  "NO_UP = StoreFailed (''Migration file must export an '' @ [CHR 0x22] @ ''up'' @ [CHR 0x22] @ '' function'')"

text \<open>The \<open>try\<close> block for one file, up to the \<open>INSERT\<close>.\<close>

definition run_module :: "'db sql_exec \<Rightarrow> 'db mig_dir \<Rightarrow> string \<Rightarrow> 'db \<Rightarrow> 'db \<times> error option" where
  "run_module exec dir file db =
     (if ends_with file ''.js'' then
        (case md_require dir file of
           Inl e \<Rightarrow> (db, Some e)
         | Inr None \<Rightarrow> (db, Some NO_UP)
         | Inr (Some up) \<Rightarrow> up db)
      else exec_stmts exec (split_statements (md_read dir file)) db)"

text \<open>\<open>INSERT INTO migrations (name) VALUES (..)\<close>: the name is \<open>UNIQUE\<close>.\<close>

definition record_migration :: "string \<Rightarrow> 'db mig_state \<Rightarrow> error + 'db mig_state" where
  "record_migration name st =
     (if name \<in> set (ms_applied st)
      then Inl (StoreFailed ''duplicate key value violates unique constraint'')
      else Inr (st\<lparr>ms_applied := ms_applied st @ [name]\<rparr>))"

text \<open>The \<open>for\<close> loop over the sorted files. \<open>executedNames\<close> is the snapshot read before the
  loop. A failure is rethrown with the state it leaves.\<close>

fun run_loop ::
  "'db sql_exec \<Rightarrow> 'db mig_dir \<Rightarrow> string list \<Rightarrow> string list \<Rightarrow> 'db mig_state \<Rightarrow> nat \<Rightarrow>
     (error \<times> 'db mig_state) + ('db mig_state \<times> nat)"
where
  "run_loop exec dir executedNames [] st n = Inr (st, n)"
| "run_loop exec dir executedNames (file # files) st n =
     (let migrationName = migration_name file
      in if migrationName \<in> set executedNames then run_loop exec dir executedNames files st n
         else (case run_module exec dir file (ms_db st) of
                 (db', Some e) \<Rightarrow> Inl (e, st\<lparr>ms_db := db'\<rparr>)
               | (db', None) \<Rightarrow>
                   (case record_migration migrationName (st\<lparr>ms_db := db'\<rparr>) of
                      Inl e \<Rightarrow> Inl (e, st\<lparr>ms_db := db'\<rparr>)
                    | Inr st' \<Rightarrow> run_loop exec dir executedNames files st' (Suc n))))"

text \<open>\<open>runMigrations\<close>: the result is the error the script exits with, or the final state and
  the number of migrations executed.\<close>

definition runMigrations ::
  "'db sql_exec \<Rightarrow> 'db mig_dir \<Rightarrow> 'db mig_state \<Rightarrow>
     (error \<times> 'db mig_state) + ('db mig_state \<times> nat)"
where
  "runMigrations exec dir st =
     (let files = migration_files (md_entries dir)
      in if files = [] then Inr (st, 0) else run_loop exec dir (ms_applied st) files st 0)"

text \<open>The script: a missing \<open>DATABASE_URL\<close> exits with 1 before anything runs; a failed
  migration is caught, printed, and exits with 1; otherwise the count is reported and the
  script exits with 0. (The closing listing of the tables is console output.)\<close>

datatype migrate_report = NoMigrationFiles | AllUpToDate | ExecutedMigrations nat | MigrationFailed string

definition migrate_main ::
  "string option \<Rightarrow> 'db sql_exec \<Rightarrow> 'db mig_dir \<Rightarrow> 'db mig_state \<Rightarrow> (migrate_report \<times> nat) \<times> 'db mig_state"
where
  "migrate_main url exec dir st =
     (case connection_string url of
        Inl e \<Rightarrow> ((MigrationFailed (err_message e), 1), st)
      | Inr _ \<Rightarrow>
          (case runMigrations exec dir st of
             Inl (e, st') \<Rightarrow> ((MigrationFailed (err_message e), 1), st')
           | Inr (st', n) \<Rightarrow>
               ((if migration_files (md_entries dir) = [] then NoMigrationFiles
                 else if n = 0 then AllUpToDate else ExecutedMigrations n, 0), st')))"

section \<open>Sample migrations\<close>

text \<open>The trigger function of \<open>001_initial_schema.sql\<close> (lines 229-235), line by line.\<close>

definition trigger_function_sql :: string where
  "trigger_function_sql = join_str nl
     [''CREATE OR REPLACE FUNCTION update_updated_at_column()'', ''RETURNS TRIGGER AS $$'', ''BEGIN'',
      ''  NEW.updated_at = NOW();'', ''  RETURN NEW;'', ''END;'', ''$$ LANGUAGE plpgsql;'']"

text \<open>A database that counts the statements it has run, and a directory with a SQL migration, a
  JavaScript migration and the runner itself.\<close>

definition count_exec :: "nat sql_exec" where
  "count_exec = (\<lambda>stmt n. Inr (Suc n))"

definition demo_dir :: "nat mig_dir" where
  "demo_dir = \<lparr>md_entries = [''run.js'', ''002_more.js'', ''001_init.sql''],
     md_read = (\<lambda>f. ''-- schema'' @ nl @ ''CREATE TABLE a (x int);'' @ nl @ ''CREATE TABLE b (y int);''),
     md_require = (\<lambda>f. if f = ''002_more.js'' then Inr (Some (\<lambda>n. (n + 10, None))) else Inr None)\<rparr>"

text \<open>The repository's migrations directory: \<open>001_initial_schema.sql\<close>, the runner itself, and
  \<open>002_reattempt_schema.js\<close>, whose \<open>up\<close> opens a \<open>try\<close> block (line 23) that has no
  \<open>catch\<close> or \<open>finally\<close>, so loading the module throws a \<open>SyntaxError\<close>.\<close>

definition MISSING_CATCH :: error where
  "MISSING_CATCH = StoreFailed ''Missing catch or finally after try''"

definition repo_migrations :: "string \<Rightarrow> 'db mig_dir" where
  "repo_migrations sql001 = \<lparr>md_entries = [''001_initial_schema.sql'', ''002_reattempt_schema.js'', ''run.js''],
     md_read = (\<lambda>f. sql001),
     md_require = (\<lambda>f. if f = ''002_reattempt_schema.js'' then Inl MISSING_CATCH else Inr None)\<rparr>"

text \<open>A database on which the second statement fails (its table exists already).\<close>

definition second_fails :: "nat sql_exec" where
  "second_fails = (\<lambda>stmt n. if n = 1 then Inl (StoreFailed ''relation already exists'') else Inr (Suc n))"

section \<open>Lemmas: splitting and the run loop\<close>

lemma split_on_no_sep: "c \<notin> set xs \<Longrightarrow> split_on c xs = [xs]"
  by (induction xs) auto

lemma split_on_append_sep: "c \<notin> set xs \<Longrightarrow> split_on c (xs @ c # ys) = xs # split_on c ys"
proof (induction xs)
  case Nil then show ?case by simp
next
  case (Cons x xs) then show ?case by auto
qed

lemma split_on_join:
  "xs \<noteq> [] \<Longrightarrow> list_all (\<lambda>x. c \<notin> set x) xs \<Longrightarrow> split_on c (join_str [c] xs) = xs"
  by (induction "[c]" xs rule: join_str.induct) (simp_all add: split_on_no_sep split_on_append_sep)

lemma split_on_nonempty: "split_on c s \<noteq> []"
  by (induction s) (auto split: list.split)

lemma join_split_on: "join_str [c] (split_on c s) = s"
proof (induction s)
  case Nil then show ?case by simp
next
  case (Cons x xs)
  then show ?case
    using split_on_nonempty [of c xs]
    by (cases "split_on c xs" rule: remdups_adj.cases) (auto split: if_splits)
qed

lemma nl_sep: "nl = [CHR 0x0A]"
  by (simp add: nl_def)

lemma exec_stmts_fail_at:
  "exec_stmts exec (take k ss) db = (dbk, None) \<Longrightarrow> k < length ss \<Longrightarrow> exec (ss ! k) dbk = Inl e \<Longrightarrow>
   exec_stmts exec ss db = (dbk, Some e)"
proof (induction ss arbitrary: k db)
  case Nil then show ?case by simp
next
  case (Cons s ss)
  show ?case
  proof (cases k)
    case 0 then show ?thesis using Cons.prems by simp
  next
    case (Suc j)
    then show ?thesis using Cons by (auto split: sum.splits)
  qed
qed

lemma run_loop_skip:
  "list_all (\<lambda>f. migration_name f \<in> set names) files \<Longrightarrow> run_loop exec dir names files st n = Inr (st, n)"
  by (induction files) simp_all

lemma run_loop_success:
  "run_loop exec dir names files st n = Inr (st', n') \<Longrightarrow>
   ms_applied st' = ms_applied st @ map migration_name (filter (\<lambda>f. migration_name f \<notin> set names) files) \<and>
   n' = n + length (filter (\<lambda>f. migration_name f \<notin> set names) files)"
proof (induction files arbitrary: st n)
  case Nil then show ?case by simp
next
  case (Cons f fs)
  show ?case
  proof (cases "migration_name f \<in> set names")
    case True then show ?thesis using Cons by simp
  next
    case False
    then obtain db' where r: "run_module exec dir f (ms_db st) = (db', None)"
      using Cons.prems by (auto split: prod.splits option.splits)
    then have "migration_name f \<notin> set (ms_applied st)"
      and rest: "run_loop exec dir names fs (st\<lparr>ms_db := db', ms_applied := ms_applied st @ [migration_name f]\<rparr>) (Suc n) = Inr (st', n')"
      using Cons.prems False by (auto simp: record_migration_def Let_def split: if_splits)
    show ?thesis using Cons.IH [OF rest] False by simp
  qed
qed

lemma repo_files: "migration_files [''001_initial_schema.sql'', ''002_reattempt_schema.js'', ''run.js''] =
  [''001_initial_schema.sql'', ''002_reattempt_schema.js'']"
  by code_simp

text \<open>An exit code of 0 means every migration file of the directory is recorded.\<close>

lemma migrate_main_ok:
  assumes "migrate_main url exec dir st = ((r, 0), st')"
  shows "set (map migration_name (migration_files (md_entries dir))) \<subseteq> set (ms_applied st')"
proof -
  obtain c n where c: "connection_string url = Inr c" and run: "runMigrations exec dir st = Inr (st', n)"
    using assms by (auto simp: migrate_main_def split: sum.splits prod.splits)
  show ?thesis
  proof (cases "migration_files (md_entries dir) = []")
    case False
    then have "run_loop exec dir (ms_applied st) (migration_files (md_entries dir)) st 0 = Inr (st', n)"
      using run by (simp add: runMigrations_def)
    then show ?thesis
      using run_loop_success by fastforce
  qed simp
qed

section \<open>Properties of the migration runner\<close>

text \<open>Splitting inverts joining: a script that is its statements joined by semicolons,
  each statement non-empty, trimmed and free of semicolons, with no line that is a whole-line
  comment, splits back into exactly those statements, in order.\<close>

theorem split_statements_join:
  assumes ne: "stmts \<noteq> []" and ok: "list_all (\<lambda>s. s \<noteq> [] \<and> js_trim s = s \<and> CHR '';'' \<notin> set s) stmts"
    and nc: "\<not> list_ex is_comment_line (split_on (CHR 0x0A) (join_str '';'' stmts))"
  shows "split_statements (join_str '';'' stmts) = stmts"
proof -
  have f: "filter (\<lambda>line. \<not> is_comment_line line) (split_on (CHR 0x0A) (join_str '';'' stmts)) =
           split_on (CHR 0x0A) (join_str '';'' stmts)"
    using nc by (simp add: filter_id_conv list_ex_iff)
  have s: "split_on (CHR '';'') (join_str '';'' stmts) = stmts"
    using split_on_join [OF ne, of "CHR '';''"] ok by (simp add: list_all_iff)
  have m: "map js_trim stmts = stmts" using ok by (induction stmts) auto
  have "filter (\<lambda>s. 0 < length s) stmts = stmts" using ok by (simp add: filter_id_conv list_all_iff)
  then show ?thesis
    unfolding split_statements_def f nl_sep join_split_on s m by simp
qed

theorem split_statements_join_witness:
  "split_statements (join_str '';'' [''CREATE TABLE a (x int)'', ''CREATE INDEX i ON a(x)'']) =
     [''CREATE TABLE a (x int)'', ''CREATE INDEX i ON a(x)'']"
proof -
  have ok: "list_all (\<lambda>s. s \<noteq> [] \<and> js_trim s = s \<and> CHR '';'' \<notin> set s) [''CREATE TABLE a (x int)'', ''CREATE INDEX i ON a(x)'']"
    by code_simp
  have nc: "\<not> list_ex is_comment_line (split_on (CHR 0x0A) (join_str '';'' [''CREATE TABLE a (x int)'', ''CREATE INDEX i ON a(x)'']))"
    by code_simp
  show ?thesis by (rule split_statements_join [OF _ ok nc]) simp
qed

text \<open>The splitting ignores dollar quoting: the trigger function of
  \<open>001_initial_schema.sql\<close> is cut at the semicolons of its body into four statements, the
  first of which opens a \<open>$$\<close> quote that none of them closes, so the first migration cannot
  run as written.\<close>

theorem split_statements_breaks_function_body:
  "split_statements trigger_function_sql =
     [''CREATE OR REPLACE FUNCTION update_updated_at_column()'' @ nl @ ''RETURNS TRIGGER AS $$'' @ nl @ ''BEGIN'' @ nl @
        ''  NEW.updated_at = NOW()'', ''RETURN NEW'', ''END'', ''$$ LANGUAGE plpgsql'']"
  by code_simp

text \<open>C22: A successful run executes, in sorted file order, exactly the migrations whose names
  were not yet recorded, records their names in that order and counts them; running again on
  the state it leaves executes nothing.\<close>

theorem runMigrations_success:
  assumes "runMigrations exec dir st = Inr (st', n)"
  shows "ms_applied st' = ms_applied st @
           map migration_name (filter (\<lambda>f. migration_name f \<notin> set (ms_applied st)) (migration_files (md_entries dir))) \<and>
         n = length (filter (\<lambda>f. migration_name f \<notin> set (ms_applied st)) (migration_files (md_entries dir))) \<and>
         runMigrations exec dir st' = Inr (st', 0)"
proof (cases "migration_files (md_entries dir) = []")
  case True then show ?thesis using assms by (simp add: runMigrations_def)
next
  case False
  let ?fs = "migration_files (md_entries dir)"
  have r: "run_loop exec dir (ms_applied st) ?fs st 0 = Inr (st', n)"
    using assms False by (simp add: runMigrations_def)
  note ok = run_loop_success [OF r]
  have "list_all (\<lambda>f. migration_name f \<in> set (ms_applied st')) ?fs"
    using ok by (auto simp: list_all_iff)
  then have "runMigrations exec dir st' = Inr (st', 0)"
    using False by (simp add: runMigrations_def run_loop_skip)
  then show ?thesis using ok by simp
qed

theorem runMigrations_success_witness:
  "runMigrations count_exec demo_dir \<lparr>ms_applied = [], ms_db = 0\<rparr> = Inr (\<lparr>ms_applied = [''001_init'', ''002_more.js''], ms_db = 12\<rparr>, 2) \<and>
   runMigrations count_exec demo_dir \<lparr>ms_applied = [''001_init'', ''002_more.js''], ms_db = 12\<rparr> =
     Inr (\<lparr>ms_applied = [''001_init'', ''002_more.js''], ms_db = 12\<rparr>, 0)"
proof -
  have r: "runMigrations count_exec demo_dir \<lparr>ms_applied = [], ms_db = 0::nat\<rparr> =
             Inr (\<lparr>ms_applied = [''001_init'', ''002_more.js''], ms_db = 12\<rparr>, 2)"
    by code_simp
  show ?thesis using r runMigrations_success [OF r] by blast
qed

text \<open>Migrations are not transactional: when statement \<open>k\<close> of the first pending SQL
  migration is rejected, the run fails with that error, the statements before it stay applied,
  and the migration is not recorded, so the next run starts it again from its first statement.\<close>

theorem runMigrations_partial_failure:
  assumes files: "migration_files (md_entries dir) = f # fs" and pending: "migration_name f \<notin> set (ms_applied st)"
    and sqlf: "\<not> ends_with f ''.js''"
    and prefix: "exec_stmts exec (take k (split_statements (md_read dir f))) (ms_db st) = (dbk, None)"
    and k: "k < length (split_statements (md_read dir f))"
    and fail: "exec (split_statements (md_read dir f) ! k) dbk = Inl e"
  shows "runMigrations exec dir st = Inl (e, st\<lparr>ms_db := dbk\<rparr>)"
  using exec_stmts_fail_at [OF prefix k fail] files pending sqlf
  by (simp add: runMigrations_def run_module_def)

theorem runMigrations_partial_failure_witness:
  "runMigrations second_fails demo_dir \<lparr>ms_applied = [], ms_db = 0\<rparr> =
     Inl (StoreFailed ''relation already exists'', \<lparr>ms_applied = [], ms_db = 1\<rparr>)"
proof -
  have files: "migration_files (md_entries demo_dir) = ''001_init.sql'' # [''002_more.js'']" by code_simp
  have sqlf: "\<not> ends_with ''001_init.sql'' ''.js''" by code_simp
  have prefix: "exec_stmts second_fails (take 1 (split_statements (md_read demo_dir ''001_init.sql'')))
                    (ms_db \<lparr>ms_applied = [], ms_db = 0::nat\<rparr>) = (1, None)"
    by code_simp
  have k: "1 < length (split_statements (md_read demo_dir ''001_init.sql''))" by code_simp
  have fail: "second_fails (split_statements (md_read demo_dir ''001_init.sql'') ! 1) 1 = Inl (StoreFailed ''relation already exists'')"
    by (simp add: second_fails_def)
  have "runMigrations second_fails demo_dir \<lparr>ms_applied = [], ms_db = 0\<rparr> =
          Inl (StoreFailed ''relation already exists'', \<lparr>ms_applied = [], ms_db = 0\<rparr>\<lparr>ms_db := 1\<rparr>)"
    by (rule runMigrations_partial_failure [where exec = second_fails and k = 1 and dbk = 1, OF files _ sqlf prefix k fail])
       (simp add: migration_name_def)
  then show ?thesis by simp
qed

text \<open>C24: With the repository's migrations directory, once \<open>001_initial_schema\<close> is recorded,
  every run fails on \<open>002_reattempt_schema.js\<close>, whose module cannot be loaded, with the
  database and the migrations table unchanged: the migration meant to re-create the schema
  never runs, whatever the database does.\<close>

theorem reattempt_schema_never_runs:
  assumes "''001_initial_schema'' \<in> set (ms_applied st)" "''002_reattempt_schema.js'' \<notin> set (ms_applied st)"
  shows "runMigrations exec (repo_migrations sql001) st = Inl (MISSING_CATCH, st)"
proof -
  have n1: "migration_name ''001_initial_schema.sql'' = ''001_initial_schema''" by code_simp
  have n2: "migration_name ''002_reattempt_schema.js'' = ''002_reattempt_schema.js''" by code_simp
  have js: "ends_with ''002_reattempt_schema.js'' ''.js''" by code_simp
  show ?thesis using assms n1 n2 js
    by (simp add: runMigrations_def repo_files run_module_def repo_migrations_def Let_def)
qed

theorem reattempt_schema_never_runs_witness:
  "runMigrations count_exec (repo_migrations []) \<lparr>ms_applied = [''001_initial_schema''], ms_db = 5\<rparr> =
     Inl (MISSING_CATCH, \<lparr>ms_applied = [''001_initial_schema''], ms_db = 5\<rparr>)"
  by (rule reattempt_schema_never_runs) simp_all

end
