(* ===== verification/Schema.thy ===== *)
theory Schema
  imports Migrations Content Knowledge_Store
begin

text \<open>The schema scripts: \<open>src/lib/db/reset-and-create.js\<close> (drop every table and type, then
  create the schema in one multi-statement call), the setup script of
  \<open>src/lib/db/reset-migration.js\<close> (the same drops and creates, one query each), the reset of
  the \<open>001_initial_schema\<close> record (same file), the enum script \<open>src/unnamed/part_005\<close>, and
  the \<open>source_file\<close> migration \<open>src/unnamed/part_003\<close>. A script is the list of DDL statements it
  sends; the schema is the enum types with their labels, the tables with their columns (name,
  type, referenced table), and the indexes (name, table, column). Column constraints other
  than references (\<open>NOT NULL\<close>, \<open>UNIQUE\<close>, defaults) are not modelled. The effect of each
  statement is PostgreSQL's: \<open>CREATE\<close> fails on an existing name or a missing type, table or
  column, \<open>DROP ... IF EXISTS ... CASCADE\<close> never fails and removes what depends on the
  object (indexes of a dropped table, columns of a dropped type and their indexes,
  references to a dropped table). The scripts that use Neon's serverless driver
  (\<open>reset-and-create.js\<close>, \<open>part_005\<close>) run in a mode \<open>ddl_commit\<close>: their DDL
  persists, or is rolled back as \<open>src/DEVELOPMENT.md\<close> reports; the \<open>pg\<close> client of
  \<open>reset-migration.js\<close> always persists.\<close>

section \<open>Schemas and statements\<close>

datatype col_type = Builtin string | EnumT string

record column =
  col_name :: string
  col_type :: col_type
  col_ref :: "string option"

record sql_table =
  tb_name :: string
  tb_cols :: "column list"

record schema =
  sc_types :: "(string \<times> string list) list"
  sc_tables :: "sql_table list"
  sc_indexes :: "(string \<times> string \<times> string) list"

datatype ddl =
    DropTable string
  | DropType string
  | CreateEnum string "string list"
  | CreateTable string "column list"
  | CreateIndex bool string string string
  | AddColumn string column
  | DropIndex string
  | DropColumn string string

definition has_table :: "schema \<Rightarrow> string \<Rightarrow> bool" where
  "has_table sc t = (t \<in> set (map tb_name (sc_tables sc)))"

definition table_cols :: "schema \<Rightarrow> string \<Rightarrow> column list" where
  "table_cols sc t = concat (map tb_cols (filter (\<lambda>tb. tb_name tb = t) (sc_tables sc)))"

definition has_column :: "schema \<Rightarrow> string \<Rightarrow> string \<Rightarrow> bool" where
  "has_column sc t c = (c \<in> set (map col_name (table_cols sc t)))"

definition enum_labels :: "schema \<Rightarrow> string \<Rightarrow> string list option" where
  "enum_labels sc n = map_of (sc_types sc) n"

definition col_type_ok :: "schema \<Rightarrow> column \<Rightarrow> bool" where
  "col_type_ok sc c =
     ((case col_type c of Builtin _ \<Rightarrow> True | EnumT n \<Rightarrow> n \<in> set (map fst (sc_types sc))) \<and>
      (case col_ref c of None \<Rightarrow> True | Some t \<Rightarrow> has_table sc t))"

definition ddl_failed :: "string \<Rightarrow> error" where
  "ddl_failed m = StoreFailed m"

text \<open>One statement.\<close>

fun exec_ddl :: "ddl \<Rightarrow> schema \<Rightarrow> error + schema" where
  "exec_ddl (DropTable t) sc =
     Inr \<lparr>sc_types = sc_types sc,
          sc_tables = map (\<lambda>tb. tb\<lparr>tb_cols := map (\<lambda>c. if col_ref c = Some t then c\<lparr>col_ref := None\<rparr> else c) (tb_cols tb)\<rparr>)
                        (filter (\<lambda>tb. tb_name tb \<noteq> t) (sc_tables sc)),
          sc_indexes = filter (\<lambda>(i, tb, c). tb \<noteq> t) (sc_indexes sc)\<rparr>"
| "exec_ddl (DropType n) sc =
     Inr \<lparr>sc_types = filter (\<lambda>(m, ls). m \<noteq> n) (sc_types sc),
          sc_tables = map (\<lambda>tb. tb\<lparr>tb_cols := filter (\<lambda>c. col_type c \<noteq> EnumT n) (tb_cols tb)\<rparr>) (sc_tables sc),
          sc_indexes = filter (\<lambda>(i, tb, c). \<not> list_ex (\<lambda>col. col_name col = c \<and> col_type col = EnumT n) (table_cols sc tb))
                         (sc_indexes sc)\<rparr>"
| "exec_ddl (CreateEnum n labels) sc =
     (if n \<in> set (map fst (sc_types sc)) then Inl (ddl_failed (''type '' @ n @ '' already exists''))
      else Inr (sc\<lparr>sc_types := sc_types sc @ [(n, labels)]\<rparr>))"
| "exec_ddl (CreateTable t cols) sc =
     (if has_table sc t then Inl (ddl_failed (''relation '' @ t @ '' already exists''))
      else if \<not> list_all (col_type_ok sc) cols then Inl (ddl_failed ''type or referenced table does not exist'')
      else Inr (sc\<lparr>sc_tables := sc_tables sc @ [\<lparr>tb_name = t, tb_cols = cols\<rparr>]\<rparr>))"
| "exec_ddl (CreateIndex ifNotExists i t c) sc =
     (if i \<in> set (map fst (sc_indexes sc))
      then (if ifNotExists then Inr sc else Inl (ddl_failed (''relation '' @ i @ '' already exists'')))
      else if \<not> has_column sc t c then Inl (ddl_failed (''column '' @ c @ '' does not exist''))
      else Inr (sc\<lparr>sc_indexes := sc_indexes sc @ [(i, t, c)]\<rparr>))"
| "exec_ddl (AddColumn t col) sc =
     (if \<not> has_table sc t then Inl (ddl_failed (''relation '' @ t @ '' does not exist''))
      else if has_column sc t (col_name col) then Inr sc
      else if \<not> col_type_ok sc col then Inl (ddl_failed ''type or referenced table does not exist'')
      else Inr (sc\<lparr>sc_tables := map (\<lambda>tb. if tb_name tb = t then tb\<lparr>tb_cols := tb_cols tb @ [col]\<rparr> else tb)
                                      (sc_tables sc)\<rparr>))"
| "exec_ddl (DropIndex i) sc = Inr (sc\<lparr>sc_indexes := filter (\<lambda>(j, t, c). j \<noteq> i) (sc_indexes sc)\<rparr>)"
| "exec_ddl (DropColumn t c) sc =
     (if \<not> has_table sc t then Inl (ddl_failed (''relation '' @ t @ '' does not exist''))
      else Inr \<lparr>sc_types = sc_types sc,
                sc_tables = map (\<lambda>tb. if tb_name tb = t then tb\<lparr>tb_cols := filter (\<lambda>col. col_name col \<noteq> c) (tb_cols tb)\<rparr>
                                    else tb) (sc_tables sc),
                sc_indexes = filter (\<lambda>(j, t', c'). \<not> (t' = t \<and> c' = c)) (sc_indexes sc)\<rparr>)"

text \<open>Statements sent one at a time: the first failure ends the run, the earlier statements
  stay applied.\<close>

fun exec_seq :: "ddl list \<Rightarrow> schema \<Rightarrow> (error \<times> schema) + schema" where
  "exec_seq [] sc = Inr sc"
| "exec_seq (d # ds) sc = (case exec_ddl d sc of Inl e \<Rightarrow> Inl (e, sc) | Inr sc' \<Rightarrow> exec_seq ds sc')"

text \<open>One multi-statement call: PostgreSQL runs it as one implicit transaction.\<close>

definition exec_batch :: "ddl list \<Rightarrow> schema \<Rightarrow> error + schema" where
  "exec_batch ds sc = (case exec_seq ds sc of Inl (e, _) \<Rightarrow> Inl e | Inr sc' \<Rightarrow> Inr sc')"

section \<open>DDL through the serverless driver\<close>

text \<open>\<open>reset-and-create.js\<close>, the enum script \<open>part_005\<close> and the test scripts send their DDL
  through \<open>@neondatabase/serverless\<close>; the setup script of \<open>reset-migration.js\<close> and the
  \<open>source_file\<close> migration use the \<open>pg\<close> client. \<open>src/DEVELOPMENT.md\<close> (2026-01-15, ``Critical
  Discovery'') reports that DDL sent through the serverless driver executes but does not
  persist, while PostgreSQL commits each HTTP query on its own, under which it would persist.
  The model keeps both readings as the mode of a call: with \<open>DdlPersists\<close> the statement
  takes effect; with \<open>DdlRolledBack\<close> it answers as it would (an error is raised against the
  database as it stands) and leaves the database as it was.\<close>

datatype ddl_commit = DdlPersists | DdlRolledBack

definition neon_ddl :: "ddl_commit \<Rightarrow> ('s \<Rightarrow> error + 's) \<Rightarrow> 's \<Rightarrow> error + 's" where
  "neon_ddl m f s = (case f s of Inl e \<Rightarrow> Inl e | Inr s' \<Rightarrow> Inr (case m of DdlPersists \<Rightarrow> s' | DdlRolledBack \<Rightarrow> s))"

text \<open>Statements sent one call each through the serverless driver.\<close>

fun neon_seq :: "ddl_commit \<Rightarrow> ddl list \<Rightarrow> schema \<Rightarrow> (error \<times> schema) + schema" where
  "neon_seq m [] sc = Inr sc"
| "neon_seq m (d # ds) sc = (case neon_ddl m (exec_ddl d) sc of Inl e \<Rightarrow> Inl (e, sc) | Inr sc' \<Rightarrow> neon_seq m ds sc')"

section \<open>The schema the scripts create\<close>

definition bcol :: "string \<Rightarrow> string \<Rightarrow> column" where
  "bcol n t = \<lparr>col_name = n, col_type = Builtin t, col_ref = None\<rparr>"

definition ecol :: "string \<Rightarrow> string \<Rightarrow> column" where
  "ecol n e = \<lparr>col_name = n, col_type = EnumT e, col_ref = None\<rparr>"

definition rcol :: "string \<Rightarrow> string \<Rightarrow> column" where
  "rcol n t = \<lparr>col_name = n, col_type = Builtin ''UUID'', col_ref = Some t\<rparr>"

definition create_enums :: "ddl list" where
  "create_enums =
     [CreateEnum ''content_source'' [''webflow'', ''hubspot'', ''youtube'', ''manual''],
      CreateEnum ''content_type'' [''blog_post'', ''whitepaper'', ''case_study'', ''webinar'', ''video'', ''landing_page'',
                                  ''labs_app'', ''other''],
      CreateEnum ''post_type'' [''content_announcement'', ''content_promotion'', ''social_proof'', ''centercode_feature'',
                               ''company_news'', ''event_announcement'', ''event_promotion'', ''sharing_industry_article'',
                               ''labs_app_launch'', ''labs_app_promotion'', ''partnership_announcement'',
                               ''holiday_celebration'', ''industry_day_celebration'', ''other''],
      CreateEnum ''platform'' [''linkedin'', ''facebook'', ''twitter''],
      CreateEnum ''post_status'' [''pending'', ''accepted'', ''rejected''],
      CreateEnum ''feedback_type'' [''accept'', ''reject''],
      CreateEnum ''special_day_type'' [''holiday'', ''industry_day''],
      CreateEnum ''brand_voice_source'' [''style_guide'', ''example_post'', ''feedback'']]"

definition create_tables :: "ddl list" where
  "create_tables =
     [CreateTable ''content_items''
        [bcol ''id'' ''UUID'', ecol ''source'' ''content_source'', bcol ''url'' ''TEXT'', bcol ''title'' ''TEXT'',
         ecol ''content_type'' ''content_type'', bcol ''excerpt'' ''TEXT'', bcol ''metadata'' ''JSONB'',
         bcol ''publication_date'' ''TIMESTAMPTZ'', bcol ''last_polled'' ''TIMESTAMPTZ'',
         bcol ''created_at'' ''TIMESTAMPTZ'', bcol ''updated_at'' ''TIMESTAMPTZ''],
      CreateTable ''generated_posts''
        [bcol ''id'' ''UUID'', rcol ''content_id'' ''content_items'', ecol ''post_type'' ''post_type'',
         ecol ''platform'' ''platform'', bcol ''text'' ''TEXT'', bcol ''scheduled_date'' ''TIMESTAMPTZ'',
         ecol ''status'' ''post_status'', bcol ''campaign_id'' ''UUID'', bcol ''quality_check_passed'' ''BOOLEAN'',
         bcol ''quality_check_details'' ''JSONB'', bcol ''created_at'' ''TIMESTAMPTZ'', bcol ''finalized_at'' ''TIMESTAMPTZ''],
      CreateTable ''post_history''
        [bcol ''id'' ''UUID'', rcol ''content_id'' ''content_items'', rcol ''post_id'' ''generated_posts'',
         ecol ''post_type'' ''post_type'', bcol ''used_date'' ''TIMESTAMPTZ'', bcol ''created_at'' ''TIMESTAMPTZ''],
      CreateTable ''user_feedback''
        [bcol ''id'' ''UUID'', rcol ''post_id'' ''generated_posts'', ecol ''feedback_type'' ''feedback_type'',
         bcol ''learned_patterns'' ''JSONB'', bcol ''notes'' ''TEXT'', bcol ''created_at'' ''TIMESTAMPTZ''],
      CreateTable ''industry_articles''
        [bcol ''id'' ''UUID'', bcol ''url'' ''TEXT'', bcol ''title'' ''TEXT'', bcol ''source'' ''TEXT'',
         bcol ''excerpt'' ''TEXT'', bcol ''discovered_at'' ''TIMESTAMPTZ'', bcol ''relevance_score'' ''DECIMAL(3, 2)'',
         bcol ''marked_not_relevant'' ''BOOLEAN'', bcol ''created_at'' ''TIMESTAMPTZ''],
      CreateTable ''special_days''
        [bcol ''id'' ''UUID'', bcol ''date'' ''DATE'', bcol ''name'' ''TEXT'', ecol ''type'' ''special_day_type'',
         bcol ''description'' ''TEXT'', bcol ''relevance_score'' ''DECIMAL(3, 2)'', bcol ''created_at'' ''TIMESTAMPTZ'',
         bcol ''updated_at'' ''TIMESTAMPTZ''],
      CreateTable ''content_taxonomy''
        [bcol ''id'' ''UUID'', rcol ''content_id'' ''content_items'', bcol ''topics'' ''TEXT[]'', bcol ''themes'' ''TEXT[]'',
         bcol ''personas'' ''TEXT[]'', bcol ''key_messages'' ''JSONB'', bcol ''created_at'' ''TIMESTAMPTZ'',
         bcol ''updated_at'' ''TIMESTAMPTZ''],
      CreateTable ''brand_voice_embeddings''
        [bcol ''id'' ''UUID'', ecol ''source'' ''brand_voice_source'', bcol ''text'' ''TEXT'', bcol ''embedding'' ''JSONB'',
         bcol ''metadata'' ''JSONB'', bcol ''created_at'' ''TIMESTAMPTZ'']]"

definition create_indexes :: "ddl list" where
  "create_indexes =
     [CreateIndex False ''idx_content_items_source'' ''content_items'' ''source'',
      CreateIndex False ''idx_content_items_content_type'' ''content_items'' ''content_type'',
      CreateIndex False ''idx_generated_posts_content_id'' ''generated_posts'' ''content_id'',
      CreateIndex False ''idx_post_history_content_id'' ''post_history'' ''content_id'']"

section \<open>reset-and-create.js\<close>

definition RESET_TABLES :: "string list" where
  "RESET_TABLES = [''user_feedback'', ''post_history'', ''generated_posts'', ''content_taxonomy'',
     ''brand_voice_embeddings'', ''content_items'', ''industry_articles'', ''special_days'', ''simple_test'', ''test_table'']"

definition RESET_TYPES :: "string list" where
  "RESET_TYPES = [''content_source'', ''content_type'', ''post_type'', ''platform'', ''post_status'', ''feedback_type'',
     ''special_day_type'', ''brand_voice_source'', ''test_enum'']"

text \<open>The two drop loops: each \<open>DROP ... IF EXISTS\<close> in its own \<open>try\<close>, a failure skipped.\<close>

fun drop_each :: "ddl_commit \<Rightarrow> ddl list \<Rightarrow> schema \<Rightarrow> schema" where
  "drop_each m [] sc = sc"
| "drop_each m (d # ds) sc = drop_each m ds (case neon_ddl m (exec_ddl d) sc of Inl _ \<Rightarrow> sc | Inr sc' \<Rightarrow> sc')"

text \<open>\<open>answer.toLowerCase() === 'y' || ... === 'yes'\<close>.\<close>

definition confirmed_answer :: "string \<Rightarrow> bool" where
  "confirmed_answer a = (to_lower a = ''y'' \<or> to_lower a = ''yes'')"

text \<open>\<open>resetAndCreate\<close>: nothing when the answer is not a yes; otherwise the drops, then the
  creates as one call, all through the serverless driver in mode \<open>m\<close>. A failure of that call
  is the error the script exits with, with the schema the drops left.\<close>

definition resetAndCreate :: "ddl_commit \<Rightarrow> string \<Rightarrow> schema \<Rightarrow> (error \<times> schema) + schema" where
  "resetAndCreate m answer sc =
     (if \<not> confirmed_answer answer then Inr sc
      else (let sc1 = drop_each m (map DropType RESET_TYPES) (drop_each m (map DropTable RESET_TABLES) sc)
            in case neon_ddl m (exec_batch (create_enums @ create_tables @ create_indexes)) sc1 of
                 Inl e \<Rightarrow> Inl (e, sc1)
               | Inr sc2 \<Rightarrow> Inr sc2))"

section \<open>reset-migration.js\<close>

text \<open>\<open>reset\<close>: \<open>DELETE FROM migrations WHERE name = '001_initial_schema'\<close>.\<close>

definition reset_migration_record :: "'db mig_state \<Rightarrow> 'db mig_state" where
  "reset_migration_record st = st\<lparr>ms_applied := filter (\<lambda>n. n \<noteq> ''001_initial_schema'') (ms_applied st)\<rparr>"

definition SETUP_TABLES :: "string list" where
  "SETUP_TABLES = [''user_feedback'', ''post_history'', ''generated_posts'', ''content_taxonomy'',
     ''brand_voice_embeddings'', ''content_items'', ''industry_articles'', ''special_days'']"

definition SETUP_TYPES :: "string list" where
  "SETUP_TYPES = [''content_source'', ''content_type'', ''post_type'', ''platform'', ''post_status'', ''feedback_type'',
     ''special_day_type'', ''brand_voice_source'']"

text \<open>\<open>setup\<close>: every statement is its own \<open>client.query\<close> in one \<open>try\<close> block; the first
  failure ends the script with the statements before it applied.\<close>

definition setup_script :: "schema \<Rightarrow> (error \<times> schema) + schema" where
  "setup_script sc = exec_seq (map DropTable SETUP_TABLES @ map DropType SETUP_TYPES @
                        create_enums @ create_tables @ create_indexes) sc"

section \<open>The enum script and the source-file migration\<close>

text \<open>\<open>create\<close> of \<open>part_005\<close>: the eight \<open>CREATE TYPE\<close> one by one through the serverless
  driver; its \<open>catch\<close> only logs, so the script ends normally whatever happened.\<close>

definition create_enum_script :: "ddl_commit \<Rightarrow> schema \<Rightarrow> schema" where
  "create_enum_script m sc = (case neon_seq m create_enums sc of Inl (_, sc') \<Rightarrow> sc' | Inr sc' \<Rightarrow> sc')"

text \<open>\<open>up\<close> of the \<open>source_file\<close> migration: the \<open>DATABASE_URL\<close> check, then the column and the
  index, both \<open>IF NOT EXISTS\<close>.\<close>

definition add_source_file_up :: "string option \<Rightarrow> schema \<Rightarrow> schema \<times> error option" where
  "add_source_file_up url sc =
     (case url of None \<Rightarrow> (sc, Some (StoreFailed ''DATABASE_URL environment variable is not set''))
      | Some _ \<Rightarrow>
         (case exec_seq [AddColumn ''brand_voice_embeddings'' (bcol ''source_file'' ''TEXT''),
                         CreateIndex True ''idx_brand_voice_embeddings_source_file'' ''brand_voice_embeddings'' ''source_file''] sc of
            Inl (e, sc') \<Rightarrow> (sc', Some e)
          | Inr sc' \<Rightarrow> (sc', None)))"

section \<open>The schema a script describes\<close>

text \<open>A schema whose indexes are on existing columns, as in any database; and the schema the
  create statements describe: their enums, tables and indexes in order.\<close>

definition schema_wf :: "schema \<Rightarrow> bool" where
  "schema_wf sc = list_all (\<lambda>(i, t, c). has_column sc t c) (sc_indexes sc)"

fun ddl_enum :: "ddl \<Rightarrow> (string \<times> string list) list" where
  "ddl_enum (CreateEnum n ls) = [(n, ls)]"
| "ddl_enum _ = []"

fun ddl_table :: "ddl \<Rightarrow> sql_table list" where
  "ddl_table (CreateTable t cols) = [\<lparr>tb_name = t, tb_cols = cols\<rparr>]"
| "ddl_table _ = []"

fun ddl_index :: "ddl \<Rightarrow> (string \<times> string \<times> string) list" where
  "ddl_index (CreateIndex b i t c) = [(i, t, c)]"
| "ddl_index _ = []"

definition fresh_schema :: schema where
  "fresh_schema =
     (let ds = create_enums @ create_tables @ create_indexes
      in \<lparr>sc_types = concat (map ddl_enum ds), sc_tables = concat (map ddl_table ds),
          sc_indexes = concat (map ddl_index ds)\<rparr>)"

text \<open>The statements that only create (enum, table, or index without \<open>IF NOT EXISTS\<close>), and a
  schema extended by the objects of another.\<close>

fun is_create :: "ddl \<Rightarrow> bool" where
  "is_create (CreateEnum n ls) = True"
| "is_create (CreateTable t cols) = True"
| "is_create (CreateIndex b i t c) = (\<not> b)"
| "is_create _ = False"

definition sc_extend :: "schema \<Rightarrow> schema \<Rightarrow> schema" where
  "sc_extend a r = \<lparr>sc_types = sc_types a @ sc_types r, sc_tables = sc_tables a @ sc_tables r,
                     sc_indexes = sc_indexes a @ sc_indexes r\<rparr>"

text \<open>\<open>down\<close> of the \<open>source_file\<close> migration: the index, then the column, both
  \<open>IF EXISTS\<close>.\<close>

definition drop_source_file_down :: "string option \<Rightarrow> schema \<Rightarrow> schema \<times> error option" where
  "drop_source_file_down url sc =
     (case url of None \<Rightarrow> (sc, Some (StoreFailed ''DATABASE_URL environment variable is not set''))
      | Some _ \<Rightarrow>
         (case exec_seq [DropIndex ''idx_brand_voice_embeddings_source_file'',
                         DropColumn ''brand_voice_embeddings'' ''source_file''] sc of
            Inl (e, sc') \<Rightarrow> (sc', Some e)
          | Inr sc' \<Rightarrow> (sc', None)))"

section \<open>Sample schemas\<close>

definition empty_schema :: schema where
  "empty_schema = \<lparr>sc_types = [], sc_tables = [], sc_indexes = []\<rparr>"

text \<open>A development database with a stray test table, a stale enum and an old index.\<close>

definition dev_schema :: schema where
  "dev_schema = \<lparr>sc_types = [(''content_source'', [''webflow'']), (''test_enum'', [''a''])],
     sc_tables = [\<lparr>tb_name = ''test_table'', tb_cols = [ecol ''e'' ''test_enum'']\<rparr>,
                  \<lparr>tb_name = ''content_items'', tb_cols = [ecol ''source'' ''content_source'']\<rparr>],
     sc_indexes = [(''idx_content_items_source'', ''content_items'', ''source'')]\<rparr>"

text \<open>The application's tables only: the content table with its enum and index.\<close>

definition app_schema :: schema where
  "app_schema = \<lparr>sc_types = [(''content_source'', [''webflow'', ''hubspot''])],
     sc_tables = [\<lparr>tb_name = ''content_items'', tb_cols = [ecol ''source'' ''content_source'', bcol ''url'' ''TEXT'']\<rparr>],
     sc_indexes = [(''idx_content_items_source'', ''content_items'', ''source'')]\<rparr>"

section \<open>Lemmas: drops and creates\<close>

lemma neon_ddl_persists [simp]: "neon_ddl DdlPersists f s = f s"
  by (simp add: neon_ddl_def split: sum.split)

lemma neon_ddl_rolled_back: "neon_ddl DdlRolledBack f s = Inr s \<or> (\<exists>e. neon_ddl DdlRolledBack f s = Inl e)"
  by (simp add: neon_ddl_def split: sum.split)

lemma drop_each_rolled_back [simp]: "drop_each DdlRolledBack ds sc = sc"
  by (induction ds) (simp_all add: neon_ddl_def split: sum.split)

lemma neon_seq_persists [simp]: "neon_seq DdlPersists ds sc = exec_seq ds sc"
  by (induction ds arbitrary: sc) (simp_all split: sum.split)

lemma has_column_table: "has_column sc t c \<Longrightarrow> has_table sc t"
  by (auto simp: has_column_def table_cols_def has_table_def)

lemma drop_tables_effect:
  "drop_each DdlPersists (map DropTable L) sc = sc' \<Longrightarrow>
   sc_types sc' = sc_types sc \<and> map tb_name (sc_tables sc') = filter (\<lambda>t. t \<notin> set L) (map tb_name (sc_tables sc)) \<and>
   sc_indexes sc' = filter (\<lambda>(i, t, c). t \<notin> set L) (sc_indexes sc)"
proof (induction L arbitrary: sc)
  case Nil then show ?case by simp
next
  case (Cons t L)
  show ?case using Cons.IH [OF Cons.prems [simplified]]
    by (auto simp: filter_map comp_def intro!: filter_cong)
qed

lemma drop_types_effect:
  "sc_tables sc = [] \<Longrightarrow> sc_indexes sc = [] \<Longrightarrow>
   drop_each DdlPersists (map DropType L) sc = sc\<lparr>sc_types := filter (\<lambda>(m, ls). m \<notin> set L) (sc_types sc)\<rparr>"
proof (induction L arbitrary: sc)
  case Nil then show ?case by simp
next
  case (Cons n L)
  then show ?case by (simp add: filter_filter conj_commute case_prod_unfold)
qed

lemma drops_empty:
  assumes wf: "schema_wf sc" and tb: "list_all (\<lambda>t. tb_name t \<in> set LT) (sc_tables sc)"
    and ty: "list_all (\<lambda>(n, ls). n \<in> set LY) (sc_types sc)"
  shows "drop_each DdlPersists (map DropType LY) (drop_each DdlPersists (map DropTable LT) sc) = empty_schema"
proof -
  let ?sc1 = "drop_each DdlPersists (map DropTable LT) sc"
  note e = drop_tables_effect [OF refl, of LT sc]
  have t: "sc_tables ?sc1 = []"
  proof -
    have "filter (\<lambda>t. t \<notin> set LT) (map tb_name (sc_tables sc)) = []"
      using tb by (auto simp: filter_empty_conv list_all_iff)
    then show ?thesis using e by simp
  qed
  have i: "sc_indexes ?sc1 = []"
    using e wf tb by (fastforce simp: filter_empty_conv list_all_iff schema_wf_def has_table_def dest: has_column_table)
  have "filter (\<lambda>(m, ls). m \<notin> set LY) (sc_types sc) = []"
    using ty by (auto simp: filter_empty_conv list_all_iff)
  then have "drop_each DdlPersists (map DropType LY) ?sc1 = ?sc1\<lparr>sc_types := []\<rparr>"
    using drop_types_effect [OF t i, of LY] e by simp
  then show ?thesis by (simp add: empty_schema_def t i schema.equality)
qed

lemma yes_confirmed: "confirmed_answer ''y''"
  by code_simp

lemma drop_each_empty: "drop_each DdlPersists (map DropType LY) (drop_each DdlPersists (map DropTable LT) empty_schema) = empty_schema"
  by (rule drops_empty) (simp_all add: empty_schema_def schema_wf_def)

lemma fresh_batch: "exec_batch (create_enums @ create_tables @ create_indexes) empty_schema = Inr fresh_schema"
  by code_simp

lemma fresh_seq: "exec_seq (create_enums @ create_tables @ create_indexes) empty_schema = Inr fresh_schema"
  by code_simp

lemma reset_empty: "resetAndCreate DdlPersists ''y'' empty_schema = Inr fresh_schema"
  using fresh_batch yes_confirmed drop_each_empty by (simp add: resetAndCreate_def)

lemma exec_seq_append:
  "exec_seq (ds1 @ ds2) sc = (case exec_seq ds1 sc of Inl x \<Rightarrow> Inl x | Inr sc' \<Rightarrow> exec_seq ds2 sc')"
  by (induction ds1 arbitrary: sc) (auto split: sum.split)

lemma exec_seq_drops:
  "exec_seq (map DropTable LT @ map DropType LY) sc =
     Inr (drop_each DdlPersists (map DropType LY) (drop_each DdlPersists (map DropTable LT) sc))"
proof -
  have "\<And>sc. exec_seq (map DropTable LT) sc = Inr (drop_each DdlPersists (map DropTable LT) sc)"
    by (induction LT) simp_all
  moreover have "\<And>sc. exec_seq (map DropType LY) sc = Inr (drop_each DdlPersists (map DropType LY) sc)"
    by (induction LY) simp_all
  ultimately show ?thesis by (simp add: exec_seq_append)
qed

lemma setup_lists_sub: "set SETUP_TABLES \<subseteq> set RESET_TABLES" "set SETUP_TYPES \<subseteq> set RESET_TYPES"
  by code_simp+

lemma filter_last_not: "\<not> P x \<Longrightarrow> list_all P xs \<Longrightarrow> filter P (xs @ [x]) = xs"
  by (induction xs) auto

lemma list_all_fst_ne: "x \<notin> set (map fst xs) \<Longrightarrow> list_all (\<lambda>(j, t, c). j \<noteq> x) xs"
  by (induction xs) auto

lemma add_then_drop_column:
  "col_name c = n \<Longrightarrow>
   list_all (\<lambda>tb. tb_name tb = t \<longrightarrow> list_all (\<lambda>col. col_name col \<noteq> n) (tb_cols tb)) tbs \<Longrightarrow>
   map (\<lambda>tb. if tb_name tb = t then tb\<lparr>tb_cols := filter (\<lambda>col. col_name col \<noteq> n) (tb_cols tb)\<rparr> else tb)
     (map (\<lambda>tb. if tb_name tb = t then tb\<lparr>tb_cols := tb_cols tb @ [c]\<rparr> else tb) tbs) = tbs"
  by (induction tbs) (auto simp: list_all_iff)

lemma add_column_undo:
  assumes tb: "has_table sc t" and nc: "\<not> has_column sc t (col_name col)"
    and ok: "col_type_ok sc col" and wf: "schema_wf sc"
  obtains sc1 where "exec_ddl (AddColumn t col) sc = Inr sc1" "has_column sc1 t (col_name col)"
    "sc_indexes sc1 = sc_indexes sc" "exec_ddl (DropColumn t (col_name col)) sc1 = Inr sc"
proof -
  let ?sc1 = "sc\<lparr>sc_tables := map (\<lambda>tb. if tb_name tb = t then tb\<lparr>tb_cols := tb_cols tb @ [col]\<rparr> else tb)
                                    (sc_tables sc)\<rparr>"
  obtain tb0 where tb0: "tb0 \<in> set (sc_tables sc)" "tb_name tb0 = t" using tb by (auto simp: has_table_def)
  have m: "tb0\<lparr>tb_cols := tb_cols tb0 @ [col]\<rparr> \<in> set (filter (\<lambda>tb. tb_name tb = t) (sc_tables ?sc1))"
    using tb0 by (simp add: image_iff) (rule bexI [of _ tb0], simp_all)
  have "col \<in> set (tb_cols (tb0\<lparr>tb_cols := tb_cols tb0 @ [col]\<rparr>))" by simp
  then have "col \<in> set (table_cols ?sc1 t)"
    unfolding table_cols_def set_concat set_map using m by blast
  then have hc1: "has_column ?sc1 t (col_name col)" by (simp add: has_column_def)
  have pre: "list_all (\<lambda>tb. tb_name tb = t \<longrightarrow> list_all (\<lambda>c. col_name c \<noteq> col_name col) (tb_cols tb)) (sc_tables sc)"
    unfolding list_all_iff
  proof (intro ballI impI)
    fix tb c assume "tb \<in> set (sc_tables sc)" "tb_name tb = t" "c \<in> set (tb_cols tb)"
    then have "c \<in> set (table_cols sc t)" by (auto simp: table_cols_def)
    then show "col_name c \<noteq> col_name col" using nc unfolding has_column_def by (metis image_eqI set_map)
  qed
  have idx: "filter (\<lambda>(j, t', c'). \<not> (t' = t \<and> c' = col_name col)) (sc_indexes sc) = sc_indexes sc"
    using wf nc by (auto simp: schema_wf_def list_all_iff filter_id_conv)
  have tb1: "has_table ?sc1 t" using tb by (force simp: has_table_def)
  have "exec_ddl (DropColumn t (col_name col)) ?sc1 = Inr sc"
    using tb1 idx add_then_drop_column [OF refl pre] by simp
  then show ?thesis using that tb nc ok hc1 by simp
qed

text \<open>Every statement keeps the indexes on existing columns.\<close>

lemma has_column_iff: "has_column sc t c = (\<exists>tb\<in>set (sc_tables sc). tb_name tb = t \<and> (\<exists>col\<in>set (tb_cols tb). col_name col = c))"
  by (auto simp: has_column_def table_cols_def)

lemma wf_index_col:
  "schema_wf sc \<Longrightarrow> (i, t, c) \<in> set (sc_indexes sc) \<Longrightarrow>
   \<exists>tb\<in>set (sc_tables sc). tb_name tb = t \<and> (\<exists>col\<in>set (tb_cols tb). col_name col = c)"
  unfolding schema_wf_def list_all_iff has_column_iff by fastforce

lemma has_column_mapI:
  "sc_tables sc' = map g tbs \<Longrightarrow> tb \<in> set tbs \<Longrightarrow> col \<in> set (tb_cols tb) \<Longrightarrow>
   tb_name (g tb) = t \<Longrightarrow> h col \<in> set (tb_cols (g tb)) \<Longrightarrow> col_name (h col) = c \<Longrightarrow> has_column sc' t c"
  unfolding has_column_iff by fastforce

lemma schema_wfI: "(\<And>i t c. (i, t, c) \<in> set (sc_indexes sc) \<Longrightarrow> has_column sc t c) \<Longrightarrow> schema_wf sc"
  unfolding schema_wf_def list_all_iff by fastforce

lemma wf_drop_table: "schema_wf sc \<Longrightarrow> exec_ddl (DropTable t) sc = Inr sc' \<Longrightarrow> schema_wf sc'"
proof (rule schema_wfI)
  fix i tn c assume wf: "schema_wf sc" and e: "exec_ddl (DropTable t) sc = Inr sc'" and m: "(i, tn, c) \<in> set (sc_indexes sc')"
  then have m0: "(i, tn, c) \<in> set (sc_indexes sc)" and ne: "tn \<noteq> t" by auto
  obtain tb col where tb: "tb \<in> set (sc_tables sc)" "tb_name tb = tn" "col \<in> set (tb_cols tb)" "col_name col = c"
    using wf_index_col [OF wf m0] by blast
  let ?f = "\<lambda>c. if col_ref c = Some t then c\<lparr>col_ref := None\<rparr> else c"
  show "has_column sc' tn c"
    by (rule has_column_mapI [where tbs = "filter (\<lambda>tb. tb_name tb \<noteq> t) (sc_tables sc)" and tb = tb and col = col
          and g = "\<lambda>tb. tb\<lparr>tb_cols := map ?f (tb_cols tb)\<rparr>" and h = ?f])
       (use e tb ne in auto)
qed

lemma wf_drop_type: "schema_wf sc \<Longrightarrow> exec_ddl (DropType n) sc = Inr sc' \<Longrightarrow> schema_wf sc'"
proof (rule schema_wfI)
  fix i t c assume wf: "schema_wf sc" and e: "exec_ddl (DropType n) sc = Inr sc'" and m: "(i, t, c) \<in> set (sc_indexes sc')"
  then have m0: "(i, t, c) \<in> set (sc_indexes sc)"
    and ne: "\<not> list_ex (\<lambda>col. col_name col = c \<and> col_type col = EnumT n) (table_cols sc t)" by auto
  obtain tb col where tb: "tb \<in> set (sc_tables sc)" "tb_name tb = t" "col \<in> set (tb_cols tb)" "col_name col = c"
    using wf_index_col [OF wf m0] by blast
  have "col \<in> set (table_cols sc t)" using tb by (auto simp: table_cols_def)
  then have ty: "col_type col \<noteq> EnumT n" using ne tb(4) by (auto simp: list_ex_iff)
  show "has_column sc' t c"
    by (rule has_column_mapI [where tbs = "sc_tables sc" and tb = tb and col = col and h = id
          and g = "\<lambda>tb. tb\<lparr>tb_cols := filter (\<lambda>c. col_type c \<noteq> EnumT n) (tb_cols tb)\<rparr>"])
       (use e tb ty in auto)
qed

lemma wf_add_column: "schema_wf sc \<Longrightarrow> exec_ddl (AddColumn t col0) sc = Inr sc' \<Longrightarrow> schema_wf sc'"
proof (cases "\<not> has_table sc t \<or> has_column sc t (col_name col0) \<or> \<not> col_type_ok sc col0")
  case True
  assume "schema_wf sc" "exec_ddl (AddColumn t col0) sc = Inr sc'"
  then show ?thesis using True by (auto split: if_splits)
next
  case False
  assume wf: "schema_wf sc" and e: "exec_ddl (AddColumn t col0) sc = Inr sc'"
  let ?g = "\<lambda>tb. if tb_name tb = t then tb\<lparr>tb_cols := tb_cols tb @ [col0]\<rparr> else tb"
  have sc': "sc' = sc\<lparr>sc_tables := map ?g (sc_tables sc)\<rparr>" using e False by simp
  show ?thesis
  proof (rule schema_wfI)
    fix i tn c assume "(i, tn, c) \<in> set (sc_indexes sc')"
    then have m0: "(i, tn, c) \<in> set (sc_indexes sc)" using sc' by simp
    obtain tb col where tb: "tb \<in> set (sc_tables sc)" "tb_name tb = tn" "col \<in> set (tb_cols tb)" "col_name col = c"
      using wf_index_col [OF wf m0] by blast
    show "has_column sc' tn c"
      by (rule has_column_mapI [where tbs = "sc_tables sc" and tb = tb and col = col and h = id and g = ?g])
         (use sc' tb in auto)
  qed
qed

lemma wf_drop_column: "schema_wf sc \<Longrightarrow> exec_ddl (DropColumn t c0) sc = Inr sc' \<Longrightarrow> schema_wf sc'"
proof (rule schema_wfI)
  fix i tn c assume wf: "schema_wf sc" and e: "exec_ddl (DropColumn t c0) sc = Inr sc'" and m: "(i, tn, c) \<in> set (sc_indexes sc')"
  then have m0: "(i, tn, c) \<in> set (sc_indexes sc)" and ne: "\<not> (tn = t \<and> c = c0)" by (auto split: if_splits)
  obtain tb col where tb: "tb \<in> set (sc_tables sc)" "tb_name tb = tn" "col \<in> set (tb_cols tb)" "col_name col = c"
    using wf_index_col [OF wf m0] by blast
  let ?g = "\<lambda>tb. if tb_name tb = t then tb\<lparr>tb_cols := filter (\<lambda>col. col_name col \<noteq> c0) (tb_cols tb)\<rparr> else tb"
  show "has_column sc' tn c"
    by (rule has_column_mapI [where tbs = "sc_tables sc" and tb = tb and col = col and h = id and g = ?g])
       (use e tb ne in \<open>auto split: if_splits\<close>)
qed

lemma exec_ddl_wf: "schema_wf sc \<Longrightarrow> exec_ddl d sc = Inr sc' \<Longrightarrow> schema_wf sc'"
proof (cases d)
  case (CreateEnum n ls)
  assume "schema_wf sc" "exec_ddl d sc = Inr sc'"
  then show ?thesis using CreateEnum by (auto simp: schema_wf_def has_column_def table_cols_def split: if_splits)
next
  case (CreateTable t cols)
  assume wf: "schema_wf sc" and e: "exec_ddl d sc = Inr sc'"
  show ?thesis
  proof (rule schema_wfI)
    fix i tn c assume "(i, tn, c) \<in> set (sc_indexes sc')"
    then have "(i, tn, c) \<in> set (sc_indexes sc)" "sc_tables sc' = sc_tables sc @ [\<lparr>tb_name = t, tb_cols = cols\<rparr>]"
      using e CreateTable by (auto split: if_splits)
    then show "has_column sc' tn c" using wf_index_col [OF wf] unfolding has_column_iff by auto
  qed
next
  case (CreateIndex b i t c)
  assume "schema_wf sc" "exec_ddl d sc = Inr sc'"
  moreover have "has_column (sc\<lparr>sc_indexes := ixs\<rparr>) = has_column sc" for ixs
    by (simp add: has_column_def table_cols_def fun_eq_iff)
  ultimately show ?thesis using CreateIndex by (auto simp: schema_wf_def split: if_splits)
next
  case (DropIndex i)
  assume "schema_wf sc" "exec_ddl d sc = Inr sc'"
  then show ?thesis using DropIndex by (auto simp: schema_wf_def list_all_iff has_column_def table_cols_def)
qed (use wf_drop_table wf_drop_type wf_add_column wf_drop_column in blast)+

text \<open>The type drops, when they take effect, on any schema: the table names stay, the named
  types go, no index is added.\<close>

lemma drop_types_names:
  "drop_each DdlPersists (map DropType L) sc = sc' \<Longrightarrow>
   map tb_name (sc_tables sc') = map tb_name (sc_tables sc) \<and>
   sc_types sc' = filter (\<lambda>(m, ls). m \<notin> set L) (sc_types sc) \<and> set (sc_indexes sc') \<subseteq> set (sc_indexes sc)"
proof (induction L arbitrary: sc)
  case Nil then show ?case by simp
next
  case (Cons n L)
  show ?case using Cons.IH [OF Cons.prems [simplified]]
    by (auto simp: comp_def filter_filter conj_commute case_prod_unfold)
qed

text \<open>What the drops of \<open>reset-and-create.js\<close> leave, when they take effect, of any schema.\<close>

lemma reset_drops:
  assumes "sc1 = drop_each DdlPersists (map DropType LY) (drop_each DdlPersists (map DropTable LT) sc)"
  shows "list_all (\<lambda>tb. tb_name tb \<notin> set LT) (sc_tables sc1) \<and>
         map tb_name (sc_tables sc1) = filter (\<lambda>t. t \<notin> set LT) (map tb_name (sc_tables sc)) \<and>
         list_all (\<lambda>(n, ls). n \<notin> set LY) (sc_types sc1) \<and>
         (\<forall>(i, t, c)\<in>set (sc_indexes sc1). (i, t, c) \<in> set (sc_indexes sc) \<and> t \<notin> set LT)"
proof -
  let ?sc0 = "drop_each DdlPersists (map DropTable LT) sc"
  note t = drop_tables_effect [OF refl, of LT sc]
  note y = drop_types_names [OF assms [symmetric]]
  have n: "map tb_name (sc_tables sc1) = filter (\<lambda>t. t \<notin> set LT) (map tb_name (sc_tables sc))"
    using t y by simp
  then have "set (map tb_name (sc_tables sc1)) \<subseteq> - set LT"
    by auto
  then have "\<forall>tb\<in>set (sc_tables sc1). tb_name tb \<notin> set LT"
    by auto
  moreover have "\<forall>(i, t, c)\<in>set (sc_indexes sc1). (i, t, c) \<in> set (sc_indexes sc) \<and> t \<notin> set LT"
    using t y by auto
  moreover have "list_all (\<lambda>(n, ls). n \<notin> set LY) (sc_types sc1)"
    using y by (auto simp: list_all_iff)
  ultimately show ?thesis using n by (simp add: list_all_iff)
qed

lemma col_type_ok_extend: "col_type_ok r c \<Longrightarrow> col_type_ok (sc_extend a r) c"
  by (auto simp: col_type_ok_def sc_extend_def has_table_def split: col_type.splits option.splits)

lemma has_column_extend: "has_column r t c \<Longrightarrow> has_column (sc_extend a r) t c"
  by (auto simp: has_column_iff sc_extend_def)

lemma creates_grow:
  "exec_seq ds r0 = Inr r \<Longrightarrow> list_all is_create ds \<Longrightarrow>
   set (sc_types r0) \<subseteq> set (sc_types r) \<and> set (sc_tables r0) \<subseteq> set (sc_tables r) \<and>
   set (sc_indexes r0) \<subseteq> set (sc_indexes r)"
proof (induction ds arbitrary: r0)
  case Nil then show ?case by simp
next
  case (Cons d ds)
  obtain r1 where e1: "exec_ddl d r0 = Inr r1" and e2: "exec_seq ds r1 = Inr r"
    using Cons.prems(1) by (auto split: sum.splits)
  have "set (sc_types r0) \<subseteq> set (sc_types r1) \<and> set (sc_tables r0) \<subseteq> set (sc_tables r1) \<and>
        set (sc_indexes r0) \<subseteq> set (sc_indexes r1)"
    using e1 Cons.prems(2) by (cases d) (auto split: if_splits)
  then show ?case using Cons.IH [OF e2] Cons.prems(2) by auto
qed

text \<open>Creates run on a schema extended by objects whose names they do not use act as on the
  schema alone: the extension is kept.\<close>

lemma exec_seq_creates_frame:
  assumes "exec_seq ds r0 = Inr r" "list_all is_create ds"
    and "set (map fst (sc_types a)) \<inter> set (map fst (sc_types r)) = {}"
    and "set (map tb_name (sc_tables a)) \<inter> set (map tb_name (sc_tables r)) = {}"
    and "set (map fst (sc_indexes a)) \<inter> set (map fst (sc_indexes r)) = {}"
  shows "exec_seq ds (sc_extend a r0) = Inr (sc_extend a r)"
  using assms
proof (induction ds arbitrary: r0)
  case Nil then show ?case by simp
next
  case (Cons d ds)
  obtain r1 where e1: "exec_ddl d r0 = Inr r1" and e2: "exec_seq ds r1 = Inr r"
    using Cons.prems(1) by (auto split: sum.splits)
  have g: "set (sc_types r1) \<subseteq> set (sc_types r) \<and> set (sc_tables r1) \<subseteq> set (sc_tables r) \<and>
           set (sc_indexes r1) \<subseteq> set (sc_indexes r)"
    using creates_grow [OF e2] Cons.prems(2) by simp
  have step: "exec_ddl d (sc_extend a r0) = Inr (sc_extend a r1)"
  proof (cases d)
    case (CreateEnum n ls)
    have n0: "n \<notin> set (map fst (sc_types r0))" and r1: "r1 = r0\<lparr>sc_types := sc_types r0 @ [(n, ls)]\<rparr>"
      using e1 CreateEnum by (auto split: if_splits)
    have "(n, ls) \<in> set (sc_types r)"
      using g r1 by auto
    then have "n \<in> set (map fst (sc_types r))"
      by (metis fst_conv image_eqI list.set_map)
    then have "n \<notin> set (map fst (sc_types a))"
      using Cons.prems(3) by blast
    then show ?thesis
      using n0 by (simp add: CreateEnum r1 sc_extend_def)
  next
    case (CreateTable t cols)
    have t0: "\<not> has_table r0 t" and ok: "list_all (col_type_ok r0) cols"
      and r1: "r1 = r0\<lparr>sc_tables := sc_tables r0 @ [\<lparr>tb_name = t, tb_cols = cols\<rparr>]\<rparr>"
      using e1 CreateTable by (auto split: if_splits)
    have "\<lparr>tb_name = t, tb_cols = cols\<rparr> \<in> set (sc_tables r)"
      using g r1 by auto
    then have "t \<in> set (map tb_name (sc_tables r))"
      by (metis image_eqI list.set_map sql_table.select_convs(1))
    then have "t \<notin> set (map tb_name (sc_tables a))"
      using Cons.prems(4) by blast
    then have "\<not> has_table (sc_extend a r0) t"
      using t0 by (simp add: has_table_def sc_extend_def)
    moreover have "list_all (col_type_ok (sc_extend a r0)) cols"
      using ok col_type_ok_extend by (simp add: list_all_iff)
    ultimately show ?thesis
      by (simp add: CreateTable r1 sc_extend_def)
  next
    case (CreateIndex b i t c)
    have nb: "\<not> b"
      using Cons.prems(2) CreateIndex by simp
    have i0: "i \<notin> set (map fst (sc_indexes r0))" and hc: "has_column r0 t c"
      and r1: "r1 = r0\<lparr>sc_indexes := sc_indexes r0 @ [(i, t, c)]\<rparr>"
      using e1 CreateIndex nb by (auto split: if_splits)
    have "(i, t, c) \<in> set (sc_indexes r)"
      using g r1 by auto
    then have "i \<in> set (map fst (sc_indexes r))"
      by (metis fst_conv image_eqI list.set_map)
    then have "i \<notin> set (map fst (sc_indexes a))"
      using Cons.prems(5) by blast
    moreover have "has_column (sc_extend a r0) t c"
      using hc by (rule has_column_extend)
    ultimately show ?thesis
      using i0 by (simp add: CreateIndex r1 sc_extend_def)
  qed (use Cons.prems(2) in simp_all)
  show ?case using Cons.IH [OF e2] Cons.prems(2-5) step by simp
qed

lemma sc_extend_empty: "sc_extend sc empty_schema = sc"
  by (simp add: sc_extend_def empty_schema_def)

lemma fresh_names:
  "set (map fst (sc_types fresh_schema)) \<subseteq> set RESET_TYPES"
  "set (map tb_name (sc_tables fresh_schema)) \<subseteq> set RESET_TABLES"
  "list_all is_create (create_enums @ create_tables @ create_indexes)"
  by code_simp+

text \<open>The create call on the databases left by the drops, and on one that has the first enum.\<close>

lemma reset_creates:
  assumes "list_all (\<lambda>tb. tb_name tb \<notin> set RESET_TABLES) (sc_tables sc1)"
    and "list_all (\<lambda>(n, ls). n \<notin> set RESET_TYPES) (sc_types sc1)"
    and "set (map fst (sc_indexes sc1)) \<inter> set (map fst (sc_indexes fresh_schema)) = {}"
  shows "exec_batch (create_enums @ create_tables @ create_indexes) sc1 = Inr (sc_extend sc1 fresh_schema)"
proof -
  have "exec_seq (create_enums @ create_tables @ create_indexes) (sc_extend sc1 empty_schema) = Inr (sc_extend sc1 fresh_schema)"
  proof (rule exec_seq_creates_frame [OF fresh_seq fresh_names(3)])
    show "set (map fst (sc_types sc1)) \<inter> set (map fst (sc_types fresh_schema)) = {}"
      using assms(2) fresh_names(1) by (force simp: list_all_iff)
    show "set (map tb_name (sc_tables sc1)) \<inter> set (map tb_name (sc_tables fresh_schema)) = {}"
      using assms(1) fresh_names(2) by (force simp: list_all_iff)
  qed (use assms(3) in simp)
  then show ?thesis by (simp add: exec_batch_def sc_extend_empty)
qed

lemma creates_fail_on_enum:
  "''content_source'' \<in> set (map fst (sc_types sc)) \<Longrightarrow>
   \<exists>e. exec_batch (create_enums @ create_tables @ create_indexes) sc = Inl e"
  by (simp add: exec_batch_def create_enums_def)

section \<open>Properties of the schema scripts\<close>

text \<open>C25: \<open>reset-and-create.js\<close>, confirmed. With DDL that persists, on any database whose
  indexes named like the script's own sit on tables it drops, it succeeds: afterwards the
  tables and enum types it names are exactly those its create statements describe, its
  indexes exist, and the other tables of the database remain. With DDL that is rolled back,
  as \<open>DEVELOPMENT.md\<close> reports for the serverless driver, it changes nothing, whether it
  reports success or an error.\<close>

theorem resetAndCreate_modes:
  assumes "confirmed_answer answer"
    and "\<forall>(i, t, c)\<in>set (sc_indexes sc). i \<in> set (map fst (sc_indexes fresh_schema)) \<longrightarrow> t \<in> set RESET_TABLES"
  shows "(\<exists>sc'. resetAndCreate DdlPersists answer sc = Inr sc' \<and>
            filter (\<lambda>tb. tb_name tb \<in> set RESET_TABLES) (sc_tables sc') = sc_tables fresh_schema \<and>
            filter (\<lambda>(n, ls). n \<in> set RESET_TYPES) (sc_types sc') = sc_types fresh_schema \<and>
            set (sc_indexes fresh_schema) \<subseteq> set (sc_indexes sc') \<and>
            map tb_name (filter (\<lambda>tb. tb_name tb \<notin> set RESET_TABLES) (sc_tables sc')) =
              filter (\<lambda>t. t \<notin> set RESET_TABLES) (map tb_name (sc_tables sc))) \<and>
         (resetAndCreate DdlRolledBack answer sc = Inr sc \<or> (\<exists>e. resetAndCreate DdlRolledBack answer sc = Inl (e, sc)))"
proof
  define sc1 where "sc1 = drop_each DdlPersists (map DropType RESET_TYPES) (drop_each DdlPersists (map DropTable RESET_TABLES) sc)"
  note d = reset_drops [OF sc1_def]
  have ix: "set (map fst (sc_indexes sc1)) \<inter> set (map fst (sc_indexes fresh_schema)) = {}"
    using d assms(2) by fastforce
  have c: "exec_batch (create_enums @ create_tables @ create_indexes) sc1 = Inr (sc_extend sc1 fresh_schema)"
    using reset_creates d ix by blast
  have r: "resetAndCreate DdlPersists answer sc = Inr (sc_extend sc1 fresh_schema)"
    using assms(1) c by (simp add: resetAndCreate_def sc1_def)
  have ft: "filter (\<lambda>tb. tb_name tb \<in> set RESET_TABLES) (sc_tables fresh_schema) = sc_tables fresh_schema"
    using fresh_names(2) by (auto simp: filter_id_conv)
  have fy: "filter (\<lambda>(n, ls). n \<in> set RESET_TYPES) (sc_types fresh_schema) = sc_types fresh_schema"
    using fresh_names(1) by (auto simp: filter_id_conv)
  have fo: "filter (\<lambda>tb. tb_name tb \<notin> set RESET_TABLES) (sc_tables fresh_schema) = []"
    using fresh_names(2) by (auto simp: filter_empty_conv)
  have s1: "filter (\<lambda>tb. tb_name tb \<in> set RESET_TABLES) (sc_tables sc1) = []"
    "filter (\<lambda>tb. tb_name tb \<notin> set RESET_TABLES) (sc_tables sc1) = sc_tables sc1"
    "filter (\<lambda>(n, ls). n \<in> set RESET_TYPES) (sc_types sc1) = []"
    using d by (auto simp: list_all_iff filter_empty_conv filter_id_conv)
  show "\<exists>sc'. resetAndCreate DdlPersists answer sc = Inr sc' \<and>
            filter (\<lambda>tb. tb_name tb \<in> set RESET_TABLES) (sc_tables sc') = sc_tables fresh_schema \<and>
            filter (\<lambda>(n, ls). n \<in> set RESET_TYPES) (sc_types sc') = sc_types fresh_schema \<and>
            set (sc_indexes fresh_schema) \<subseteq> set (sc_indexes sc') \<and>
            map tb_name (filter (\<lambda>tb. tb_name tb \<notin> set RESET_TABLES) (sc_tables sc')) =
              filter (\<lambda>t. t \<notin> set RESET_TABLES) (map tb_name (sc_tables sc))"
    using r ft fy fo s1 d by (simp add: sc_extend_def)
next
  show "resetAndCreate DdlRolledBack answer sc = Inr sc \<or> (\<exists>e. resetAndCreate DdlRolledBack answer sc = Inl (e, sc))"
    by (auto simp: resetAndCreate_def neon_ddl_def split: sum.split)
qed

theorem resetAndCreate_modes_witness:
  "(\<exists>sc'. resetAndCreate DdlPersists ''Yes'' dev_schema = Inr sc' \<and>
      filter (\<lambda>tb. tb_name tb \<in> set RESET_TABLES) (sc_tables sc') = sc_tables fresh_schema \<and>
      filter (\<lambda>(n, ls). n \<in> set RESET_TYPES) (sc_types sc') = sc_types fresh_schema \<and>
      set (sc_indexes fresh_schema) \<subseteq> set (sc_indexes sc') \<and>
      map tb_name (filter (\<lambda>tb. tb_name tb \<notin> set RESET_TABLES) (sc_tables sc')) =
        filter (\<lambda>t. t \<notin> set RESET_TABLES) (map tb_name (sc_tables dev_schema))) \<and>
   (resetAndCreate DdlRolledBack ''Yes'' dev_schema = Inr dev_schema \<or>
    (\<exists>e. resetAndCreate DdlRolledBack ''Yes'' dev_schema = Inl (e, dev_schema)))"
  by (rule resetAndCreate_modes; code_simp)



text \<open>The schema the reset scripts create agrees with the models of the queries on the
  enums (\<open>content_source\<close> and \<open>content_type\<close> as in the content catalogue, and
  \<open>brand_voice_source\<close> accepting exactly the sources the knowledge store's enum check
  accepts), but its \<open>brand_voice_embeddings\<close> table has no \<open>source_file\<close> column, which every
  insert of the knowledge store writes, until the \<open>source_file\<close> migration adds it.\<close>

theorem fresh_schema_matches_models:
  "enum_labels fresh_schema ''content_source'' = Some sql_content_source_enum \<and>
   enum_labels fresh_schema ''content_type'' = Some sql_content_type_enum \<and>
   (\<forall>s. db_enum_accepts s = (source_name s \<in> set (the (enum_labels fresh_schema ''brand_voice_source'')))) \<and>
   \<not> has_column fresh_schema ''brand_voice_embeddings'' ''source_file'' \<and>
   has_column (fst (add_source_file_up (Some url) fresh_schema)) ''brand_voice_embeddings'' ''source_file''"
proof -
  have a: "enum_labels fresh_schema ''content_source'' = Some sql_content_source_enum" by code_simp
  have b: "enum_labels fresh_schema ''content_type'' = Some sql_content_type_enum" by code_simp
  have l: "enum_labels fresh_schema ''brand_voice_source'' = Some [''style_guide'', ''example_post'', ''feedback'']"
    by code_simp
  have c: "\<forall>s. db_enum_accepts s = (source_name s \<in> set (the (enum_labels fresh_schema ''brand_voice_source'')))"
  proof
    fix s show "db_enum_accepts s = (source_name s \<in> set (the (enum_labels fresh_schema ''brand_voice_source'')))"
      by (cases s) (simp_all add: l)
  qed
  have d: "\<not> has_column fresh_schema ''brand_voice_embeddings'' ''source_file''" by code_simp
  have e: "has_column (fst (add_source_file_up (Some url) fresh_schema)) ''brand_voice_embeddings'' ''source_file''"
    by code_simp
  show ?thesis using a b c d e by blast
qed

text \<open>The \<open>source_file\<close> migration's \<open>down\<close> undoes its \<open>up\<close>: on a schema with the
  \<open>brand_voice_embeddings\<close> table but neither the column nor the index, \<open>up\<close> succeeds and
  \<open>down\<close> then succeeds and restores the schema exactly.\<close>

theorem source_file_roundtrip:
  assumes tb: "has_table sc ''brand_voice_embeddings''"
    and nc: "\<not> has_column sc ''brand_voice_embeddings'' ''source_file''"
    and ni: "''idx_brand_voice_embeddings_source_file'' \<notin> set (map fst (sc_indexes sc))"
    and wf: "schema_wf sc"
  shows "snd (add_source_file_up (Some url) sc) = None \<and>
         drop_source_file_down (Some url) (fst (add_source_file_up (Some url) sc)) = (sc, None)"
proof -
  let ?t = "''brand_voice_embeddings''" and ?c = "''source_file''" and ?i = "''idx_brand_voice_embeddings_source_file''"
  have ok: "col_type_ok sc (bcol ?c ''TEXT'')" by (simp add: col_type_ok_def bcol_def)
  have n: "col_name (bcol ?c ''TEXT'') = ?c" by (simp add: bcol_def)
  obtain sc1 where s1: "exec_ddl (AddColumn ?t (bcol ?c ''TEXT'')) sc = Inr sc1" and hc1: "has_column sc1 ?t ?c"
    and ix: "sc_indexes sc1 = sc_indexes sc" and d2: "exec_ddl (DropColumn ?t ?c) sc1 = Inr sc"
    using add_column_undo [OF tb _ ok wf] nc n by metis
  let ?sc2 = "sc1\<lparr>sc_indexes := sc_indexes sc @ [(?i, ?t, ?c)]\<rparr>"
  have s2: "exec_ddl (CreateIndex True ?i ?t ?c) sc1 = Inr ?sc2" using ni hc1 ix by simp
  have up: "add_source_file_up (Some url) sc = (?sc2, None)"
    using s1 s2 by (simp add: add_source_file_up_def)
  have "filter (\<lambda>(j, t, c). j \<noteq> ?i) (sc_indexes sc @ [(?i, ?t, ?c)]) = sc_indexes sc"
    by (rule filter_last_not) (simp_all add: list_all_fst_ne [OF ni])
  then have d1: "exec_ddl (DropIndex ?i) ?sc2 = Inr sc1" using ix by simp
  show ?thesis using up d1 d2 by (simp add: drop_source_file_down_def)
qed

theorem source_file_roundtrip_witness:
  "snd (add_source_file_up (Some ''postgres://db'') fresh_schema) = None \<and>
   drop_source_file_down (Some ''postgres://db'') (fst (add_source_file_up (Some ''postgres://db'') fresh_schema)) =
     (fresh_schema, None)"
  by (rule source_file_roundtrip; code_simp)

end
