(* ===== verification/Initial_Schema.thy ===== *)
theory Initial_Schema
  imports Schema
begin

text \<open>The initial migration \<open>src/lib/db/migrations/001_initial_schema.sql\<close>, statement by
  statement, over a PostgreSQL catalogue that extends the schema of \<open>Schema\<close> with the objects
  the migration creates besides enums, tables and single-column indexes: extensions,
  multi-column indexes, functions, triggers and views. A \<open>DDL\<close> statement of \<open>Schema\<close> acts on
  the schema part as there and drops, as \<open>CASCADE\<close> does, every multi-column index, trigger or
  view whose table or column it removed. Index options (\<open>UNIQUE\<close>, \<open>DESC\<close>, \<open>USING GIN\<close>),
  column constraints and function bodies are not modelled; a view is modelled by the columns it
  reads (\<open>gp.*\<close> by every column of the table when the view is created). The file as the
  migration runner sends it, split at every \<open>;\<close>, is also modelled: the pieces of the
  \<open>$$\<close>-quoted function body are raw statements the server rejects.\<close>

section \<open>The catalogue and its statements\<close>

record pg_db =
  pg_schema :: schema
  pg_extensions :: "string list"
  pg_multi_indexes :: "(string \<times> string \<times> string list) list"
  pg_functions :: "string list"
  pg_triggers :: "(string \<times> string \<times> string) list"
  pg_views :: "(string \<times> (string \<times> string) list) list"

datatype pg_stmt =
    Ddl ddl
  | CreateExtension bool string
  | CreateIndexCols string string "string list"
  | CreateFunction bool string
  | CreateTrigger string string string
  | CreateView bool string "(string \<times> string option) list"
  | RawSql string

definition empty_pg :: pg_db where
  "empty_pg = \<lparr>pg_schema = empty_schema, pg_extensions = [], pg_multi_indexes = [], pg_functions = [],
               pg_triggers = [], pg_views = []\<rparr>"

text \<open>A piece of text sent as a statement that is none of the forms above: the pieces the
  migration runner cuts out of a dollar-quoted function body. PostgreSQL's lexer rejects a
  piece that leaves a \<open>$$\<close> quote open; \<open>END\<close> alone is \<open>COMMIT\<close>, which outside a
  transaction only warns; any other such piece is a syntax error.\<close>

fun dollar_count :: "string \<Rightarrow> nat" where
  "dollar_count [] = 0"
| "dollar_count [c] = 0"
| "dollar_count (c # d # s) = (if c = CHR ''$'' \<and> d = CHR ''$'' then Suc (dollar_count s) else dollar_count (d # s))"

definition dollar_open :: "string \<Rightarrow> bool" where
  "dollar_open s = odd (dollar_count s)"

text \<open>The statements that create code-bearing objects: functions, triggers and views.\<close>

fun creates_code :: "pg_stmt \<Rightarrow> bool" where
  "creates_code (CreateFunction b f) = True"
| "creates_code (CreateTrigger n t f) = True"
| "creates_code (CreateView b v deps) = True"
| "creates_code _ = False"

text \<open>What a \<open>DROP ... CASCADE\<close> or a dropped column takes with it.\<close>

definition cascade :: "schema \<Rightarrow> pg_db \<Rightarrow> pg_db" where
  "cascade sc db =
     db\<lparr>pg_schema := sc,
        pg_multi_indexes := filter (\<lambda>(i, t, cs). has_table sc t \<and> list_all (has_column sc t) cs) (pg_multi_indexes db),
        pg_triggers := filter (\<lambda>(n, t, f). has_table sc t) (pg_triggers db),
        pg_views := filter (\<lambda>(v, deps). list_all (\<lambda>(t, c). has_column sc t c) deps) (pg_views db)\<rparr>"

text \<open>Index names share one namespace: a single-column \<open>CREATE INDEX\<close> whose name is taken by
  a multi-column index.\<close>

fun multi_clash :: "ddl \<Rightarrow> pg_db \<Rightarrow> (error + pg_db) option" where
  "multi_clash (CreateIndex ifNotExists i t c) db =
     (if i \<in> set (map fst (pg_multi_indexes db))
      then Some (if ifNotExists then Inr db else Inl (ddl_failed (''relation '' @ i @ '' already exists'')))
      else None)"
| "multi_clash d db = None"

definition view_columns :: "schema \<Rightarrow> (string \<times> string option) list \<Rightarrow> (string \<times> string) list" where
  "view_columns sc deps =
     concat (map (\<lambda>(t, c). case c of Some c \<Rightarrow> [(t, c)] | None \<Rightarrow> map (\<lambda>col. (t, col_name col)) (table_cols sc t)) deps)"

fun exec_pg :: "pg_stmt \<Rightarrow> pg_db \<Rightarrow> error + pg_db" where
  "exec_pg (Ddl d) db =
     (case multi_clash d db of
        Some r \<Rightarrow> r
      | None \<Rightarrow> (case exec_ddl d (pg_schema db) of Inl e \<Rightarrow> Inl e | Inr sc \<Rightarrow> Inr (cascade sc db)))"
| "exec_pg (CreateExtension ifNotExists e) db =
     (if e \<in> set (pg_extensions db)
      then (if ifNotExists then Inr db else Inl (ddl_failed (''extension '' @ e @ '' already exists'')))
      else Inr (db\<lparr>pg_extensions := pg_extensions db @ [e]\<rparr>))"
| "exec_pg (CreateIndexCols i t cs) db =
     (if i \<in> set (map fst (sc_indexes (pg_schema db)) @ map fst (pg_multi_indexes db))
      then Inl (ddl_failed (''relation '' @ i @ '' already exists''))
      else if \<not> has_table (pg_schema db) t then Inl (ddl_failed (''relation '' @ t @ '' does not exist''))
      else if \<not> list_all (has_column (pg_schema db) t) cs then Inl (ddl_failed ''column does not exist'')
      else Inr (db\<lparr>pg_multi_indexes := pg_multi_indexes db @ [(i, t, cs)]\<rparr>))"
| "exec_pg (CreateFunction orReplace f) db =
     (if f \<in> set (pg_functions db)
      then (if orReplace then Inr db else Inl (ddl_failed (''function '' @ f @ '' already exists'')))
      else Inr (db\<lparr>pg_functions := pg_functions db @ [f]\<rparr>))"
| "exec_pg (CreateTrigger n t f) db =
     (if \<not> has_table (pg_schema db) t then Inl (ddl_failed (''relation '' @ t @ '' does not exist''))
      else if f \<notin> set (pg_functions db) then Inl (ddl_failed (''function '' @ f @ '' does not exist''))
      else if (n, t) \<in> set (map (\<lambda>(n', t', f'). (n', t')) (pg_triggers db))
      then Inl (ddl_failed (''trigger '' @ n @ '' already exists''))
      else Inr (db\<lparr>pg_triggers := pg_triggers db @ [(n, t, f)]\<rparr>))"
| "exec_pg (CreateView orReplace v deps) db =
     (let cols = view_columns (pg_schema db) deps
      in if \<not> list_all (\<lambda>(t, c). has_table (pg_schema db) t) deps
         then Inl (ddl_failed ''relation does not exist'')
         else if \<not> list_all (\<lambda>(t, c). has_column (pg_schema db) t c) cols
         then Inl (ddl_failed ''column does not exist'')
         else if v \<in> set (map fst (pg_views db)) \<and> \<not> orReplace
         then Inl (ddl_failed (''relation '' @ v @ '' already exists''))
         else Inr (db\<lparr>pg_views := filter (\<lambda>(w, _). w \<noteq> v) (pg_views db) @ [(v, cols)]\<rparr>))"
| "exec_pg (RawSql s) db =
     (if dollar_open s then Inl (ddl_failed ''unterminated dollar-quoted string'')
      else if s = ''END'' then Inr db
      else Inl (ddl_failed ''syntax error''))"

text \<open>Statements sent one at a time, as the migration runner sends the pieces of a script:
  the first failure ends the run and the earlier statements stay applied.\<close>

fun exec_pg_seq :: "pg_stmt list \<Rightarrow> pg_db \<Rightarrow> (error \<times> pg_db) + pg_db" where
  "exec_pg_seq [] db = Inr db"
| "exec_pg_seq (s # ss) db = (case exec_pg s db of Inl e \<Rightarrow> Inl (e, db) | Inr db' \<Rightarrow> exec_pg_seq ss db')"

text \<open>A well-formed catalogue: indexes on existing columns, triggers on existing tables calling
  existing functions, views over existing columns.\<close>

definition catalogue_wf :: "pg_db \<Rightarrow> bool" where
  "catalogue_wf db =
     (schema_wf (pg_schema db) \<and>
      list_all (\<lambda>(i, t, cs). has_table (pg_schema db) t \<and> list_all (has_column (pg_schema db) t) cs) (pg_multi_indexes db) \<and>
      list_all (\<lambda>(n, t, f). has_table (pg_schema db) t \<and> f \<in> set (pg_functions db)) (pg_triggers db) \<and>
      list_all (\<lambda>(v, deps). list_all (\<lambda>(t, c). has_column (pg_schema db) t c) deps) (pg_views db))"

section \<open>001_initial_schema.sql\<close>

definition sql001_enums :: "pg_stmt list" where
  "sql001_enums =
     [Ddl (CreateEnum ''content_source'' sql_content_source_enum),
      Ddl (CreateEnum ''content_type'' sql_content_type_enum),
      Ddl (CreateEnum ''post_type'' [''content_announcement'', ''content_promotion'', ''social_proof'',
             ''centercode_feature'', ''company_news'', ''event_announcement'', ''event_promotion'',
             ''sharing_industry_article'', ''labs_app_launch'', ''labs_app_promotion'', ''partnership_announcement'',
             ''holiday_celebration'', ''industry_day_celebration'', ''other'']),
      Ddl (CreateEnum ''platform'' [''linkedin'', ''facebook'', ''twitter'']),
      Ddl (CreateEnum ''post_status'' [''pending'', ''accepted'', ''rejected'']),
      Ddl (CreateEnum ''feedback_type'' [''accept'', ''reject'']),
      Ddl (CreateEnum ''special_day_type'' [''holiday'', ''industry_day'']),
      Ddl (CreateEnum ''brand_voice_source'' [''style_guide'', ''example_post'', ''feedback''])]"

definition sql001_tables :: "pg_stmt list" where
  "sql001_tables =
     [Ddl (CreateTable ''content_items''
        [bcol ''id'' ''UUID'', ecol ''source'' ''content_source'', bcol ''url'' ''TEXT'', bcol ''title'' ''TEXT'',
         ecol ''content_type'' ''content_type'', bcol ''excerpt'' ''TEXT'', bcol ''metadata'' ''JSONB'',
         bcol ''publication_date'' ''TIMESTAMPTZ'', bcol ''last_polled'' ''TIMESTAMPTZ'',
         bcol ''created_at'' ''TIMESTAMPTZ'', bcol ''updated_at'' ''TIMESTAMPTZ'']),
      Ddl (CreateTable ''generated_posts''
        [bcol ''id'' ''UUID'', rcol ''content_id'' ''content_items'', ecol ''post_type'' ''post_type'',
         ecol ''platform'' ''platform'', bcol ''text'' ''TEXT'', bcol ''scheduled_date'' ''TIMESTAMPTZ'',
         ecol ''status'' ''post_status'', bcol ''campaign_id'' ''UUID'', bcol ''quality_check_passed'' ''BOOLEAN'',
         bcol ''quality_check_details'' ''JSONB'', bcol ''created_at'' ''TIMESTAMPTZ'', bcol ''finalized_at'' ''TIMESTAMPTZ'']),
      Ddl (CreateTable ''post_history''
        [bcol ''id'' ''UUID'', rcol ''content_id'' ''content_items'', rcol ''post_id'' ''generated_posts'',
         ecol ''post_type'' ''post_type'', bcol ''used_date'' ''TIMESTAMPTZ'', bcol ''created_at'' ''TIMESTAMPTZ'']),
      Ddl (CreateTable ''user_feedback''
        [bcol ''id'' ''UUID'', rcol ''post_id'' ''generated_posts'', ecol ''feedback_type'' ''feedback_type'',
         bcol ''learned_patterns'' ''JSONB'', bcol ''notes'' ''TEXT'', bcol ''created_at'' ''TIMESTAMPTZ'']),
      Ddl (CreateTable ''industry_articles''
        [bcol ''id'' ''UUID'', bcol ''url'' ''TEXT'', bcol ''title'' ''TEXT'', bcol ''source'' ''TEXT'',
         bcol ''excerpt'' ''TEXT'', bcol ''discovered_at'' ''TIMESTAMPTZ'', bcol ''relevance_score'' ''DECIMAL(3, 2)'',
         bcol ''marked_not_relevant'' ''BOOLEAN'', bcol ''created_at'' ''TIMESTAMPTZ'']),
      Ddl (CreateTable ''special_days''
        [bcol ''id'' ''UUID'', bcol ''date'' ''DATE'', bcol ''name'' ''TEXT'', ecol ''type'' ''special_day_type'',
         bcol ''description'' ''TEXT'', bcol ''relevance_score'' ''DECIMAL(3, 2)'', bcol ''created_at'' ''TIMESTAMPTZ'',
         bcol ''updated_at'' ''TIMESTAMPTZ'']),
      Ddl (CreateTable ''content_taxonomy''
        [bcol ''id'' ''UUID'', rcol ''content_id'' ''content_items'', bcol ''topics'' ''TEXT[]'', bcol ''themes'' ''TEXT[]'',
         bcol ''personas'' ''TEXT[]'', bcol ''key_messages'' ''JSONB'', bcol ''created_at'' ''TIMESTAMPTZ'',
         bcol ''updated_at'' ''TIMESTAMPTZ'']),
      Ddl (CreateTable ''brand_voice_embeddings''
        [bcol ''id'' ''UUID'', ecol ''source'' ''brand_voice_source'', bcol ''text'' ''TEXT'', bcol ''embedding'' ''JSONB'',
         bcol ''metadata'' ''JSONB'', bcol ''created_at'' ''TIMESTAMPTZ''])]"

definition idx :: "string \<Rightarrow> string \<Rightarrow> string \<Rightarrow> pg_stmt" where
  "idx i t c = Ddl (CreateIndex False i t c)"

definition sql001_indexes :: "pg_stmt list" where
  "sql001_indexes =
     [idx ''idx_content_items_source'' ''content_items'' ''source'',
      idx ''idx_content_items_content_type'' ''content_items'' ''content_type'',
      idx ''idx_content_items_publication_date'' ''content_items'' ''publication_date'',
      idx ''idx_content_items_last_polled'' ''content_items'' ''last_polled'',
      idx ''idx_content_items_url'' ''content_items'' ''url'',
      idx ''idx_generated_posts_content_id'' ''generated_posts'' ''content_id'',
      idx ''idx_generated_posts_post_type'' ''generated_posts'' ''post_type'',
      idx ''idx_generated_posts_platform'' ''generated_posts'' ''platform'',
      idx ''idx_generated_posts_status'' ''generated_posts'' ''status'',
      idx ''idx_generated_posts_campaign_id'' ''generated_posts'' ''campaign_id'',
      idx ''idx_generated_posts_scheduled_date'' ''generated_posts'' ''scheduled_date'',
      idx ''idx_generated_posts_created_at'' ''generated_posts'' ''created_at'',
      idx ''idx_post_history_content_id'' ''post_history'' ''content_id'',
      idx ''idx_post_history_post_id'' ''post_history'' ''post_id'',
      idx ''idx_post_history_used_date'' ''post_history'' ''used_date'',
      CreateIndexCols ''idx_post_history_content_post_type'' ''post_history'' [''content_id'', ''post_type''],
      CreateIndexCols ''idx_post_history_duplication_check'' ''post_history'' [''content_id'', ''used_date''],
      idx ''idx_user_feedback_post_id'' ''user_feedback'' ''post_id'',
      idx ''idx_user_feedback_feedback_type'' ''user_feedback'' ''feedback_type'',
      idx ''idx_user_feedback_created_at'' ''user_feedback'' ''created_at'',
      idx ''idx_industry_articles_url'' ''industry_articles'' ''url'',
      idx ''idx_industry_articles_source'' ''industry_articles'' ''source'',
      idx ''idx_industry_articles_relevance_score'' ''industry_articles'' ''relevance_score'',
      idx ''idx_industry_articles_marked_not_relevant'' ''industry_articles'' ''marked_not_relevant'',
      idx ''idx_industry_articles_discovered_at'' ''industry_articles'' ''discovered_at'',
      CreateIndexCols ''idx_special_days_date_name'' ''special_days'' [''date'', ''name''],
      idx ''idx_special_days_date'' ''special_days'' ''date'',
      idx ''idx_special_days_type'' ''special_days'' ''type'',
      idx ''idx_special_days_relevance_score'' ''special_days'' ''relevance_score'',
      idx ''idx_content_taxonomy_content_id'' ''content_taxonomy'' ''content_id'',
      idx ''idx_content_taxonomy_topics'' ''content_taxonomy'' ''topics'',
      idx ''idx_content_taxonomy_themes'' ''content_taxonomy'' ''themes'',
      idx ''idx_content_taxonomy_personas'' ''content_taxonomy'' ''personas'',
      idx ''idx_brand_voice_embeddings_source'' ''brand_voice_embeddings'' ''source'',
      idx ''idx_brand_voice_embeddings_created_at'' ''brand_voice_embeddings'' ''created_at'']"

definition UPDATED_AT_FN :: string where
  "UPDATED_AT_FN = ''update_updated_at_column''"

definition sql001_triggers :: "pg_stmt list" where
  "sql001_triggers =
     [CreateFunction True UPDATED_AT_FN,
      CreateTrigger ''update_content_items_updated_at'' ''content_items'' UPDATED_AT_FN,
      CreateTrigger ''update_special_days_updated_at'' ''special_days'' UPDATED_AT_FN,
      CreateTrigger ''update_content_taxonomy_updated_at'' ''content_taxonomy'' UPDATED_AT_FN]"

definition sql001_views :: "pg_stmt list" where
  "sql001_views =
     [CreateView True ''posts_with_content''
        [(''generated_posts'', None), (''content_items'', Some ''title''), (''content_items'', Some ''url''),
         (''content_items'', Some ''content_type''), (''content_items'', Some ''publication_date''),
         (''generated_posts'', Some ''content_id''), (''content_items'', Some ''id'')],
      CreateView True ''content_usage_stats''
        [(''content_items'', Some ''id''), (''content_items'', Some ''title''), (''content_items'', Some ''url''),
         (''content_items'', Some ''content_type''), (''post_history'', Some ''id''), (''post_history'', Some ''used_date''),
         (''post_history'', Some ''post_type''), (''post_history'', Some ''content_id'')]]"

definition initial_schema :: "pg_stmt list" where
  "initial_schema =
     [CreateExtension True ''uuid-ossp''] @ sql001_enums @ sql001_tables @ sql001_indexes @ sql001_triggers @
     sql001_views"

text \<open>\<open>001_initial_schema.sql\<close> as the migration runner sends it (\<open>part_004\<close>, lines 88-98):
  split at every \<open>;\<close>, which leaves every statement whole except the trigger function, whose
  dollar-quoted body (lines 229-235, \<open>trigger_function_sql\<close>) is cut into pieces.\<close>

definition sql001_runner_pieces :: "pg_stmt list" where
  "sql001_runner_pieces =
     [CreateExtension True ''uuid-ossp''] @ sql001_enums @ sql001_tables @ sql001_indexes @
     map RawSql (split_statements trigger_function_sql) @ tl sql001_triggers @ sql001_views"

text \<open>The catalogues the statements can build from the empty database.\<close>

inductive catalogue_reachable :: "pg_db \<Rightarrow> bool" where
  reach_empty: "catalogue_reachable empty_pg"
| reach_step: "catalogue_reachable db \<Longrightarrow> exec_pg s db = Inr db' \<Longrightarrow> catalogue_reachable db'"

section \<open>Lemmas: runs of statements, the invariant and the schema projection\<close>

lemma exec_pg_seq_append:
  "exec_pg_seq (ss1 @ ss2) db = (case exec_pg_seq ss1 db of Inl x \<Rightarrow> Inl x | Inr db' \<Rightarrow> exec_pg_seq ss2 db')"
  by (induction ss1 arbitrary: db) (auto split: sum.split)

lemma cascade_wf: "schema_wf sc \<Longrightarrow> catalogue_wf db \<Longrightarrow> catalogue_wf (cascade sc db)"
  by (auto simp: catalogue_wf_def cascade_def list_all_iff)

lemma exec_pg_wf: "catalogue_wf db \<Longrightarrow> exec_pg s db = Inr db' \<Longrightarrow> catalogue_wf db'"
proof (cases s)
  case (Ddl d)
  assume wf: "catalogue_wf db" and e: "exec_pg s db = Inr db'"
  show ?thesis
  proof (cases "multi_clash d db")
    case None
    then obtain sc where "exec_ddl d (pg_schema db) = Inr sc" "db' = cascade sc db"
      using e Ddl by (auto split: sum.splits)
    then show ?thesis using wf cascade_wf exec_ddl_wf by (auto simp: catalogue_wf_def)
  next
    case (Some r)
    then have "db' = db" using e Ddl by (cases d) (auto split: if_splits)
    then show ?thesis using wf by simp
  qed
next
  case (CreateView b v deps)
  assume "catalogue_wf db" "exec_pg s db = Inr db'"
  moreover have "\<And>P Q xs. list_all P xs \<Longrightarrow> list_all P (filter Q xs)" by (simp add: list_all_iff)
  ultimately show ?thesis using CreateView by (auto simp: catalogue_wf_def Let_def split: if_splits)
qed (auto simp: catalogue_wf_def split: if_splits elim!: list.pred_mono_strong)

lemma exec_pg_seq_wf: "catalogue_wf db \<Longrightarrow> exec_pg_seq ss db = Inr db' \<Longrightarrow> catalogue_wf db'"
  by (induction ss arbitrary: db) (auto split: sum.splits intro: exec_pg_wf)

text \<open>The frame of a run of statements that create no code: extensions may only be added,
  functions stay, and multi-column indexes, triggers and views can only be dropped; this holds
  of the database a failed run leaves as well.\<close>

lemma multi_clash_same: "multi_clash d db = Some (Inr db1) \<Longrightarrow> db1 = db"
  by (cases d) (auto split: if_splits)

lemma pg_step_frame:
  "\<not> creates_code s \<Longrightarrow> exec_pg s db = Inr db1 \<Longrightarrow>
   pg_functions db1 = pg_functions db \<and> set (pg_triggers db1) \<subseteq> set (pg_triggers db) \<and>
   set (pg_views db1) \<subseteq> set (pg_views db)"
  by (cases s) (auto simp: cascade_def dest: multi_clash_same split: if_splits sum.splits option.splits)

lemma pg_seq_frame:
  "list_all (\<lambda>s. \<not> creates_code s) ss \<Longrightarrow>
   exec_pg_seq ss db = Inr db' \<or> exec_pg_seq ss db = Inl (e, db') \<Longrightarrow>
   pg_functions db' = pg_functions db \<and> set (pg_triggers db') \<subseteq> set (pg_triggers db) \<and>
   set (pg_views db') \<subseteq> set (pg_views db)"
proof (induction ss arbitrary: db)
  case Nil then show ?case by auto
next
  case (Cons s ss)
  show ?case
  proof (cases "exec_pg s db")
    case (Inl e0)
    then show ?thesis using Cons.prems by auto
  next
    case (Inr db1)
    then have "exec_pg_seq ss db1 = Inr db' \<or> exec_pg_seq ss db1 = Inl (e, db')"
      using Cons.prems(2) by simp
    then show ?thesis
      using Cons.IH [of db1] Cons.prems(1) pg_step_frame [OF _ Inr] by fastforce
  qed
qed

text \<open>Schema statements act on the catalogue as on the schema: projecting a run to its schema
  gives the run of \<open>Schema\<close>, as long as no \<open>CREATE INDEX\<close> reuses a multi-column index name.\<close>

lemma pg_ddl_refines_seq:
  "(\<forall>d\<in>set ds. \<forall>b i t c. d = CreateIndex b i t c \<longrightarrow> i \<notin> set (map fst (pg_multi_indexes db))) \<Longrightarrow>
   map_sum (\<lambda>(e, db'). (e, pg_schema db')) pg_schema (exec_pg_seq (map Ddl ds) db) = exec_seq ds (pg_schema db)"
proof (induction ds arbitrary: db)
  case Nil then show ?case by simp
next
  case (Cons d ds)
  have mc: "multi_clash d db = None" using Cons.prems by (cases d) auto
  show ?case
  proof (cases "exec_ddl d (pg_schema db)")
    case (Inl e) then show ?thesis using mc by simp
  next
    case (Inr sc)
    have "set (map fst (pg_multi_indexes (cascade sc db))) \<subseteq> set (map fst (pg_multi_indexes db))"
      by (auto simp: cascade_def)
    then have "\<forall>d\<in>set ds. \<forall>b i t c. d = CreateIndex b i t c \<longrightarrow> i \<notin> set (map fst (pg_multi_indexes (cascade sc db)))"
      using Cons.prems by (meson list.set_intros(2) subsetD)
    then show ?thesis using Cons.IH mc Inr by (simp add: cascade_def)
  qed
qed

lemma list_all_False_Nil: "list_all (\<lambda>x. False) xs \<Longrightarrow> xs = []"
  by (cases xs) auto

lemma empty_catalogue:
  "catalogue_wf db \<Longrightarrow> pg_schema db = empty_schema \<Longrightarrow> pg_triggers db = [] \<and> pg_multi_indexes db = []"
  by (auto simp: catalogue_wf_def has_table_def empty_schema_def split_def intro!: list_all_False_Nil)

section \<open>Properties of the initial migration\<close>

text \<open>The catalogue invariant holds in every catalogue the statements can build from the
  empty database: indexes, triggers and views always refer to existing objects.\<close>

theorem catalogue_reachable_wf: "catalogue_reachable db \<Longrightarrow> catalogue_wf db"
proof (induction rule: catalogue_reachable.induct)
  case reach_empty show ?case by (simp add: catalogue_wf_def empty_pg_def empty_schema_def schema_wf_def)
next
  case (reach_step db s db') then show ?case using exec_pg_wf by blast
qed

theorem catalogue_reachable_wf_witness: "catalogue_wf (empty_pg\<lparr>pg_extensions := [''uuid-ossp'']\<rparr>)"
proof -
  have "exec_pg (CreateExtension True ''uuid-ossp'') empty_pg = Inr (empty_pg\<lparr>pg_extensions := [''uuid-ossp'']\<rparr>)"
    by (simp add: empty_pg_def)
  then have "catalogue_reachable (empty_pg\<lparr>pg_extensions := [''uuid-ossp'']\<rparr>)"
    by (rule reach_step [OF reach_empty])
  then show ?thesis by (rule catalogue_reachable_wf)
qed


text \<open>On the empty database the run gets as far as the function: the extension, the enums,
  the tables and the 35 indexes stay created (there is no transaction), with no function,
  trigger or view.\<close>

lemma initial_schema_runner_empty:
  "\<exists>db. exec_pg_seq sql001_runner_pieces empty_pg = Inl (ddl_failed ''unterminated dollar-quoted string'', db) \<and>
     pg_extensions db = [''uuid-ossp''] \<and> sc_types (pg_schema db) = sc_types fresh_schema \<and>
     sc_tables (pg_schema db) = sc_tables fresh_schema \<and>
     length (sc_indexes (pg_schema db)) + length (pg_multi_indexes db) = 35 \<and>
     pg_functions db = [] \<and> pg_triggers db = [] \<and> pg_views db = []"
proof -
  have "case exec_pg_seq sql001_runner_pieces empty_pg of
          Inl (e, db) \<Rightarrow> e = ddl_failed ''unterminated dollar-quoted string'' \<and>
            pg_extensions db = [''uuid-ossp''] \<and> sc_types (pg_schema db) = sc_types fresh_schema \<and>
            sc_tables (pg_schema db) = sc_tables fresh_schema \<and>
            length (sc_indexes (pg_schema db)) + length (pg_multi_indexes db) = 35 \<and>
            pg_functions db = [] \<and> pg_triggers db = [] \<and> pg_views db = []
        | Inr _ \<Rightarrow> False"
    by code_simp
  then show ?thesis by (auto split: sum.splits)
qed

text \<open>C28: \<open>001_initial_schema.sql\<close> cannot run on a database that has its types: sent
  statement by statement, as the migration runner sends it after \<open>reset-migration.js\<close> deleted
  its record, it stops at \<open>CREATE TYPE content_source\<close> with only the extension created.\<close>

theorem initial_schema_rerun_fails:
  assumes "''content_source'' \<in> set (map fst (sc_types (pg_schema db)))"
  shows "exec_pg_seq initial_schema db =
           Inl (ddl_failed ''type content_source already exists'',
                if ''uuid-ossp'' \<in> set (pg_extensions db) then db else db\<lparr>pg_extensions := pg_extensions db @ [''uuid-ossp'']\<rparr>)"
  using assms by (simp add: initial_schema_def sql001_enums_def)

theorem initial_schema_rerun_fails_witness:
  "exec_pg_seq initial_schema (empty_pg\<lparr>pg_schema := fresh_schema\<rparr>) =
     Inl (ddl_failed ''type content_source already exists'',
          empty_pg\<lparr>pg_schema := fresh_schema, pg_extensions := [''uuid-ossp'']\<rparr>)"
proof -
  have "''content_source'' \<in> set (map fst (sc_types (pg_schema (empty_pg\<lparr>pg_schema := fresh_schema\<rparr>))))"
    by code_simp
  from initial_schema_rerun_fails [OF this] show ?thesis by (simp add: empty_pg_def)
qed

end
