(* ===== verification/DB_Types.thy ===== *)
theory DB_Types
  imports Initial_Schema
begin

text \<open>The database types of \<open>src/unnamed/part_000\<close>: the TypeScript enums, the table
  interfaces, the insert types built with \<open>Omit\<close>, the joined and statistics types, and the
  interface \<open>BrandVoiceEmbedding\<close> of \<open>src/lib/db/queries/brand-voice.ts\<close>. An interface is
  the list of its fields (name, declared type, optional or not). What a query returns for a
  column is the JavaScript value the driver builds from the column type: \<open>UUID\<close>, \<open>TEXT\<close>,
  enum labels and \<open>NUMERIC\<close> (\<open>DECIMAL\<close>) values arrive as strings, \<open>BOOLEAN\<close> as booleans,
  timestamps and dates as \<open>Date\<close>, \<open>JSONB\<close> parsed, \<open>TEXT[]\<close> as string arrays. The enums
  are datatypes with an \<open>enum\<close> instance, so that their value lists are complete.\<close>

section \<open>The TypeScript enums\<close>

datatype post_type =
    ContentAnnouncement | ContentPromotion | SocialProof | CentercodeFeature | CompanyNews
  | EventAnnouncement | EventPromotion | SharingIndustryArticle | LabsAppLaunch | LabsAppPromotion
  | PartnershipAnnouncement | HolidayCelebration | IndustryDayCelebration | OtherPost

fun post_type_name :: "post_type \<Rightarrow> string" where
  "post_type_name ContentAnnouncement = ''content_announcement''"
| "post_type_name ContentPromotion = ''content_promotion''"
| "post_type_name SocialProof = ''social_proof''"
| "post_type_name CentercodeFeature = ''centercode_feature''"
| "post_type_name CompanyNews = ''company_news''"
| "post_type_name EventAnnouncement = ''event_announcement''"
| "post_type_name EventPromotion = ''event_promotion''"
| "post_type_name SharingIndustryArticle = ''sharing_industry_article''"
| "post_type_name LabsAppLaunch = ''labs_app_launch''"
| "post_type_name LabsAppPromotion = ''labs_app_promotion''"
| "post_type_name PartnershipAnnouncement = ''partnership_announcement''"
| "post_type_name HolidayCelebration = ''holiday_celebration''"
| "post_type_name IndustryDayCelebration = ''industry_day_celebration''"
| "post_type_name OtherPost = ''other''"

datatype platform = LinkedIn | Facebook | Twitter

fun platform_name :: "platform \<Rightarrow> string" where
  "platform_name LinkedIn = ''linkedin''"
| "platform_name Facebook = ''facebook''"
| "platform_name Twitter = ''twitter''"

datatype post_status = StatusPending | StatusAccepted | StatusRejected

fun post_status_name :: "post_status \<Rightarrow> string" where
  "post_status_name StatusPending = ''pending''"
| "post_status_name StatusAccepted = ''accepted''"
| "post_status_name StatusRejected = ''rejected''"

datatype feedback_type = FeedbackAccept | FeedbackReject

fun feedback_type_name :: "feedback_type \<Rightarrow> string" where
  "feedback_type_name FeedbackAccept = ''accept''"
| "feedback_type_name FeedbackReject = ''reject''"

datatype special_day_type = DayHoliday | DayIndustry

fun special_day_type_name :: "special_day_type \<Rightarrow> string" where
  "special_day_type_name DayHoliday = ''holiday''"
| "special_day_type_name DayIndustry = ''industry_day''"

text \<open>The values of each enum in declaration order; the \<open>enum\<close> instances prove the lists
  complete and without repetition.\<close>

instantiation content_source :: enum
begin
definition "enum_content_source = [Webflow, HubSpot, YouTube, Manual]"
definition "enum_all_content_source P = list_all P [Webflow, HubSpot, YouTube, Manual]"
definition "enum_ex_content_source P = list_ex P [Webflow, HubSpot, YouTube, Manual]"
instance
proof
  have u: "(UNIV :: content_source set) = {Webflow, HubSpot, YouTube, Manual}"
    using content_source.exhaust by blast
  show "(UNIV :: content_source set) = set enum_class.enum" by (simp add: u enum_content_source_def)
  show "distinct (enum_class.enum :: content_source list)" by (simp add: enum_content_source_def)
  show "enum_class.enum_all P = Ball UNIV P" for P :: "content_source \<Rightarrow> bool" by (simp add: u enum_all_content_source_def)
  show "enum_class.enum_ex P = Bex UNIV P" for P :: "content_source \<Rightarrow> bool" by (simp add: u enum_ex_content_source_def)
qed
end

instantiation content_type :: enum
begin
definition "enum_content_type = [BlogPost, Whitepaper, CaseStudy, Webinar, Video, LandingPage, LabsApp, OtherContent]"
definition "enum_all_content_type P = list_all P [BlogPost, Whitepaper, CaseStudy, Webinar, Video, LandingPage, LabsApp, OtherContent]"
definition "enum_ex_content_type P = list_ex P [BlogPost, Whitepaper, CaseStudy, Webinar, Video, LandingPage, LabsApp, OtherContent]"
instance
proof
  have u: "(UNIV :: content_type set) = {BlogPost, Whitepaper, CaseStudy, Webinar, Video, LandingPage, LabsApp, OtherContent}"
    using content_type.exhaust by blast
  show "(UNIV :: content_type set) = set enum_class.enum" by (simp add: u enum_content_type_def)
  show "distinct (enum_class.enum :: content_type list)" by (simp add: enum_content_type_def)
  show "enum_class.enum_all P = Ball UNIV P" for P :: "content_type \<Rightarrow> bool" by (simp add: u enum_all_content_type_def)
  show "enum_class.enum_ex P = Bex UNIV P" for P :: "content_type \<Rightarrow> bool" by (simp add: u enum_ex_content_type_def)
qed
end

instantiation post_type :: enum
begin
definition "enum_post_type = [ContentAnnouncement, ContentPromotion, SocialProof, CentercodeFeature, CompanyNews, EventAnnouncement, EventPromotion, SharingIndustryArticle, LabsAppLaunch, LabsAppPromotion, PartnershipAnnouncement, HolidayCelebration, IndustryDayCelebration, OtherPost]"
definition "enum_all_post_type P = list_all P [ContentAnnouncement, ContentPromotion, SocialProof, CentercodeFeature, CompanyNews, EventAnnouncement, EventPromotion, SharingIndustryArticle, LabsAppLaunch, LabsAppPromotion, PartnershipAnnouncement, HolidayCelebration, IndustryDayCelebration, OtherPost]"
definition "enum_ex_post_type P = list_ex P [ContentAnnouncement, ContentPromotion, SocialProof, CentercodeFeature, CompanyNews, EventAnnouncement, EventPromotion, SharingIndustryArticle, LabsAppLaunch, LabsAppPromotion, PartnershipAnnouncement, HolidayCelebration, IndustryDayCelebration, OtherPost]"
instance
proof
  have u: "(UNIV :: post_type set) = {ContentAnnouncement, ContentPromotion, SocialProof, CentercodeFeature, CompanyNews, EventAnnouncement, EventPromotion, SharingIndustryArticle, LabsAppLaunch, LabsAppPromotion, PartnershipAnnouncement, HolidayCelebration, IndustryDayCelebration, OtherPost}"
    using post_type.exhaust by blast
  show "(UNIV :: post_type set) = set enum_class.enum" by (simp add: u enum_post_type_def)
  show "distinct (enum_class.enum :: post_type list)" by (simp add: enum_post_type_def)
  show "enum_class.enum_all P = Ball UNIV P" for P :: "post_type \<Rightarrow> bool" by (simp add: u enum_all_post_type_def)
  show "enum_class.enum_ex P = Bex UNIV P" for P :: "post_type \<Rightarrow> bool" by (simp add: u enum_ex_post_type_def)
qed
end

instantiation platform :: enum
begin
definition "enum_platform = [LinkedIn, Facebook, Twitter]"
definition "enum_all_platform P = list_all P [LinkedIn, Facebook, Twitter]"
definition "enum_ex_platform P = list_ex P [LinkedIn, Facebook, Twitter]"
instance
proof
  have u: "(UNIV :: platform set) = {LinkedIn, Facebook, Twitter}"
    using platform.exhaust by blast
  show "(UNIV :: platform set) = set enum_class.enum" by (simp add: u enum_platform_def)
  show "distinct (enum_class.enum :: platform list)" by (simp add: enum_platform_def)
  show "enum_class.enum_all P = Ball UNIV P" for P :: "platform \<Rightarrow> bool" by (simp add: u enum_all_platform_def)
  show "enum_class.enum_ex P = Bex UNIV P" for P :: "platform \<Rightarrow> bool" by (simp add: u enum_ex_platform_def)
qed
end

instantiation post_status :: enum
begin
definition "enum_post_status = [StatusPending, StatusAccepted, StatusRejected]"
definition "enum_all_post_status P = list_all P [StatusPending, StatusAccepted, StatusRejected]"
definition "enum_ex_post_status P = list_ex P [StatusPending, StatusAccepted, StatusRejected]"
instance
proof
  have u: "(UNIV :: post_status set) = {StatusPending, StatusAccepted, StatusRejected}"
    using post_status.exhaust by blast
  show "(UNIV :: post_status set) = set enum_class.enum" by (simp add: u enum_post_status_def)
  show "distinct (enum_class.enum :: post_status list)" by (simp add: enum_post_status_def)
  show "enum_class.enum_all P = Ball UNIV P" for P :: "post_status \<Rightarrow> bool" by (simp add: u enum_all_post_status_def)
  show "enum_class.enum_ex P = Bex UNIV P" for P :: "post_status \<Rightarrow> bool" by (simp add: u enum_ex_post_status_def)
qed
end

instantiation feedback_type :: enum
begin
definition "enum_feedback_type = [FeedbackAccept, FeedbackReject]"
definition "enum_all_feedback_type P = list_all P [FeedbackAccept, FeedbackReject]"
definition "enum_ex_feedback_type P = list_ex P [FeedbackAccept, FeedbackReject]"
instance
proof
  have u: "(UNIV :: feedback_type set) = {FeedbackAccept, FeedbackReject}"
    using feedback_type.exhaust by blast
  show "(UNIV :: feedback_type set) = set enum_class.enum" by (simp add: u enum_feedback_type_def)
  show "distinct (enum_class.enum :: feedback_type list)" by (simp add: enum_feedback_type_def)
  show "enum_class.enum_all P = Ball UNIV P" for P :: "feedback_type \<Rightarrow> bool" by (simp add: u enum_all_feedback_type_def)
  show "enum_class.enum_ex P = Bex UNIV P" for P :: "feedback_type \<Rightarrow> bool" by (simp add: u enum_ex_feedback_type_def)
qed
end

instantiation special_day_type :: enum
begin
definition "enum_special_day_type = [DayHoliday, DayIndustry]"
definition "enum_all_special_day_type P = list_all P [DayHoliday, DayIndustry]"
definition "enum_ex_special_day_type P = list_ex P [DayHoliday, DayIndustry]"
instance
proof
  have u: "(UNIV :: special_day_type set) = {DayHoliday, DayIndustry}"
    using special_day_type.exhaust by blast
  show "(UNIV :: special_day_type set) = set enum_class.enum" by (simp add: u enum_special_day_type_def)
  show "distinct (enum_class.enum :: special_day_type list)" by (simp add: enum_special_day_type_def)
  show "enum_class.enum_all P = Ball UNIV P" for P :: "special_day_type \<Rightarrow> bool" by (simp add: u enum_all_special_day_type_def)
  show "enum_class.enum_ex P = Bex UNIV P" for P :: "special_day_type \<Rightarrow> bool" by (simp add: u enum_ex_special_day_type_def)
qed
end

text \<open>A TypeScript enum by name: its string values in declaration order.\<close>

definition ts_enum_values :: "string \<Rightarrow> string list option" where
  "ts_enum_values e =
     map_of [(''ContentSource'', map content_source_name enum_class.enum),
             (''ContentType'', map content_type_name enum_class.enum),
             (''PostType'', map post_type_name enum_class.enum),
             (''Platform'', map platform_name enum_class.enum),
             (''PostStatus'', map post_status_name enum_class.enum),
             (''FeedbackType'', map feedback_type_name enum_class.enum),
             (''SpecialDayType'', map special_day_type_name enum_class.enum)] e"

section \<open>Interfaces\<close>

datatype ts_type =
    TsString | TsNumber | TsBoolean | TsDate | TsJson | TsNumberArray | TsStringArray
  | TsEnum string | TsLiterals "string list" | TsRef string | TsRefArray string | TsEnumArray string
  | TsNullable ts_type

record ts_field =
  fd_name :: string
  fd_type :: ts_type
  fd_optional :: bool

definition req :: "string \<Rightarrow> ts_type \<Rightarrow> ts_field" where
  "req n t = \<lparr>fd_name = n, fd_type = t, fd_optional = False\<rparr>"

definition opt :: "string \<Rightarrow> ts_type \<Rightarrow> ts_field" where
  "opt n t = \<lparr>fd_name = n, fd_type = t, fd_optional = True\<rparr>"

definition ContentItem_fields :: "ts_field list" where
  "ContentItem_fields =
     [req ''id'' TsString, req ''source'' (TsEnum ''ContentSource''), req ''url'' TsString, req ''title'' TsString,
      req ''content_type'' (TsEnum ''ContentType''), opt ''excerpt'' TsString, opt ''metadata'' TsJson,
      opt ''publication_date'' TsDate, req ''last_polled'' TsDate, req ''created_at'' TsDate, req ''updated_at'' TsDate]"

definition GeneratedPost_fields :: "ts_field list" where
  "GeneratedPost_fields =
     [req ''id'' TsString, opt ''content_id'' TsString, req ''post_type'' (TsEnum ''PostType''),
      req ''platform'' (TsEnum ''Platform''), req ''text'' TsString, opt ''scheduled_date'' TsDate,
      req ''status'' (TsEnum ''PostStatus''), opt ''campaign_id'' TsString, req ''quality_check_passed'' TsBoolean,
      opt ''quality_check_details'' TsJson, req ''created_at'' TsDate, opt ''finalized_at'' TsDate]"

definition PostHistory_fields :: "ts_field list" where
  "PostHistory_fields =
     [req ''id'' TsString, req ''content_id'' TsString, req ''post_id'' TsString, req ''post_type'' (TsEnum ''PostType''),
      req ''used_date'' TsDate, req ''created_at'' TsDate]"

definition UserFeedback_fields :: "ts_field list" where
  "UserFeedback_fields =
     [req ''id'' TsString, req ''post_id'' TsString, req ''feedback_type'' (TsEnum ''FeedbackType''),
      opt ''learned_patterns'' TsJson, opt ''notes'' TsString, req ''created_at'' TsDate]"

definition IndustryArticle_fields :: "ts_field list" where
  "IndustryArticle_fields =
     [req ''id'' TsString, req ''url'' TsString, req ''title'' TsString, req ''source'' TsString, opt ''excerpt'' TsString,
      req ''discovered_at'' TsDate, req ''relevance_score'' TsNumber, req ''marked_not_relevant'' TsBoolean,
      req ''created_at'' TsDate]"

definition SpecialDay_fields :: "ts_field list" where
  "SpecialDay_fields =
     [req ''id'' TsString, req ''date'' TsDate, req ''name'' TsString, req ''type'' (TsEnum ''SpecialDayType''),
      opt ''description'' TsString, req ''relevance_score'' TsNumber, req ''created_at'' TsDate, req ''updated_at'' TsDate]"

definition ContentTaxonomy_fields :: "ts_field list" where
  "ContentTaxonomy_fields =
     [req ''id'' TsString, req ''content_id'' TsString, req ''topics'' TsStringArray, req ''themes'' TsStringArray,
      req ''personas'' TsStringArray, opt ''key_messages'' TsJson, req ''created_at'' TsDate, req ''updated_at'' TsDate]"

definition BrandVoiceEmbedding_fields :: "ts_field list" where
  "BrandVoiceEmbedding_fields =
     [req ''id'' TsString, req ''source'' (TsLiterals [''style_guide'', ''example_post'', ''feedback'']),
      req ''text'' TsString, req ''embedding'' TsNumberArray, opt ''metadata'' TsJson, req ''created_at'' TsDate]"

text \<open>\<open>Omit<T, K>\<close> and \<open>interface ... extends T\<close>.\<close>

definition omit :: "string list \<Rightarrow> ts_field list \<Rightarrow> ts_field list" where
  "omit keys fs = filter (\<lambda>f. fd_name f \<notin> set keys) fs"

definition ContentItemInsert_fields :: "ts_field list" where
  "ContentItemInsert_fields = omit [''id'', ''created_at'', ''updated_at''] ContentItem_fields"

definition GeneratedPostInsert_fields :: "ts_field list" where
  "GeneratedPostInsert_fields = omit [''id'', ''created_at'', ''finalized_at''] GeneratedPost_fields"

definition PostHistoryInsert_fields :: "ts_field list" where
  "PostHistoryInsert_fields = omit [''id'', ''created_at''] PostHistory_fields"

definition UserFeedbackInsert_fields :: "ts_field list" where
  "UserFeedbackInsert_fields = omit [''id'', ''created_at''] UserFeedback_fields"

definition IndustryArticleInsert_fields :: "ts_field list" where
  "IndustryArticleInsert_fields = omit [''id'', ''created_at''] IndustryArticle_fields"

definition SpecialDayInsert_fields :: "ts_field list" where
  "SpecialDayInsert_fields = omit [''id'', ''created_at'', ''updated_at''] SpecialDay_fields"

definition ContentTaxonomyInsert_fields :: "ts_field list" where
  "ContentTaxonomyInsert_fields = omit [''id'', ''created_at'', ''updated_at''] ContentTaxonomy_fields"

definition BrandVoiceEmbeddingInsert_fields :: "ts_field list" where
  "BrandVoiceEmbeddingInsert_fields = omit [''id'', ''created_at''] BrandVoiceEmbedding_fields"

definition PostWithContent_fields :: "ts_field list" where
  "PostWithContent_fields = GeneratedPost_fields @ [opt ''content'' (TsRef ''ContentItem'')]"

definition PostWithHistory_fields :: "ts_field list" where
  "PostWithHistory_fields = GeneratedPost_fields @ [opt ''history'' (TsRefArray ''PostHistory'')]"

definition ContentWithTaxonomy_fields :: "ts_field list" where
  "ContentWithTaxonomy_fields = ContentItem_fields @ [opt ''taxonomy'' (TsRef ''ContentTaxonomy'')]"

definition ContentUsageStats_fields :: "ts_field list" where
  "ContentUsageStats_fields =
     [req ''content_id'' TsString, req ''title'' TsString, req ''url'' TsString, req ''times_promoted'' TsNumber,
      opt ''last_promoted'' TsDate, req ''post_types_used'' (TsEnumArray ''PostType'')]"

definition PostTypeDistribution_fields :: "ts_field list" where
  "PostTypeDistribution_fields =
     [req ''post_type'' (TsEnum ''PostType''), req ''count'' TsNumber, req ''accepted_count'' TsNumber,
      req ''rejected_count'' TsNumber]"

text \<open>\<open>BrandVoiceEmbedding\<close> of the knowledge store's queries (\<open>brand-voice.ts\<close>), with the
  \<open>source_file\<close> column of the migration (\<open>source_file?: string | null\<close>).\<close>

definition StoreBrandVoiceEmbedding_fields :: "ts_field list" where
  "StoreBrandVoiceEmbedding_fields =
     [req ''id'' TsString, req ''source'' (TsEnum ''BrandVoiceSource''), opt ''source_file'' (TsNullable TsString),
      req ''text'' TsString, req ''embedding'' TsNumberArray, opt ''metadata'' TsJson, req ''created_at'' TsDate]"

section \<open>What a query returns for a column\<close>

text \<open>The value the driver returns for a non-NULL value of a column. NULL is not modelled: the
  schema does not record which columns are \<open>NOT NULL\<close>, and a nullable column returns
  \<open>null\<close>, which an optional field (\<open>?:\<close>) without \<open>| null\<close> does not admit; so the
  comparison below speaks of the types of the present values only.\<close>

datatype js_value = JsString | JsBoolean | JsDate | JsParsedJson | JsStringArray | JsLabel string

fun driver_value :: "col_type \<Rightarrow> js_value" where
  "driver_value (EnumT n) = JsLabel n"
| "driver_value (Builtin t) =
     (if t = ''BOOLEAN'' then JsBoolean
      else if t = ''TIMESTAMPTZ'' \<or> t = ''DATE'' then JsDate
      else if t = ''JSONB'' then JsParsedJson
      else if t = ''TEXT[]'' then JsStringArray
      else JsString)"

text \<open>Whether a declared field type admits the value the driver returns for a column of the
  schema: an enum field admits the labels of an SQL enum exactly when its values are those
  labels; a \<open>JSONB\<close> value is whatever was stored, so it is admitted by object and array types.\<close>

fun ts_admits :: "schema \<Rightarrow> ts_type \<Rightarrow> js_value \<Rightarrow> bool" where
  "ts_admits sc TsString v = (v = JsString)"
| "ts_admits sc TsBoolean v = (v = JsBoolean)"
| "ts_admits sc TsDate v = (v = JsDate)"
| "ts_admits sc TsJson v = (v = JsParsedJson)"
| "ts_admits sc TsNumberArray v = (v = JsParsedJson)"
| "ts_admits sc TsStringArray v = (v = JsStringArray)"
| "ts_admits sc (TsEnum e) v =
     (case v of JsLabel n \<Rightarrow> (case (ts_enum_values e, enum_labels sc n) of
                              (Some vs, Some ls) \<Rightarrow> set vs = set ls | _ \<Rightarrow> False)
              | _ \<Rightarrow> False)"
| "ts_admits sc (TsLiterals xs) v =
     (case v of JsLabel n \<Rightarrow> (case enum_labels sc n of Some ls \<Rightarrow> set xs = set ls | None \<Rightarrow> False) | _ \<Rightarrow> False)"
| "ts_admits sc (TsNullable t) v = ts_admits sc t v"
| "ts_admits sc _ v = False"

definition field_ok :: "schema \<Rightarrow> string \<Rightarrow> ts_field \<Rightarrow> bool" where
  "field_ok sc t f =
     (case find (\<lambda>c. col_name c = fd_name f) (table_cols sc t) of
        None \<Rightarrow> False
      | Some c \<Rightarrow> ts_admits sc (fd_type f) (driver_value (col_type c)))"

text \<open>The fields whose column is missing or returns a value the declared type does not admit,
  and the columns the interface does not declare.\<close>

definition bad_fields :: "schema \<Rightarrow> string \<Rightarrow> ts_field list \<Rightarrow> string list" where
  "bad_fields sc t fs = map fd_name (filter (\<lambda>f. \<not> field_ok sc t f) fs)"

definition undeclared_columns :: "schema \<Rightarrow> string \<Rightarrow> ts_field list \<Rightarrow> string list" where
  "undeclared_columns sc t fs = filter (\<lambda>c. c \<notin> set (map fd_name fs)) (map col_name (table_cols sc t))"

definition table_interfaces :: "(string \<times> ts_field list) list" where
  "table_interfaces =
     [(''content_items'', ContentItem_fields), (''generated_posts'', GeneratedPost_fields),
      (''post_history'', PostHistory_fields), (''user_feedback'', UserFeedback_fields),
      (''industry_articles'', IndustryArticle_fields), (''special_days'', SpecialDay_fields),
      (''content_taxonomy'', ContentTaxonomy_fields), (''brand_voice_embeddings'', BrandVoiceEmbedding_fields)]"

section \<open>Lemmas: the knowledge store interface after the migration\<close>

text \<open>After the \<open>source_file\<close> migration the interface of the types module misses the new
  column, and the one of \<open>brand-voice.ts\<close> declares it but types \<open>source\<close> with
  \<open>BrandVoiceSource\<close>, which the types module does not define.\<close>

lemma store_interface_after_migration:
  "\<exists>db. exec_pg_seq initial_schema empty_pg = Inr db \<and>
     undeclared_columns (fst (add_source_file_up (Some u) (pg_schema db))) ''brand_voice_embeddings''
       BrandVoiceEmbedding_fields = [''source_file''] \<and>
     bad_fields (fst (add_source_file_up (Some u) (pg_schema db))) ''brand_voice_embeddings''
       StoreBrandVoiceEmbedding_fields = [''source''] \<and> ts_enum_values ''BrandVoiceSource'' = None"
proof -
  have "case exec_pg_seq initial_schema empty_pg of Inl _ \<Rightarrow> False
        | Inr db \<Rightarrow>
     undeclared_columns (fst (add_source_file_up (Some u) (pg_schema db))) ''brand_voice_embeddings''
       BrandVoiceEmbedding_fields = [''source_file''] \<and>
     bad_fields (fst (add_source_file_up (Some u) (pg_schema db))) ''brand_voice_embeddings''
       StoreBrandVoiceEmbedding_fields = [''source''] \<and> ts_enum_values ''BrandVoiceSource'' = None"
    by code_simp
  then show ?thesis by (auto split: sum.splits)
qed

end
