(* ===== verification/Db_Client.thy ===== *)
theory Db_Client
  imports Initial_Schema
begin

text \<open>The database client (\<open>src/lib/db/client.ts\<close>, the second module of
  \<open>src/lib/db/manual-test.js\<close>): a lazily created connection \<open>_sql\<close> behind a \<open>Proxy\<close> whose every
  use calls \<open>getConnection()\<close>, and the helpers \<open>testConnection\<close>, \<open>getDatabaseVersion\<close>,
  \<open>tableExists\<close> and \<open>listTables\<close>. The process environment is read at each call
  (\<open>env\<close>, the value of \<open>DATABASE_URL\<close>); the module variable is the client state. The
  servers map a connection string to the database it reaches, if any: the catalogue of
  \<open>Initial_Schema\<close> and the version string. \<open>information_schema.tables\<close> lists the tables and
  the views; \<open>ORDER BY table_name\<close> is modelled by code-unit order (the \<open>C\<close> collation).\<close>

section \<open>The client state and the connection\<close>

record client_state =
  cl_sql :: "string option"

definition client_init :: client_state where
  "client_init = \<lparr>cl_sql = None\<rparr>"

definition DATABASE_URL_MISSING :: error where
  "DATABASE_URL_MISSING = ConfigError ''DATABASE_URL environment variable is not set''"

text \<open>\<open>getConnection\<close>: the cached connection, or a new one from the environment; an unset
  or empty \<open>DATABASE_URL\<close> throws and caches nothing.\<close>

definition getConnection :: "string option \<Rightarrow> client_state \<Rightarrow> error + string \<times> client_state" where
  "getConnection env st =
     (case cl_sql st of
        Some conn \<Rightarrow> Inr (conn, st)
      | None \<Rightarrow> (if \<not> js_truthy_str env then Inl DATABASE_URL_MISSING
                else Inr (the env, st\<lparr>cl_sql := env\<rparr>)))"

record pg_server =
  srv_db :: pg_db
  srv_version :: string

type_synonym pg_servers = "string \<Rightarrow> pg_server option"

definition db_unreachable :: error where
  "db_unreachable = StoreFailed ''fetch failed''"

text \<open>A query through the proxy (\<open>apply\<close> and \<open>get\<close> both call \<open>getConnection\<close>): the
  connection is created, and kept, before the request is sent.\<close>

definition sql_query :: "pg_servers \<Rightarrow> string option \<Rightarrow> client_state \<Rightarrow> (pg_server \<Rightarrow> 'a) \<Rightarrow>
                           (error + 'a) \<times> client_state" where
  "sql_query srv env st q =
     (case getConnection env st of
        Inl e \<Rightarrow> (Inl e, st)
      | Inr (conn, st') \<Rightarrow> (case srv conn of None \<Rightarrow> (Inl db_unreachable, st') | Some s \<Rightarrow> (Inr (q s), st')))"

text \<open>The relations \<open>information_schema.tables\<close> lists in the \<open>public\<close> schema.\<close>

definition public_relations :: "pg_db \<Rightarrow> string list" where
  "public_relations db = map tb_name (sc_tables (pg_schema db)) @ map fst (pg_views db)"

section \<open>The helpers\<close>

definition testConnection :: "pg_servers \<Rightarrow> string option \<Rightarrow> client_state \<Rightarrow> bool \<times> client_state" where
  "testConnection srv env st =
     (case sql_query srv env st (\<lambda>s. ()) of (Inr _, st') \<Rightarrow> (True, st') | (Inl _, st') \<Rightarrow> (False, st'))"

definition getDatabaseVersion :: "pg_servers \<Rightarrow> string option \<Rightarrow> client_state \<Rightarrow> (error + string) \<times> client_state" where
  "getDatabaseVersion srv env st = sql_query srv env st srv_version"

definition tableExists :: "pg_servers \<Rightarrow> string option \<Rightarrow> client_state \<Rightarrow> string \<Rightarrow> bool \<times> client_state" where
  "tableExists srv env st tableName =
     (case sql_query srv env st (\<lambda>s. tableName \<in> set (public_relations (srv_db s))) of
        (Inr b, st') \<Rightarrow> (b, st')
      | (Inl _, st') \<Rightarrow> (False, st'))"

definition listTables :: "pg_servers \<Rightarrow> string option \<Rightarrow> client_state \<Rightarrow> string list \<times> client_state" where
  "listTables srv env st =
     (case sql_query srv env st (\<lambda>s. sort (public_relations (srv_db s))) of
        (Inr ts, st') \<Rightarrow> (ts, st')
      | (Inl _, st') \<Rightarrow> ([], st'))"

text \<open>The proxy used by successive queries of one process, each reading the environment of
  its time: the results of \<open>getConnection\<close> in order.\<close>

fun connection_calls :: "string option list \<Rightarrow> client_state \<Rightarrow> (error + string) list" where
  "connection_calls [] st = []"
| "connection_calls (env # envs) st =
     (case getConnection env st of
        Inl e \<Rightarrow> Inl e # connection_calls envs st
      | Inr (conn, st') \<Rightarrow> Inr conn # connection_calls envs st')"

section \<open>Lemmas: successive connections and the catalogue listing\<close>

lemma connection_calls_pinned:
  "cl_sql st = Some c \<Longrightarrow> connection_calls envs st = replicate (length envs) (Inr c)"
  by (induction envs) (simp_all add: getConnection_def)

lemma connection_calls_unset:
  "cl_sql st = None \<Longrightarrow>
   connection_calls envs st =
     (let k = length (takeWhile (\<lambda>e. \<not> js_truthy_str e) envs)
      in replicate k (Inl DATABASE_URL_MISSING) @ map (\<lambda>_. Inr (the (envs ! k))) (drop k envs))"
proof (induction envs)
  case Nil then show ?case by simp
next
  case (Cons e envs)
  show ?case
  proof (cases "js_truthy_str e")
    case True
    have "cl_sql (st\<lparr>cl_sql := e\<rparr>) = Some (the e)" using True by (cases e) (simp_all add: js_truthy_str_def)
    then show ?thesis using True Cons.prems connection_calls_pinned [of "st\<lparr>cl_sql := e\<rparr>" "the e" envs]
      by (simp add: getConnection_def map_replicate_const)
  next
    case False
    then show ?thesis using Cons by (simp add: getConnection_def Let_def)
  qed
qed

text \<open>\<open>listTables\<close> on the database of the initial migration lists the two views among the
  ten "tables".\<close>

lemma listTables_initial_schema:
  "case exec_pg_seq initial_schema empty_pg of Inl _ \<Rightarrow> False
   | Inr db \<Rightarrow> ''posts_with_content'' \<in> set (fst (listTables (\<lambda>_. Some \<lparr>srv_db = db, srv_version = ''16''\<rparr>) (Some ''db'') client_init))
             \<and> length (fst (listTables (\<lambda>_. Some \<lparr>srv_db = db, srv_version = ''16''\<rparr>) (Some ''db'') client_init)) = 10"
  by code_simp

section \<open>Properties of the client\<close>

text \<open>C32: The connection is created once per process: the calls before \<open>DATABASE_URL\<close>
  is first set throw and cache nothing, and every later call uses the connection string of that
  first call, whatever the environment says afterwards.\<close>

theorem connection_calls_first_url:
  "connection_calls envs client_init =
     (let k = length (takeWhile (\<lambda>e. \<not> js_truthy_str e) envs)
      in replicate k (Inl DATABASE_URL_MISSING) @ map (\<lambda>_. Inr (the (envs ! k))) (drop k envs))"
  by (rule connection_calls_unset) (simp add: client_init_def)

theorem connection_calls_first_url_witness:
  "connection_calls [None, Some [], Some ''db1'', Some ''db2''] client_init =
     [Inl DATABASE_URL_MISSING, Inl DATABASE_URL_MISSING, Inr ''db1'', Inr ''db1'']"
  using connection_calls_first_url [of "[None, Some [], Some ''db1'', Some ''db2'']"]
  by (simp add: js_truthy_str_def)

text \<open>C31: \<open>tableExists\<close> and \<open>listTables\<close> swallow errors: against a database that cannot be
  reached they answer exactly as against an empty one (no table, no tables), while
  \<open>testConnection\<close> and \<open>getDatabaseVersion\<close> report the failure.\<close>

theorem unreachable_like_empty:
  assumes "srv conn = None" "srv' conn = Some \<lparr>srv_db = empty_pg, srv_version = v\<rparr>"
    "getConnection env st = Inr (conn, st')"
  shows "tableExists srv env st t = tableExists srv' env st t \<and> listTables srv env st = listTables srv' env st \<and>
         testConnection srv env st = (False, st') \<and> testConnection srv' env st = (True, st') \<and>
         getDatabaseVersion srv env st = (Inl db_unreachable, st')"
  using assms
  by (simp add: tableExists_def listTables_def testConnection_def getDatabaseVersion_def sql_query_def
      public_relations_def empty_pg_def empty_schema_def)

theorem unreachable_like_empty_witness:
  "tableExists (\<lambda>_. None) (Some ''db'') client_init ''content_items'' =
     tableExists (\<lambda>_. Some \<lparr>srv_db = empty_pg, srv_version = ''16''\<rparr>) (Some ''db'') client_init ''content_items'' \<and>
   fst (testConnection (\<lambda>_. None) (Some ''db'') client_init) = False"
proof -
  have g: "getConnection (Some ''db'') client_init = Inr (''db'', \<lparr>cl_sql = Some ''db''\<rparr>)"
    by (simp add: getConnection_def client_init_def js_truthy_str_def)
  show ?thesis
    using unreachable_like_empty [of "\<lambda>_. None" "''db''" "\<lambda>_. Some \<lparr>srv_db = empty_pg, srv_version = ''16''\<rparr>" "''16''",
                                  OF refl refl g] by simp
qed

end
