(* ===== verification/Db_Scripts.thy ===== *)
theory Db_Scripts
  imports Db_Client
begin

text \<open>The database test scripts: \<open>src/lib/db/test-create-table.js\<close>, the script of
  \<open>src/lib/db/manual-test.js\<close>, the two scripts of \<open>src/lib/db/debug-schema.js\<close> (\<open>debug\<close> and
  the connection test) and the \<open>simple_test\<close> script (second module of
  \<open>src/unnamed/part_002\<close>). Their statements act on the schema of \<open>Schema\<close>, with the
  statement forms the scripts use beyond those of the schema scripts: a \<open>DO\<close> block that
  ignores a duplicate type, \<open>CREATE TABLE IF NOT EXISTS\<close>, and \<open>DROP ... IF EXISTS\<close> without
  \<open>CASCADE\<close>, which fails while other objects depend on the dropped one. What a script prints
  is its list of output lines; only the lines that report database contents are modelled.
  Every script sends its statements through Neon's serverless driver, in a mode
  \<open>ddl_commit\<close> of \<open>Schema\<close> (DDL persists or is rolled back).\<close>

section \<open>Statements of the scripts\<close>

datatype script_stmt =
    Stmt ddl
  | CreateEnumIgnoringDuplicate string "string list"
  | CreateTableIfNotExists string "column list"
  | DropTableIfExistsRestrict string
  | DropTypeIfExistsRestrict string

definition depends_failed :: "string \<Rightarrow> string \<Rightarrow> error" where
  "depends_failed kind n = StoreFailed (''cannot drop '' @ kind @ '' '' @ n @ '' because other objects depend on it'')"

fun exec_script_stmt :: "script_stmt \<Rightarrow> schema \<Rightarrow> error + schema" where
  "exec_script_stmt (Stmt d) sc = exec_ddl d sc"
| "exec_script_stmt (CreateEnumIgnoringDuplicate n ls) sc =
     (if n \<in> set (map fst (sc_types sc)) then Inr sc else exec_ddl (CreateEnum n ls) sc)"
| "exec_script_stmt (CreateTableIfNotExists t cols) sc =
     (if has_table sc t then Inr sc else exec_ddl (CreateTable t cols) sc)"
| "exec_script_stmt (DropTableIfExistsRestrict t) sc =
     (if \<not> has_table sc t then Inr sc
      else if list_ex (\<lambda>tb. tb_name tb \<noteq> t \<and> list_ex (\<lambda>c. col_ref c = Some t) (tb_cols tb)) (sc_tables sc)
      then Inl (depends_failed ''table'' t)
      else exec_ddl (DropTable t) sc)"
| "exec_script_stmt (DropTypeIfExistsRestrict n) sc =
     (if n \<notin> set (map fst (sc_types sc)) then Inr sc
      else if list_ex (\<lambda>tb. list_ex (\<lambda>c. col_type c = EnumT n) (tb_cols tb)) (sc_tables sc)
      then Inl (depends_failed ''type'' n)
      else exec_ddl (DropType n) sc)"

section \<open>test-create-table.js\<close>

definition test_enum_stmt :: script_stmt where
  "test_enum_stmt = CreateEnumIgnoringDuplicate ''test_enum'' [''value1'', ''value2'']"

definition test_table_stmt :: script_stmt where
  "test_table_stmt =
     CreateTableIfNotExists ''test_table''
       [bcol ''id'' ''UUID'', bcol ''name'' ''TEXT'', bcol ''created_at'' ''TIMESTAMPTZ'']"

record script_outcome =
  so_error :: "error option"
  so_verified :: "bool option"

text \<open>\<open>test()\<close>: the enum, the table, the check in \<open>information_schema\<close>, then the clean-up,
  each a call of the serverless driver in mode \<open>m\<close> (see \<open>Schema\<close>); the first failure is
  printed by the \<open>catch\<close> and ends the script, which exits with 0 in every case.\<close>

definition test_create_table :: "ddl_commit \<Rightarrow> schema \<Rightarrow> script_outcome \<times> schema" where
  "test_create_table m sc =
     (case neon_ddl m (exec_script_stmt test_enum_stmt) sc of
        Inl e \<Rightarrow> (\<lparr>so_error = Some e, so_verified = None\<rparr>, sc)
      | Inr sc1 \<Rightarrow>
          (case neon_ddl m (exec_script_stmt test_table_stmt) sc1 of
             Inl e \<Rightarrow> (\<lparr>so_error = Some e, so_verified = None\<rparr>, sc1)
           | Inr sc2 \<Rightarrow>
               (let verified = has_table sc2 ''test_table''
                in case neon_ddl m (exec_script_stmt (DropTableIfExistsRestrict ''test_table'')) sc2 of
                     Inl e \<Rightarrow> (\<lparr>so_error = Some e, so_verified = Some verified\<rparr>, sc2)
                   | Inr sc3 \<Rightarrow>
                       (case neon_ddl m (exec_script_stmt (DropTypeIfExistsRestrict ''test_enum'')) sc3 of
                          Inl e \<Rightarrow> (\<lparr>so_error = Some e, so_verified = Some verified\<rparr>, sc3)
                        | Inr sc4 \<Rightarrow> (\<lparr>so_error = None, so_verified = Some verified\<rparr>, sc4)))))"

section \<open>The script of manual-test.js\<close>

datatype manual_report =
    TablesCreated "string list"
  | MigrationDidWork string "string list"
  | ManualFailed string

text \<open>The error handler: a message containing \<open>already exists\<close> is read as proof that the
  migration worked, and the tables are listed.\<close>

definition manual_handler :: "error \<Rightarrow> schema \<Rightarrow> manual_report" where
  "manual_handler e sc =
     (if str_includes (err_message e) ''already exists''
      then MigrationDidWork (err_message e) (sort (map tb_name (sc_tables sc)))
      else ManualFailed (err_message e))"

text \<open>\<open>test()\<close>: the two statements through the serverless driver in mode \<open>m\<close>, then the
  listing, or the handler.\<close>

definition manual_test :: "ddl_commit \<Rightarrow> schema \<Rightarrow> manual_report \<times> schema" where
  "manual_test m sc =
     (case neon_ddl m (exec_ddl (CreateEnum ''content_source'' [''webflow'', ''hubspot'', ''youtube'', ''manual''])) sc of
        Inl e \<Rightarrow> (manual_handler e sc, sc)
      | Inr sc1 \<Rightarrow>
          (case neon_ddl m (exec_ddl (CreateTable ''content_items''
                   [bcol ''id'' ''UUID'', ecol ''source'' ''content_source'', bcol ''url'' ''TEXT'',
                    bcol ''title'' ''TEXT'', bcol ''created_at'' ''TIMESTAMPTZ''])) sc1 of
             Inl e \<Rightarrow> (manual_handler e sc1, sc1)
           | Inr sc2 \<Rightarrow> (TablesCreated (sort (map tb_name (sc_tables sc2))), sc2)))"

section \<open>debug-schema.js\<close>

text \<open>A result row is the record of the selected columns; reading a property that was not
  selected gives \<open>undefined\<close>, which becomes the key \<open>"undefined"\<close> of an object.\<close>

type_synonym sql_row = "(string \<times> string) list"

definition js_key :: "sql_row \<Rightarrow> string \<Rightarrow> string" where
  "js_key row k = (case map_of row k of None \<Rightarrow> ''undefined'' | Some v \<Rightarrow> v)"

text \<open>\<open>grouped[t.table_schema].push(t.table_name)\<close>: keys in order of first appearance.\<close>

fun group_rows :: "(string \<times> string list) list \<Rightarrow> sql_row list \<Rightarrow> (string \<times> string list) list" where
  "group_rows acc [] = acc"
| "group_rows acc (r # rs) =
     (let k = js_key r ''table_schema''; n = js_key r ''table_name''
      in group_rows (if k \<in> set (map fst acc) then map (\<lambda>(k', ns). if k' = k then (k', ns @ [n]) else (k', ns)) acc
                     else acc @ [(k, [n])]) rs)"

definition grouped_lines :: "(string \<times> string list) list \<Rightarrow> string list" where
  "grouped_lines g = concat (map (\<lambda>(k, ns). (''   Schema: '' @ k) # map (\<lambda>n. ''     - '' @ n) ns) g)"

text \<open>The third listing of \<open>debug()\<close>: \<open>SELECT table_name FROM information_schema.tables\<close>.\<close>

definition tables2_listing :: "string list \<Rightarrow> string list" where
  "tables2_listing names =
     (if names = [] then [''   (none found)'']
      else grouped_lines (group_rows [] (map (\<lambda>n. [(''table_name'', n)]) names)))"

text \<open>\<open>debug()\<close>: the tables of \<open>pg_tables\<close> and the enums, each as \<open>schema.name\<close> in order,
  then the third listing over the relations of \<open>information_schema.tables\<close> of the current
  catalog: the public tables and views, and the views of the system schemas, \<open>sys\<close>.\<close>

definition debug_listing :: "pg_db \<Rightarrow> string list \<Rightarrow> string list" where
  "debug_listing db sys =
     (let tables = sort (map tb_name (sc_tables (pg_schema db)));
          types = sort (map fst (sc_types (pg_schema db)))
      in [''ALL tables in database:''] @
         (if tables = [] then [''   (none found)''] else map (\<lambda>t. ''   public.'' @ t) tables) @
         [''ALL enums:''] @
         (if types = [] then [''   (none found)''] else map (\<lambda>t. ''   public.'' @ t) types) @
         [''Tables via information_schema (all catalogs):''] @ tables2_listing (sort (public_relations db @ sys)))"

text \<open>The connection test: tables (\<open>BASE TABLE\<close> only), enums, and the rows (name, executed
  at) of the \<open>migrations\<close> table (\<open>None\<close> when it does not exist); a failed query exits
  with 1.\<close>

definition connection_test :: "pg_db \<Rightarrow> (string \<times> string) list option \<Rightarrow> string list \<times> nat" where
  "connection_test db migrations =
     (let tables = sort (map tb_name (sc_tables (pg_schema db)));
          enums = sort (map fst (sc_types (pg_schema db)));
          shown = [''Tables in database:''] @
                  (if tables = [] then [''  (no tables found)''] else map (\<lambda>t. ''  - '' @ t) tables) @
                  [''Enums in database:''] @
                  (if enums = [] then [''  (no enums found)''] else map (\<lambda>t. ''  - '' @ t) enums)
      in case migrations of
           None \<Rightarrow> (shown @ [''Error: relation '' @ CHR 0x22 # ''migrations'' @ CHR 0x22 # '' does not exist''], 1)
         | Some ms \<Rightarrow> (shown @ [''Executed migrations:''] @
                         (if ms = [] then [''  (no migrations executed)'']
                          else map (\<lambda>(m, ts). ''  - '' @ m @ '' ('' @ ts @ '')'') ms), 0))"

section \<open>The simple_test script\<close>

text \<open>\<open>process.env.DATABASE_URL.replace('-pooler.', '.')\<close>: the direct endpoint.\<close>

definition direct_connection :: "string \<Rightarrow> string" where
  "direct_connection url = replace_first POOLER ''.'' url"

text \<open>\<open>CREATE TABLE IF NOT EXISTS simple_test (id SERIAL, name TEXT)\<close> through the serverless
  driver in mode \<open>m\<close>, one insert, then the rows: a table that exists and its sequence
  persist between runs (the insert is not DDL). If the table does not exist after the create,
  the insert fails and the \<open>catch\<close> prints the error.\<close>

record simple_table =
  st_exists :: bool
  st_rows :: "(nat \<times> string) list"
  st_next :: nat

definition simple_test :: "ddl_commit \<Rightarrow> simple_table \<Rightarrow> (error + (nat \<times> string) list) \<times> simple_table" where
  "simple_test m t =
     (let t1 = (if st_exists t \<or> m = DdlRolledBack then t else \<lparr>st_exists = True, st_rows = [], st_next = 1\<rparr>)
      in if \<not> st_exists t1
         then (Inl (StoreFailed (''relation '' @ CHR 0x22 # ''simple_test'' @ CHR 0x22 # '' does not exist'')), t1)
         else (let t2 = t1\<lparr>st_rows := st_rows t1 @ [(st_next t1, ''test1'')], st_next := Suc (st_next t1)\<rparr>
               in (Inr (st_rows t2), t2)))"

text \<open>The script: the direct connection string, then the run on the table.\<close>

definition simple_test_script ::
  "ddl_commit \<Rightarrow> string \<Rightarrow> simple_table \<Rightarrow> string \<times> (error + (nat \<times> string) list) \<times> simple_table"
where
  "simple_test_script m url t = (direct_connection url, simple_test m t)"

section \<open>Lemmas: the statements of the scripts\<close>

lemma has_table_drop_table: "exec_ddl (DropTable t) sc = Inr sc' \<Longrightarrow> \<not> has_table sc' t"
  by (drule sym) (simp add: has_table_def comp_def, blast)

lemma drop_type_effect:
  "exec_ddl (DropType n) sc = Inr sc' \<Longrightarrow> n \<notin> set (map fst (sc_types sc')) \<and> has_table sc' t = has_table sc t"
  by (drule sym) (auto simp: has_table_def comp_def)

lemma drop_table_restrict_absent:
  "exec_script_stmt (DropTableIfExistsRestrict t) sc = Inr sc' \<Longrightarrow> \<not> has_table sc' t"
  by (auto split: if_splits simp del: exec_ddl.simps dest: has_table_drop_table)

lemma drop_type_restrict_absent:
  "exec_script_stmt (DropTypeIfExistsRestrict n) sc = Inr sc' \<Longrightarrow>
     n \<notin> set (map fst (sc_types sc')) \<and> has_table sc' t = has_table sc t"
proof (cases "n \<in> set (map fst (sc_types sc))")
  case True
  moreover assume "exec_script_stmt (DropTypeIfExistsRestrict n) sc = Inr sc'"
  ultimately have "exec_ddl (DropType n) sc = Inr sc'"
    by (simp split: if_splits del: exec_ddl.simps)
  then show ?thesis
    by (rule drop_type_effect)
next
  case False
  moreover assume "exec_script_stmt (DropTypeIfExistsRestrict n) sc = Inr sc'"
  ultimately show ?thesis
    by simp
qed

text \<open>A table created and dropped again, on a schema where nothing refers to it.\<close>

lemma create_drop_table:
  assumes "\<not> has_table sc t" "schema_wf sc"
    and "\<forall>tb\<in>set (sc_tables sc). \<forall>c\<in>set (tb_cols tb). col_ref c \<noteq> Some t"
    and "exec_ddl (CreateTable t cols) sc = Inr sc1"
    and "\<forall>c\<in>set cols. col_ref c \<noteq> Some t"
  shows "exec_ddl (DropTable t) sc1 = Inr sc"
proof -
  have sc1: "sc1 = sc\<lparr>sc_tables := sc_tables sc @ [\<lparr>tb_name = t, tb_cols = cols\<rparr>]\<rparr>"
    using assms(1,4) by (auto split: if_splits)
  have tabs: "filter (\<lambda>tb. tb_name tb \<noteq> t) (sc_tables sc) = sc_tables sc"
    using assms(1) by (auto simp: has_table_def filter_id_conv)
  have "\<And>tb. tb \<in> set (sc_tables sc) \<Longrightarrow>
          map (\<lambda>c. if col_ref c = Some t then c\<lparr>col_ref := None\<rparr> else c) (tb_cols tb) = tb_cols tb"
    using assms(3) by (auto intro!: map_idI)
  then have refs: "map (\<lambda>tb. tb\<lparr>tb_cols := map (\<lambda>c. if col_ref c = Some t then c\<lparr>col_ref := None\<rparr> else c) (tb_cols tb)\<rparr>)
                (sc_tables sc) = sc_tables sc"
    by (intro map_idI) simp
  have ixs: "filter (\<lambda>(i, tb, c). tb \<noteq> t) (sc_indexes sc) = sc_indexes sc"
    using assms(1,2) by (auto simp: schema_wf_def list_all_iff filter_id_conv dest!: has_column_table)
  show ?thesis
    using tabs refs ixs by (simp add: sc1)
qed

lemma table_cols_types [simp]: "table_cols (sc\<lparr>sc_types := tys\<rparr>) = table_cols sc"
  by (simp add: table_cols_def fun_eq_iff)

lemma create_drop_enum:
  assumes "n \<notin> set (map fst (sc_types sc)) " "schema_wf sc"
    and "\<forall>tb\<in>set (sc_tables sc). \<forall>c\<in>set (tb_cols tb). col_type c \<noteq> EnumT n"
  shows "exec_ddl (DropType n) (sc\<lparr>sc_types := sc_types sc @ [(n, ls)]\<rparr>) = Inr sc"
proof -
  have tys: "filter (\<lambda>(m, ls). m \<noteq> n) (sc_types sc @ [(n, ls)]) = sc_types sc"
    using assms(1) by (force simp: filter_id_conv image_iff)
  have cols: "map (\<lambda>tb. tb\<lparr>tb_cols := filter (\<lambda>c. col_type c \<noteq> EnumT n) (tb_cols tb)\<rparr>) (sc_tables sc) = sc_tables sc"
    using assms(3) by (auto intro!: map_idI simp: filter_id_conv)
  have ixs: "filter (\<lambda>(i, tb, c). \<not> list_ex (\<lambda>col. col_name col = c \<and> col_type col = EnumT n) (table_cols sc tb))
               (sc_indexes sc) = sc_indexes sc"
    using assms(3) by (auto simp: filter_id_conv list_ex_iff table_cols_def)
  show ?thesis
    using tys cols ixs by simp
qed

lemma bcol_ok: "col_type_ok sc (bcol n ty)"
  by (simp add: col_type_ok_def bcol_def)

lemma has_table_types [simp]: "has_table (sc\<lparr>sc_types := tys\<rparr>) t = has_table sc t"
  by (simp add: has_table_def)

lemma schema_wf_types [simp]: "schema_wf (sc\<lparr>sc_types := tys\<rparr>) = schema_wf sc"
  by (simp add: schema_wf_def has_column_def table_cols_def)



section \<open>Lemmas: the manual test, the listings and the simple test\<close>

lemma already_exists_message: "str_includes (''type '' @ n @ '' already exists'') ''already exists''"
  using str_includes_infix [of "''type '' @ n @ '' ''" "''already exists''" "[]"] by simp

lemma group_rows_undefined:
  "group_rows [(''undefined'', ns)] (map (\<lambda>n. [(''table_name'', n)]) names) = [(''undefined'', ns @ names)]"
  by (induction names arbitrary: ns) (simp_all add: js_key_def)

lemma simple_test_runs:
  assumes "\<not> st_exists t"
  shows "st_rows (((snd \<circ> simple_test DdlPersists) ^^ Suc n) t) = map (\<lambda>i. (i, ''test1'')) [1..<n + 2]
         \<and> st_exists (((snd \<circ> simple_test DdlPersists) ^^ Suc n) t)
         \<and> st_next (((snd \<circ> simple_test DdlPersists) ^^ Suc n) t) = n + 2"
proof (induction n)
  case 0
  show ?case
    using assms by (simp add: simple_test_def)
next
  case (Suc n)
  then show ?case
    by (simp add: simple_test_def Let_def)
qed

lemma simple_test_rolled_back:
  "\<not> st_exists t \<Longrightarrow> simple_test DdlRolledBack t =
     (Inl (StoreFailed (''relation '' @ CHR 0x22 # ''simple_test'' @ CHR 0x22 # '' does not exist'')), t)"
  by (simp add: simple_test_def)

lemma replace_first_absent: "\<not> str_includes s p \<Longrightarrow> replace_first p r s = s"
proof (induction s)
  case Nil
  then show ?case
    by (simp add: str_includes_def)
next
  case (Cons c cs)
  have "take (length p) (c # cs) \<noteq> p"
    using Cons.prems by (metis append_Nil append_take_drop_id str_includes_iff)
  moreover have "\<not> str_includes cs p"
    using Cons.prems by (metis Cons_eq_appendI str_includes_iff)
  ultimately show ?case
    using Cons.IH by simp
qed

text \<open>The simple_test script replaces \<open>-pooler.\<close> unconditionally, the migration runner only
  when it occurs: both reach the same endpoint.\<close>

lemma direct_connection_runner: "u \<noteq> [] \<Longrightarrow> connection_string (Some u) = Inr (direct_connection u)"
  by (simp add: connection_string_def direct_connection_def replace_first_absent)

text \<open>The run of test-create-table.js when its DDL persists, on a schema without its objects.\<close>

lemma test_create_table_persists_absent:
  assumes "\<not> has_table sc ''test_table''" "''test_enum'' \<notin> set (map fst (sc_types sc))" "schema_wf sc"
    and "\<forall>tb\<in>set (sc_tables sc). \<forall>c\<in>set (tb_cols tb). col_ref c \<noteq> Some ''test_table'' \<and> col_type c \<noteq> EnumT ''test_enum''"
  shows "test_create_table DdlPersists sc = (\<lparr>so_error = None, so_verified = Some True\<rparr>, sc)"
proof -
  define sc1 where "sc1 = sc\<lparr>sc_types := sc_types sc @ [(''test_enum'', [''value1'', ''value2''])]\<rparr>"
  define cols where "cols = [bcol ''id'' ''UUID'', bcol ''name'' ''TEXT'', bcol ''created_at'' ''TIMESTAMPTZ'']"
  define sc2 where "sc2 = sc1\<lparr>sc_tables := sc_tables sc1 @ [\<lparr>tb_name = ''test_table'', tb_cols = cols\<rparr>]\<rparr>"
  have e1: "exec_script_stmt test_enum_stmt sc = Inr sc1"
    using assms(2) by (simp add: test_enum_stmt_def sc1_def)
  have c2: "exec_ddl (CreateTable ''test_table'' cols) sc1 = Inr sc2"
    using assms(1) by (simp add: sc1_def sc2_def cols_def bcol_ok)
  have e2: "exec_script_stmt test_table_stmt sc1 = Inr sc2"
    using c2 assms(1) by (simp add: test_table_stmt_def cols_def sc1_def)
  have v: "has_table sc2 ''test_table''"
    by (simp add: sc2_def has_table_def)
  have norefs: "\<not> list_ex (\<lambda>tb. tb_name tb \<noteq> ''test_table'' \<and> list_ex (\<lambda>c. col_ref c = Some ''test_table'') (tb_cols tb)) (sc_tables sc2)"
    using assms(4) by (auto simp: sc2_def sc1_def list_ex_iff)
  have d1: "exec_ddl (DropTable ''test_table'') sc2 = Inr sc1"
    using create_drop_table [of sc1 "''test_table''" cols sc2] c2 assms
    by (auto simp: sc1_def cols_def bcol_def)
  have e3: "exec_script_stmt (DropTableIfExistsRestrict ''test_table'') sc2 = Inr sc1"
    using v norefs d1 by simp
  have nouse: "\<not> list_ex (\<lambda>tb. list_ex (\<lambda>c. col_type c = EnumT ''test_enum'') (tb_cols tb)) (sc_tables sc1)"
    using assms(4) by (auto simp: sc1_def list_ex_iff)
  have d2: "exec_ddl (DropType ''test_enum'') sc1 = Inr sc"
    unfolding sc1_def using create_drop_enum assms(2-4) by blast
  have e4: "exec_script_stmt (DropTypeIfExistsRestrict ''test_enum'') sc1 = Inr sc"
    using nouse d2 by (simp add: sc1_def)
  show ?thesis
    using e1 e2 e3 e4 v by (simp add: test_create_table_def)
qed

text \<open>When the DDL is rolled back the script never changes the schema.\<close>

lemma test_create_table_rolled_back: "snd (test_create_table DdlRolledBack sc) = sc"
  by (simp add: test_create_table_def neon_ddl_def Let_def split: sum.split)

section \<open>Properties of the scripts\<close>

text \<open>C33: test-create-table.js on a schema without \<open>test_table\<close> and \<open>test_enum\<close> (and
  nothing referring to them) ends without error and leaves the schema it started from,
  whichever way the serverless driver treats DDL; its check reports the table as found
  exactly when the DDL persists, so the script tells the two behaviours apart.\<close>

theorem test_create_table_restores:
  assumes "\<not> has_table sc ''test_table''" "''test_enum'' \<notin> set (map fst (sc_types sc))" "schema_wf sc"
    and "\<forall>tb\<in>set (sc_tables sc). \<forall>c\<in>set (tb_cols tb). col_ref c \<noteq> Some ''test_table'' \<and> col_type c \<noteq> EnumT ''test_enum''"
  shows "test_create_table m sc = (\<lparr>so_error = None, so_verified = Some (m = DdlPersists)\<rparr>, sc)"
proof (cases m)
  case DdlPersists
  then show ?thesis
    using test_create_table_persists_absent [OF assms] by simp
next
  case DdlRolledBack
  have "exec_ddl (CreateTable ''test_table'' [bcol ''id'' ''UUID'', bcol ''name'' ''TEXT'', bcol ''created_at'' ''TIMESTAMPTZ'']) sc \<noteq> Inl e" for e
    using assms(1) by (simp add: bcol_ok)
  then show ?thesis
    using DdlRolledBack assms(1,2)
    by (auto simp: test_create_table_def neon_ddl_def test_enum_stmt_def test_table_stmt_def bcol_ok split: sum.split)
qed

theorem test_create_table_restores_witness:
  "test_create_table DdlPersists app_schema = (\<lparr>so_error = None, so_verified = Some True\<rparr>, app_schema) \<and>
   test_create_table DdlRolledBack app_schema = (\<lparr>so_error = None, so_verified = Some False\<rparr>, app_schema)"
proof -
  have h: "\<not> has_table app_schema ''test_table''" "''test_enum'' \<notin> set (map fst (sc_types app_schema))"
    "schema_wf app_schema"
    "\<forall>tb\<in>set (sc_tables app_schema). \<forall>c\<in>set (tb_cols tb). col_ref c \<noteq> Some ''test_table'' \<and> col_type c \<noteq> EnumT ''test_enum''"
    by (simp_all add: app_schema_def has_table_def schema_wf_def has_column_def table_cols_def ecol_def bcol_def)
  show ?thesis
    using test_create_table_restores [OF h, of DdlPersists] test_create_table_restores [OF h, of DdlRolledBack]
    by simp
qed

text \<open>C34: when test-create-table.js ends without error, a \<open>test_table\<close> (and a \<open>test_enum\<close>) is
  left exactly when one existed before and the DDL is rolled back: with DDL that persists the
  clean-up drops a table or enum of that name that existed before the script ran, with its
  data, although the script's create statements left it untouched.\<close>

theorem test_create_table_cleanup:
  assumes "test_create_table m sc = (out, sc')" "so_error out = None"
  shows "(has_table sc' ''test_table'' \<longleftrightarrow> m = DdlRolledBack \<and> has_table sc ''test_table'') \<and>
         (''test_enum'' \<in> set (map fst (sc_types sc')) \<longleftrightarrow>
            m = DdlRolledBack \<and> ''test_enum'' \<in> set (map fst (sc_types sc)))"
proof (cases m)
  case DdlPersists
  obtain sc2 sc3 where
    "exec_script_stmt (DropTableIfExistsRestrict ''test_table'') sc2 = Inr sc3"
    "exec_script_stmt (DropTypeIfExistsRestrict ''test_enum'') sc3 = Inr sc'"
    using assms DdlPersists
    by (auto simp: test_create_table_def Let_def split: sum.splits simp del: exec_script_stmt.simps)
  then show ?thesis
    using drop_table_restrict_absent drop_type_restrict_absent DdlPersists by blast
next
  case DdlRolledBack
  then have "sc' = sc"
    using test_create_table_rolled_back [of sc] assms(1) by simp
  then show ?thesis
    using DdlRolledBack by simp
qed

theorem test_create_table_cleanup_witness:
  "has_table dev_schema ''test_table'' \<and> ''test_enum'' \<in> set (map fst (sc_types dev_schema)) \<and>
   so_error (fst (test_create_table DdlPersists dev_schema)) = None \<and>
   \<not> has_table (snd (test_create_table DdlPersists dev_schema)) ''test_table'' \<and>
   ''test_enum'' \<notin> set (map fst (sc_types (snd (test_create_table DdlPersists dev_schema))))"
proof -
  have "so_error (fst (test_create_table DdlPersists dev_schema)) = None"
    by code_simp
  then show ?thesis
    using test_create_table_cleanup [of DdlPersists dev_schema "fst (test_create_table DdlPersists dev_schema)"
        "snd (test_create_table DdlPersists dev_schema)"]
    by (simp add: dev_schema_def has_table_def)
qed

text \<open>C35: the script of manual-test.js, run where the \<open>content_source\<close> enum already
  exists, reports that the migration worked and lists the tables, whatever the tables are and
  whichever way the driver treats DDL: the report does not depend on \<open>content_items\<close>
  existing.\<close>

theorem manual_test_misreports:
  assumes "''content_source'' \<in> set (map fst (sc_types sc))"
  shows "manual_test m sc = (MigrationDidWork ''type content_source already exists'' (sort (map tb_name (sc_tables sc))), sc)"
  using assms already_exists_message [of "''content_source''"]
  by (simp add: manual_test_def manual_handler_def ddl_failed_def neon_ddl_def)

theorem manual_test_misreports_witness:
  "''content_source'' \<in> set (map fst (sc_types (empty_schema\<lparr>sc_types := [(''content_source'', [''webflow''])]\<rparr>))) \<and>
   \<not> has_table (empty_schema\<lparr>sc_types := [(''content_source'', [''webflow''])]\<rparr>) ''content_items'' \<and>
   manual_test DdlPersists (empty_schema\<lparr>sc_types := [(''content_source'', [''webflow''])]\<rparr>) =
     (MigrationDidWork ''type content_source already exists'' [], empty_schema\<lparr>sc_types := [(''content_source'', [''webflow''])]\<rparr>)"
  using manual_test_misreports [of "empty_schema\<lparr>sc_types := [(''content_source'', [''webflow''])]\<rparr>" DdlPersists]
  by (simp add: empty_schema_def has_table_def)

text \<open>C36: the third listing of \<open>debug()\<close> in debug-schema.js groups the tables by
  \<open>t.table_schema\<close>, a column its query does not select: every table is printed under one
  heading, \<open>Schema: undefined\<close>.\<close>

theorem tables2_all_undefined:
  assumes "names \<noteq> []"
  shows "tables2_listing names = ''   Schema: undefined'' # map (\<lambda>n. ''     - '' @ n) names"
proof -
  obtain n ns where "names = n # ns"
    using assms by (cases names) auto
  then show ?thesis
    using group_rows_undefined [of "[n]" ns]
    by (simp add: tables2_listing_def js_key_def grouped_lines_def)
qed

theorem tables2_all_undefined_witness:
  "[''content_items'', ''migrations''] \<noteq> [] \<and>
   tables2_listing [''content_items'', ''migrations''] = [''   Schema: undefined'', ''     - content_items'', ''     - migrations'']"
  using tables2_all_undefined [of "[''content_items'', ''migrations'']"] by simp

end
