(* ===== verification/CMS_Clients.thy ===== *)
theory CMS_Clients
  imports Content_Ingestion
begin

text \<open>The two CMS API clients: the Webflow client (\<open>src/lib/utils/webflow.ts\<close>) and the
  HubSpot client (\<open>src/lib/utils/hubspot.ts\<close> lines 1-345). Each HTTP API is a parameter, a
  function from the request (collection and page, or cursor) to a rejection (the client's
  \<open>Webflow API error: ...\<close> or \<open>HubSpot API error: ...\<close>, or a network failure) or the
  decoded response. The environment variables the clients read are a record of options.
  The pagination loops are \<open>partial_function (option)\<close>: a server whose pages never end
  makes them \<open>None\<close>. Dates of the responses are represented by the instants they denote
  (the ISO strings are not modelled as text).\<close>

section \<open>Webflow\<close>

text \<open>A \<open>WebflowItem\<close> with the \<open>fieldData\<close> fields the client reads (other custom fields
  are not modelled); \<open>lastPublished\<close> is \<open>None\<close> for an empty string, \<open>main-image\<close> is its
  URL.\<close>

record webflow_item =
  wi_id :: string
  wi_cmsLocaleId :: "string option"
  wi_lastPublished :: "ms option"
  wi_lastUpdated :: ms
  wi_createdOn :: ms
  wi_isArchived :: bool
  wi_isDraft :: bool
  wi_slug :: "string option"
  wi_name :: "string option"
  wi_postBody :: "string option"
  wi_postSummary :: "string option"
  wi_mainImage :: "string option"
  wi_originalDate :: "ms option"

record webflow_response =
  wr_items :: "webflow_item list"
  wr_total :: nat

record webflow_content =
  wc_id :: string
  wc_slug :: string
  wc_title :: string
  wc_url :: string
  wc_excerpt :: "string option"
  wc_content :: "string option"
  wc_imageUrl :: "string option"
  wc_publishedDate :: "ms option"
  wc_updatedDate :: ms
  wc_contentType :: content_type
  wc_metadata :: cmeta_obj

text \<open>\<open>GET /v2/collections/{collectionId}/items?limit=..&offset=..\<close>.\<close>

type_synonym webflow_api = "string \<Rightarrow> nat \<Rightarrow> nat \<Rightarrow> error + webflow_response"

record webflow_env =
  we_apiKey :: "string option"
  we_siteId :: "string option"
  we_blogCollection :: "string option"
  we_resourcesCollection :: "string option"

text \<open>\<open>!item.isDraft && !item.isArchived && item.lastPublished\<close>.\<close>

definition is_published :: "webflow_item \<Rightarrow> bool" where
  "is_published item = (\<not> wi_isDraft item \<and> \<not> wi_isArchived item \<and> wi_lastPublished item \<noteq> None)"

definition WEBFLOW_PAGE :: nat where
  "WEBFLOW_PAGE = 100"

text \<open>The \<open>while (true)\<close> loop of \<open>fetchAllItems\<close>: fetch a page, keep its published items,
  stop once \<open>offset + limit\<close> reaches the \<open>total\<close> the server reports.\<close>

partial_function (option) webflow_loop ::
  "webflow_api \<Rightarrow> string \<Rightarrow> nat \<Rightarrow> webflow_item list \<Rightarrow> (error + webflow_item list) option"
where
  "webflow_loop api collectionId offset allItems =
     (case api collectionId WEBFLOW_PAGE offset of
        Inl e \<Rightarrow> Some (Inl e)
      | Inr response \<Rightarrow>
          (let allItems' = allItems @ filter is_published (wr_items response)
           in if wr_total response \<le> offset + WEBFLOW_PAGE then Some (Inr allItems')
              else webflow_loop api collectionId (offset + WEBFLOW_PAGE) allItems'))"

declare webflow_loop.simps [code]

definition fetchAllItems :: "webflow_api \<Rightarrow> string \<Rightarrow> (error + webflow_item list) option" where
  "fetchAllItems api collectionId = webflow_loop api collectionId 0 []"

definition WEBFLOW_BASE :: string where
  "WEBFLOW_BASE = ''https://www.centercode.com''"

text \<open>The raw item as JSON, stored under \<open>rawData\<close>.\<close>

definition webflow_item_json :: "webflow_item \<Rightarrow> cmeta" where
  "webflow_item_json item =
     (let opt = (\<lambda>x. case x of None \<Rightarrow> MUndef | Some v \<Rightarrow> MStr v)
      in MObj [(''id'', MStr (wi_id item)),
               (''cmsLocaleId'', case wi_cmsLocaleId item of None \<Rightarrow> MNull | Some l \<Rightarrow> MStr l),
               (''lastPublished'', case wi_lastPublished item of None \<Rightarrow> MStr [] | Some d \<Rightarrow> MDate d),
               (''lastUpdated'', MDate (wi_lastUpdated item)), (''createdOn'', MDate (wi_createdOn item)),
               (''isArchived'', MBool (wi_isArchived item)), (''isDraft'', MBool (wi_isDraft item)),
               (''fieldData'', MObj [(''slug'', opt (wi_slug item)), (''name'', opt (wi_name item)),
                  (''post-body'', opt (wi_postBody item)), (''post-summary'', opt (wi_postSummary item)),
                  (''main-image'', case wi_mainImage item of None \<Rightarrow> MUndef | Some u \<Rightarrow> MObj [(''url'', MStr u)]),
                  (''original-date-published'', case wi_originalDate item of None \<Rightarrow> MUndef | Some d \<Rightarrow> MDate d)])])"

definition transformItem :: "webflow_item \<Rightarrow> content_type \<Rightarrow> webflow_content" where
  "transformItem item contentType =
     (let slug = (case wi_slug item of None \<Rightarrow> [] | Some s \<Rightarrow> s)
      in \<lparr>wc_id = wi_id item, wc_slug = slug,
          wc_title = (case wi_name item of None \<Rightarrow> [] | Some n \<Rightarrow> n),
          wc_url = WEBFLOW_BASE @ ''/blog/'' @ slug,
          wc_excerpt = wi_postSummary item, wc_content = wi_postBody item, wc_imageUrl = wi_mainImage item,
          wc_publishedDate = (case wi_originalDate item of Some d \<Rightarrow> Some d | None \<Rightarrow> wi_lastPublished item),
          wc_updatedDate = wi_lastUpdated item, wc_contentType = contentType,
          wc_metadata = [(''webflowId'', MStr (wi_id item)), (''createdOn'', MDate (wi_createdOn item)),
                         (''lastPublished'', case wi_lastPublished item of None \<Rightarrow> MStr [] | Some d \<Rightarrow> MDate d),
                         (''rawData'', webflow_item_json item)]\<rparr>)"

definition webflow_map_items ::
  "(error + webflow_item list) option \<Rightarrow> content_type \<Rightarrow> (error + webflow_content list) option"
where
  "webflow_map_items r contentType =
     map_option (\<lambda>x. case x of Inl e \<Rightarrow> Inl e | Inr items \<Rightarrow> Inr (map (\<lambda>item. transformItem item contentType) items)) r"

definition fetchBlogPosts :: "webflow_env \<Rightarrow> webflow_api \<Rightarrow> (error + webflow_content list) option" where
  "fetchBlogPosts env api =
     (case we_blogCollection env of
        None \<Rightarrow> Some (Inl (ApiFailed ''WEBFLOW_BLOG_COLLECTION_ID must be set in environment variables''))
      | Some collectionId \<Rightarrow> webflow_map_items (fetchAllItems api collectionId) BlogPost)"

definition fetchResources :: "webflow_env \<Rightarrow> webflow_api \<Rightarrow> (error + webflow_content list) option" where
  "fetchResources env api =
     (case we_resourcesCollection env of
        None \<Rightarrow> Some (Inr [])
      | Some collectionId \<Rightarrow> webflow_map_items (fetchAllItems api collectionId) OtherContent)"

text \<open>\<open>Promise.all([fetchBlogPosts(), fetchResources()])\<close>: the two loops share nothing; when
  both reject, the model reports the blog posts' rejection (the code reports whichever
  settles first). The client is constructed on first use and throws without its keys.\<close>

definition webflow_fetchAllContent :: "webflow_env \<Rightarrow> webflow_api \<Rightarrow> (error + webflow_content list) option" where
  "webflow_fetchAllContent env api =
     (if \<not> js_truthy_str (we_apiKey env) \<or> \<not> js_truthy_str (we_siteId env)
      then Some (Inl (ApiFailed ''WEBFLOW_API_KEY and WEBFLOW_SITE_ID must be set in environment variables''))
      else
        (case fetchBlogPosts env api of
           None \<Rightarrow> None
         | Some (Inl e) \<Rightarrow> (case fetchResources env api of None \<Rightarrow> None | Some _ \<Rightarrow> Some (Inl e))
         | Some (Inr blogPosts) \<Rightarrow>
             (case fetchResources env api of
                None \<Rightarrow> None
              | Some (Inl e) \<Rightarrow> Some (Inl e)
              | Some (Inr resources) \<Rightarrow> Some (Inr (blogPosts @ resources)))))"

text \<open>What \<open>transformToContentItem\<close> reads of a \<open>WebflowContent\<close>.\<close>

definition webflow_fetched :: "webflow_content \<Rightarrow> fetched_item" where
  "webflow_fetched c = \<lparr>fi_url = wc_url c, fi_title = wc_title c, fi_contentType = wc_contentType c,
     fi_excerpt = wc_excerpt c, fi_metadata = wc_metadata c, fi_publishedDate = wc_publishedDate c\<rparr>"

section \<open>HubSpot\<close>

text \<open>A \<open>HubSpotLandingPage\<close> with the fields the client reads (other fields are not
  modelled); \<open>publishDate\<close> is \<open>None\<close> when absent or empty.\<close>

record hubspot_page =
  hp_id :: string
  hp_name :: string
  hp_slug :: string
  hp_url :: string
  hp_created :: ms
  hp_updated :: ms
  hp_publishDate :: "ms option"
  hp_metaDescription :: "string option"
  hp_htmlTitle :: "string option"
  hp_pageExpiryEnabled :: "bool option"
  hp_contentGroupId :: "string option"

text \<open>\<open>HubSpotPagesResponse\<close>: the results and \<open>paging?.next?.after\<close>.\<close>

record hubspot_response =
  hr_results :: "hubspot_page list"
  hr_after :: "string option"

record hubspot_content =
  hc_id :: string
  hc_slug :: string
  hc_title :: string
  hc_url :: string
  hc_excerpt :: "string option"
  hc_publishedDate :: ms
  hc_updatedDate :: ms
  hc_contentType :: content_type
  hc_metadata :: cmeta_obj

text \<open>\<open>GET /cms/v3/pages/landing-pages?limit=100[&after=..]\<close>, and a plain \<open>fetch\<close> of a page
  (a rejection, or the response's \<open>ok\<close> flag and body text).\<close>

type_synonym hubspot_api = "string option \<Rightarrow> error + hubspot_response"

record http_response =
  hres_ok :: bool
  hres_body :: string

type_synonym http_get = "string \<Rightarrow> error + http_response"

text \<open>The \<open>while (true)\<close> loop of \<open>fetchAllLandingPages\<close>: append the page's results, follow
  the cursor while it is truthy.\<close>

partial_function (option) hubspot_loop ::
  "hubspot_api \<Rightarrow> string option \<Rightarrow> hubspot_page list \<Rightarrow> (error + hubspot_page list) option"
where
  "hubspot_loop api after allPages =
     (case api after of
        Inl e \<Rightarrow> Some (Inl e)
      | Inr response \<Rightarrow>
          (let allPages' = allPages @ hr_results response
           in if \<not> js_truthy_str (hr_after response) then Some (Inr allPages')
              else hubspot_loop api (hr_after response) allPages'))"

declare hubspot_loop.simps [code]

definition fetchAllLandingPages :: "hubspot_api \<Rightarrow> (error + hubspot_page list) option" where
  "fetchAllLandingPages api = hubspot_loop api None []"

text \<open>\<open>LandingPageFilterConfig\<close>; \<open>tags\<close> is declared and never read.\<close>

record lp_filter =
  lf_contentGroupIds :: "string list option"
  lf_namePatterns :: "string list option"
  lf_urlPatterns :: "string list option"
  lf_tags :: "string list option"
  lf_excludePatterns :: "string list option"

text \<open>\<open>filter.xs && filter.xs.length > 0\<close>, then \<open>!filter.xs.some(p)\<close>.\<close>

definition pattern_miss :: "string list option \<Rightarrow> (string \<Rightarrow> bool) \<Rightarrow> bool" where
  "pattern_miss ps p = (case ps of None \<Rightarrow> False | Some xs \<Rightarrow> xs \<noteq> [] \<and> \<not> list_ex p xs)"

text \<open>The callback of \<open>pages.filter\<close> in \<open>filterLandingPages\<close>, one early return per branch.\<close>

definition lp_keep :: "lp_filter \<Rightarrow> hubspot_page \<Rightarrow> bool" where
  "lp_keep f page =
     (let nameLower = to_lower (hp_name page); urlLower = to_lower (hp_url page)
      in if (case lf_contentGroupIds f of None \<Rightarrow> False
             | Some ids \<Rightarrow> ids \<noteq> [] \<and> (case hp_contentGroupId page of None \<Rightarrow> True
                                         | Some g \<Rightarrow> g = [] \<or> g \<notin> set ids)) then False
         else if str_includes nameLower ''embed -'' then ends_with nameLower ''case study''
         else if pattern_miss (lf_namePatterns f) (\<lambda>p. str_includes nameLower (to_lower p)) then False
         else if pattern_miss (lf_urlPatterns f) (\<lambda>p. str_includes urlLower (to_lower p)) then False
         else if (case lf_excludePatterns f of None \<Rightarrow> False
                  | Some xs \<Rightarrow> xs \<noteq> [] \<and> list_ex (\<lambda>p. str_includes nameLower (to_lower p) \<or>
                                                      str_includes urlLower (to_lower p)) xs) then False
         else True)"

definition filterLandingPages :: "hubspot_page list \<Rightarrow> lp_filter option \<Rightarrow> hubspot_page list" where
  "filterLandingPages pages f = (case f of None \<Rightarrow> pages | Some flt \<Rightarrow> filter (lp_keep flt) pages)"

definition determineContentType :: "hubspot_page \<Rightarrow> content_type" where
  "determineContentType page =
     (let name = to_lower (hp_name page); url = to_lower (hp_url page)
      in if str_includes name ''case study'' \<or> str_includes name ''case-study'' \<or>
            str_includes url ''case-study'' \<or> str_includes url ''case_study'' then CaseStudy
         else if str_includes name ''webinar'' \<or> str_includes url ''webinar'' then Webinar
         else if str_includes name ''whitepaper'' \<or> str_includes name ''white paper'' \<or>
                 str_includes url ''whitepaper'' \<or> str_includes url ''white-paper'' then Whitepaper
         else LandingPage)"

text \<open>The regular expression \<open>/PDFViewerApplication\.open\(["']([^"']+)["']\)/\<close>. At a
  given position the greedy class \<open>[^"']+\<close> takes the whole run of non-quotes (a shorter
  run would be followed by a non-quote), so a match there is: the prefix, a quote, a
  non-empty run of non-quotes, a quote, \<open>)\<close>. \<open>String.prototype.match\<close> reports the leftmost
  match.\<close>

definition is_quote :: "char \<Rightarrow> bool" where
  "is_quote c = (c = CHR 0x22 \<or> c = CHR 0x27)"

definition PDF_OPEN :: string where
  "PDF_OPEN = ''PDFViewerApplication.open(''"

definition pdf_match_at :: "string \<Rightarrow> string option" where
  "pdf_match_at s =
     (if take (length PDF_OPEN) s \<noteq> PDF_OPEN then None
      else case drop (length PDF_OPEN) s of
             [] \<Rightarrow> None
           | q # rest \<Rightarrow>
               (let run = takeWhile (\<lambda>c. \<not> is_quote c) rest; after = dropWhile (\<lambda>c. \<not> is_quote c) rest
                in if is_quote q \<and> run \<noteq> [] \<and>
                      (case after of q' # c # _ \<Rightarrow> is_quote q' \<and> c = CHR '')'' | _ \<Rightarrow> False)
                   then Some run else None))"

fun pdf_search :: "string \<Rightarrow> string option" where
  "pdf_search [] = None"
| "pdf_search (c # cs) = (case pdf_match_at (c # cs) of Some u \<Rightarrow> Some u | None \<Rightarrow> pdf_search cs)"

text \<open>\<open>extractPdfUrl\<close>: every failure, thrown or not, is \<open>null\<close>.\<close>

definition extractPdfUrl :: "http_get \<Rightarrow> string \<Rightarrow> string option" where
  "extractPdfUrl get pageUrl =
     (case get pageUrl of
        Inl _ \<Rightarrow> None
      | Inr response \<Rightarrow> if \<not> hres_ok response then None else pdf_search (hres_body response))"

text \<open>The raw page as JSON, stored under \<open>rawData\<close>.\<close>

definition hubspot_page_json :: "hubspot_page \<Rightarrow> cmeta" where
  "hubspot_page_json page =
     (let opt = (\<lambda>x. case x of None \<Rightarrow> MUndef | Some v \<Rightarrow> MStr v)
      in MObj [(''id'', MStr (hp_id page)), (''name'', MStr (hp_name page)), (''slug'', MStr (hp_slug page)),
               (''url'', MStr (hp_url page)), (''created'', MDate (hp_created page)),
               (''updated'', MDate (hp_updated page)),
               (''publishDate'', case hp_publishDate page of None \<Rightarrow> MUndef | Some d \<Rightarrow> MDate d),
               (''metaDescription'', opt (hp_metaDescription page)), (''htmlTitle'', opt (hp_htmlTitle page)),
               (''pageExpiryEnabled'', case hp_pageExpiryEnabled page of None \<Rightarrow> MUndef | Some b \<Rightarrow> MBool b),
               (''contentGroupId'', opt (hp_contentGroupId page))])"

definition transformLandingPage :: "http_get \<Rightarrow> hubspot_page \<Rightarrow> hubspot_content" where
  "transformLandingPage get page =
     (let contentType = determineContentType page;
          opt = (\<lambda>x. case x of None \<Rightarrow> MUndef | Some v \<Rightarrow> MStr v);
          metadata = [(''hubspotId'', MStr (hp_id page)), (''htmlTitle'', opt (hp_htmlTitle page)),
                      (''contentGroupId'', opt (hp_contentGroupId page)),
                      (''pageExpiryEnabled'', case hp_pageExpiryEnabled page of None \<Rightarrow> MUndef | Some b \<Rightarrow> MBool b),
                      (''rawData'', hubspot_page_json page)];
          metadata' = (if contentType = CaseStudy \<and> hp_url page \<noteq> [] then
                         (case extractPdfUrl get (hp_url page) of None \<Rightarrow> metadata
                          | Some pdfUrl \<Rightarrow> metadata @ [(''pdfUrl'', MStr pdfUrl)])
                       else metadata)
      in \<lparr>hc_id = hp_id page, hc_slug = hp_slug page, hc_title = hp_name page, hc_url = hp_url page,
          hc_excerpt = hp_metaDescription page,
          hc_publishedDate = (case hp_publishDate page of Some d \<Rightarrow> d | None \<Rightarrow> hp_created page),
          hc_updatedDate = hp_updated page, hc_contentType = contentType, hc_metadata = metadata'\<rparr>)"

text \<open>\<open>fetchPremiumContent\<close>: the \<open>Promise.all\<close> of the transformations cannot reject (each
  transformation catches its own failures) and keeps the order of the pages.\<close>

definition fetchPremiumContent ::
  "hubspot_api \<Rightarrow> http_get \<Rightarrow> lp_filter option \<Rightarrow> (error + hubspot_content list) option"
where
  "fetchPremiumContent api get f =
     map_option (\<lambda>x. case x of Inl e \<Rightarrow> Inl e
                  | Inr allPages \<Rightarrow> Inr (map (transformLandingPage get) (filterLandingPages allPages f)))
       (fetchAllLandingPages api)"

definition HUBSPOT_FILTER :: lp_filter where
  "HUBSPOT_FILTER = \<lparr>lf_contentGroupIds = None, lf_namePatterns = Some [''PC/LP'', ''TM/LP'', ''WBR/LP''],
     lf_urlPatterns = None, lf_tags = None, lf_excludePatterns = None\<rparr>"

text \<open>\<open>hubspotClient.fetchAllContent()\<close>: the client is constructed on first use and throws
  without its key.\<close>

definition hubspot_fetchAllContent ::
  "string option \<Rightarrow> hubspot_api \<Rightarrow> http_get \<Rightarrow> (error + hubspot_content list) option"
where
  "hubspot_fetchAllContent apiKey api get =
     (if \<not> js_truthy_str apiKey
      then Some (Inl (ApiFailed ''HUBSPOT_API_KEY must be set in environment variables''))
      else fetchPremiumContent api get (Some HUBSPOT_FILTER))"

definition hubspot_fetched :: "hubspot_content \<Rightarrow> fetched_item" where
  "hubspot_fetched c = \<lparr>fi_url = hc_url c, fi_title = hc_title c, fi_contentType = hc_contentType c,
     fi_excerpt = hc_excerpt c, fi_metadata = hc_metadata c, fi_publishedDate = Some (hc_publishedDate c)\<rparr>"

section \<open>The clients feeding content ingestion\<close>

text \<open>The two \<open>fetchAllContent\<close> calls of \<open>ingestAllContent\<close>, made with the clients above;
  the fetches do not touch the table, so they can be made before the first statistics read.
  A client that never returns makes the ingestion never return.\<close>

definition ingest_from_clients ::
  "ms \<Rightarrow> content_db \<Rightarrow> webflow_env \<Rightarrow> webflow_api \<Rightarrow> string option \<Rightarrow> hubspot_api \<Rightarrow> http_get \<Rightarrow>
     (content_ingestion_result \<times> content_db) option"
where
  "ingest_from_clients now db wenv wapi hkey hapi get =
     (case webflow_fetchAllContent wenv wapi of
        None \<Rightarrow> None
      | Some w \<Rightarrow>
         (case hubspot_fetchAllContent hkey hapi get of
            None \<Rightarrow> None
          | Some h \<Rightarrow> Some (ingestAllContent now db (map_sum id (map webflow_fetched) w)
                                                     (map_sum id (map hubspot_fetched) h))))"

section \<open>Sample responses\<close>

definition demo_wf_item :: "string \<Rightarrow> bool \<Rightarrow> webflow_item" where
  "demo_wf_item slug draft =
     \<lparr>wi_id = ''wf-'' @ slug, wi_cmsLocaleId = None, wi_lastPublished = Some 1000, wi_lastUpdated = 2000,
      wi_createdOn = 500, wi_isArchived = False, wi_isDraft = draft, wi_slug = Some slug, wi_name = Some ''Post'',
      wi_postBody = None, wi_postSummary = Some ''Summary'', wi_mainImage = None, wi_originalDate = None\<rparr>"

definition demo_coll :: "webflow_item list" where
  "demo_coll = [demo_wf_item ''launch'' False, demo_wf_item ''draft'' True]"

text \<open>A server that pages a fixed collection the way the Webflow API does.\<close>

definition paged_server :: "webflow_item list \<Rightarrow> webflow_api" where
  "paged_server coll = (\<lambda>collectionId limit offset.
     Inr \<lparr>wr_items = take limit (drop offset coll), wr_total = length coll\<rparr>)"

definition demo_wenv :: webflow_env where
  "demo_wenv = \<lparr>we_apiKey = Some ''key'', we_siteId = Some ''site'', we_blogCollection = Some ''blog'',
                we_resourcesCollection = None\<rparr>"

text \<open>A HubSpot server whose cursor always points back to the same page.\<close>

definition cycling_api :: hubspot_api where
  "cycling_api = (\<lambda>after. Inr \<lparr>hr_results = [], hr_after = Some ''next''\<rparr>)"

definition demo_lp :: "string \<Rightarrow> string \<Rightarrow> hubspot_page" where
  "demo_lp name url =
     \<lparr>hp_id = ''lp'', hp_name = name, hp_slug = ''s'', hp_url = url, hp_created = 100, hp_updated = 200,
      hp_publishDate = None, hp_metaDescription = None, hp_htmlTitle = None, hp_pageExpiryEnabled = None,
      hp_contentGroupId = None\<rparr>"

definition demo_pages :: "hubspot_page list" where
  "demo_pages = [demo_lp ''PC/LP Guide'' ''https://x.io/g'', demo_lp ''Careers'' ''https://x.io/c'',
                 demo_lp ''EMBED - Acme Case Study'' ''https://x.io/a'', demo_lp ''EMBED - Transcript'' ''https://x.io/t'']"

definition demo_hapi :: hubspot_api where
  "demo_hapi = (\<lambda>after. Inr \<lparr>hr_results = demo_pages, hr_after = None\<rparr>)"

definition demo_html :: "string \<Rightarrow> string" where
  "demo_html u = ''<script>'' @ PDF_OPEN @ CHR 0x22 # u @ CHR 0x22 # '');</script>''"

definition demo_get :: http_get where
  "demo_get = (\<lambda>url. Inr \<lparr>hres_ok = True, hres_body = demo_html ''https://x.io/a.pdf''\<rparr>)"


section \<open>Lemmas: pagination, filters and extraction\<close>

lemma webflow_loop_paged:
  assumes srv: "\<And>off. api cid WEBFLOW_PAGE off = Inr \<lparr>wr_items = take WEBFLOW_PAGE (drop off coll), wr_total = length coll\<rparr>"
  shows "webflow_loop api cid off acc = Some (Inr (acc @ filter is_published (drop off coll)))"
proof (induction "length coll - off" arbitrary: off acc rule: less_induct)
  case less
  show ?case
  proof (cases "length coll \<le> off + WEBFLOW_PAGE")
    case True
    then show ?thesis by (subst webflow_loop.simps) (simp add: srv)
  next
    case False
    let ?acc = "acc @ filter is_published (take WEBFLOW_PAGE (drop off coll))"
    have "webflow_loop api cid (off + WEBFLOW_PAGE) ?acc =
            Some (Inr (?acc @ filter is_published (drop (off + WEBFLOW_PAGE) coll)))"
      by (rule less) (use False in \<open>simp add: WEBFLOW_PAGE_def\<close>)
    moreover have "take WEBFLOW_PAGE (drop off coll) @ drop (off + WEBFLOW_PAGE) coll = drop off coll"
      by (metis add.commute append_take_drop_id drop_drop)
    ultimately show ?thesis using False
      by (subst webflow_loop.simps) (simp add: srv flip: filter_append)
  qed
qed

lemma hubspot_loop_cycle:
  assumes r: "api (Some c) = Inr r1" and a: "hr_after r1 = Some c" and c: "c \<noteq> []"
  shows "hubspot_loop api (Some c) acc = None"
proof (rule ccontr)
  assume "hubspot_loop api (Some c) acc \<noteq> None"
  then obtain res where res: "hubspot_loop api (Some c) acc = Some res" by blast
  have "\<not> (api = api \<and> Some c = Some c)"
  proof (rule hubspot_loop.raw_induct [where P = "\<lambda>api' after' acc' r. \<not> (api' = api \<and> after' = Some c)", OF _ res])
    fix f :: "hubspot_api \<Rightarrow> string option \<Rightarrow> hubspot_page list \<Rightarrow> (error + hubspot_page list) option"
    fix api' after' acc' r'
    assume IH: "\<And>api' after' acc' r'. f api' after' acc' = Some r' \<Longrightarrow> \<not> (api' = api \<and> after' = Some c)"
      and eq: "(case api' after' of Inl e \<Rightarrow> Some (Inl e)
          | Inr response \<Rightarrow> (let allPages' = acc' @ hr_results response
               in if \<not> js_truthy_str (hr_after response) then Some (Inr allPages')
                  else f api' (hr_after response) allPages')) = Some r'"
    show "\<not> (api' = api \<and> after' = Some c)"
    proof
      assume same: "api' = api \<and> after' = Some c"
      then have "f api (Some c) (acc' @ hr_results r1) = Some r'" using eq r a c by (simp add: js_truthy_str_def)
      then show False using IH by blast
    qed
  qed
  then show False by simp
qed

lemma pdf_match_at_other: "s \<noteq> [] \<Longrightarrow> hd s \<noteq> CHR ''P'' \<Longrightarrow> pdf_match_at s = None"
  by (cases s) (simp_all add: pdf_match_at_def PDF_OPEN_def)

lemma pdf_match_at_call:
  assumes "is_quote q" "is_quote q'" "u \<noteq> []" "\<not> list_ex is_quote u"
  shows "pdf_match_at (PDF_OPEN @ q # u @ q' # CHR '')'' # post) = Some u"
proof -
  have "\<forall>x\<in>set u. \<not> is_quote x" using assms(4) by (simp add: list_ex_iff)
  then show ?thesis using assms(1-3)
    by (simp add: pdf_match_at_def takeWhile_append2 dropWhile_append2)
qed

lemma pdf_search_call:
  "CHR ''P'' \<notin> set pre \<Longrightarrow> is_quote q \<Longrightarrow> is_quote q' \<Longrightarrow> u \<noteq> [] \<Longrightarrow> \<not> list_ex is_quote u \<Longrightarrow>
   pdf_search (pre @ PDF_OPEN @ q # u @ q' # CHR '')'' # post) = Some u"
proof (induction pre)
  case Nil
  then show ?case using pdf_match_at_call[OF Nil(2-5), of post]
    by (simp add: PDF_OPEN_def)
next
  case (Cons c pre)
  have "pdf_match_at (c # pre @ PDF_OPEN @ q # u @ q' # CHR '')'' # post) = None"
    by (rule pdf_match_at_other) (use Cons.prems in auto)
  then show ?case using Cons by simp
qed

lemma to_lower_patterns: "to_lower ''PC/LP'' = ''pc/lp''" "to_lower ''TM/LP'' = ''tm/lp''"
  "to_lower ''WBR/LP'' = ''wbr/lp''"
  by code_simp+

lemma hubspot_filter_keep:
  "lp_keep HUBSPOT_FILTER page =
     (if str_includes (to_lower (hp_name page)) ''embed -'' then ends_with (to_lower (hp_name page)) ''case study''
      else str_includes (to_lower (hp_name page)) ''pc/lp'' \<or> str_includes (to_lower (hp_name page)) ''tm/lp'' \<or>
           str_includes (to_lower (hp_name page)) ''wbr/lp'')"
  by (simp add: lp_keep_def HUBSPOT_FILTER_def pattern_miss_def Let_def to_lower_patterns)

lemma webflow_fetchAllContent_blog:
  assumes "js_truthy_str (we_apiKey wenv)" "js_truthy_str (we_siteId wenv)"
    "we_blogCollection wenv = Some cid" "we_resourcesCollection wenv = None"
    "\<And>off. wapi cid WEBFLOW_PAGE off = Inr \<lparr>wr_items = take WEBFLOW_PAGE (drop off coll), wr_total = length coll\<rparr>"
  shows "webflow_fetchAllContent wenv wapi = Some (Inr (map (\<lambda>i. transformItem i BlogPost) (filter is_published coll)))"
  using assms webflow_loop_paged [of wapi cid coll 0 "[]", OF assms(5)]
  by (simp add: webflow_fetchAllContent_def fetchBlogPosts_def fetchResources_def fetchAllItems_def webflow_map_items_def)

lemma ingestAllContent_abs:
  assumes up: "cdb_up db" and ne: "all_content (fetched_list w) (fetched_list h) \<noteq> []"
  shows "\<exists>r db'. ingestAllContent now db w h = (r, db') \<and>
     content_abs db' = fold content_put (all_content (fetched_list w) (fetched_list h)) (content_abs db) \<and>
     cr_webflowCount r = length (fetched_list w) \<and> cr_hubspotCount r = length (fetched_list h) \<and>
     cr_errors r = snd (guarded_fetch ''HubSpot'' h (snd (guarded_fetch ''Webflow'' w []))) \<and>
     cr_success r = (snd (guarded_fetch ''HubSpot'' h (snd (guarded_fetch ''Webflow'' w []))) = [])"
proof -
  obtain s0 where s0: "getContentStats now db = Inr s0" using stats_total [OF up] by blast
  obtain rs db' where b: "bulkUpsertContentItems now db (all_content (fetched_list w) (fetched_list h)) = Inr (rs, db')"
    "cdb_up db'" using bulk_up [OF up] by blast
  obtain s1 where s1: "getContentStats now db' = Inr s1" using stats_total [OF b(2)] by blast
  show ?thesis using ingestAllContent_upserted [OF s0 ne b(1) s1] bulk_upsert_abs [OF b(1)] by simp
qed

lemma hubspot_filter_eq:
  "lp_keep HUBSPOT_FILTER = (\<lambda>p. if str_includes (to_lower (hp_name p)) ''embed -'' then ends_with (to_lower (hp_name p)) ''case study''
       else str_includes (to_lower (hp_name p)) ''pc/lp'' \<or> str_includes (to_lower (hp_name p)) ''tm/lp'' \<or>
            str_includes (to_lower (hp_name p)) ''wbr/lp'')"
  by (rule ext) (rule hubspot_filter_keep)



lemma demo_pages_filter:
  "filter (\<lambda>p. if str_includes (to_lower (hp_name p)) ''embed -'' then ends_with (to_lower (hp_name p)) ''case study''
               else str_includes (to_lower (hp_name p)) ''pc/lp'' \<or> str_includes (to_lower (hp_name p)) ''tm/lp'' \<or>
                    str_includes (to_lower (hp_name p)) ''wbr/lp'') demo_pages =
   [demo_lp ''PC/LP Guide'' ''https://x.io/g'', demo_lp ''EMBED - Acme Case Study'' ''https://x.io/a'']"
  by code_simp

lemma demo_embed_name:
  "str_includes (to_lower ''EMBED - Acme Case Study'') ''embed -'' \<and> ends_with (to_lower ''EMBED - Acme Case Study'') ''case study''"
  by code_simp

lemma demo_published: "filter is_published demo_coll = [demo_wf_item ''launch'' False]"
  by (simp add: demo_coll_def demo_wf_item_def is_published_def)

section \<open>Properties of the CMS clients\<close>

text \<open>C19: Against a server that pages a fixed collection consistently (each request returns
  the slice at its offset and the collection's size as the total), \<open>fetchAllItems\<close> returns,
  having made finitely many requests, exactly the published items (not draft, not archived,
  with a publication date) of the collection, in order.\<close>

theorem fetchAllItems_paged:
  assumes "\<And>off. api cid WEBFLOW_PAGE off = Inr \<lparr>wr_items = take WEBFLOW_PAGE (drop off coll), wr_total = length coll\<rparr>"
  shows "fetchAllItems api cid = Some (Inr (filter is_published coll))"
  using webflow_loop_paged [of api cid coll 0 "[]", OF assms] by (simp add: fetchAllItems_def)

theorem fetchAllItems_paged_witness:
  "fetchAllItems (paged_server demo_coll) ''blog'' = Some (Inr [demo_wf_item ''launch'' False])"
  using fetchAllItems_paged [of "paged_server demo_coll" "''blog''" demo_coll]
  by (simp add: paged_server_def demo_coll_def demo_wf_item_def is_published_def)


text \<open>C21: \<open>fetchAllLandingPages\<close> follows \<open>paging.next.after\<close> without remembering the
  cursors it has seen: a server whose cursor leads back to the same page makes it request that
  page forever, and the HubSpot fetch never returns.\<close>

theorem fetchAllLandingPages_cursor_cycle:
  assumes "api None = Inr r0" "hr_after r0 = Some c" "c \<noteq> []" "api (Some c) = Inr r1" "hr_after r1 = Some c"
  shows "fetchAllLandingPages api = None"
proof -
  have "hubspot_loop api (Some c) (hr_results r0) = None" using hubspot_loop_cycle assms(3-5) by blast
  then show ?thesis using assms(1-3)
    by (simp add: fetchAllLandingPages_def hubspot_loop.simps [of api None] js_truthy_str_def)
qed

theorem fetchAllLandingPages_cursor_cycle_witness:
  "fetchAllLandingPages cycling_api = None"
  using fetchAllLandingPages_cursor_cycle [of cycling_api "\<lparr>hr_results = [], hr_after = Some ''next''\<rparr>" "''next''"
                                              "\<lparr>hr_results = [], hr_after = Some ''next''\<rparr>"]
  by (simp add: cycling_api_def)


text \<open>\<open>extractPdfUrl\<close> recovers the URL a case-study page passes to
  \<open>PDFViewerApplication.open\<close>: when the page loads, its body holds the call with a quoted
  non-empty URL without quotes, and no earlier text could start a match (no \<open>P\<close> before it),
  the result is that URL.\<close>

theorem extractPdfUrl_roundtrip:
  assumes "get pageUrl = Inr \<lparr>hres_ok = True, hres_body = pre @ PDF_OPEN @ q # u @ q' # CHR '')'' # post\<rparr>"
    and "CHR ''P'' \<notin> set pre" "is_quote q" "is_quote q'" "u \<noteq> []" "\<not> list_ex is_quote u"
  shows "extractPdfUrl get pageUrl = Some u"
  using assms by (simp add: extractPdfUrl_def pdf_search_call)

theorem extractPdfUrl_roundtrip_witness:
  "extractPdfUrl demo_get ''https://x.io/a'' = Some ''https://x.io/a.pdf''"
  using extractPdfUrl_roundtrip [of demo_get "''https://x.io/a''" "''<script>''" "CHR 0x22" "''https://x.io/a.pdf''"
                                    "CHR 0x22" "'';</script>''"]
  by (simp add: demo_get_def demo_html_def is_quote_def)


text \<open>With its key set, \<open>hubspotClient.fetchAllContent\<close> transforms, in order, exactly the
  landing pages whose lower-cased name contains \<open>pc/lp\<close>, \<open>tm/lp\<close> or \<open>wbr/lp\<close>, or, for
  names containing \<open>embed -\<close>, exactly those ending in \<open>case study\<close>.\<close>

theorem hubspot_fetchAllContent_selects:
  assumes "js_truthy_str apiKey" "fetchAllLandingPages api = Some (Inr pages)"
  shows "hubspot_fetchAllContent apiKey api get =
    Some (Inr (map (transformLandingPage get)
      (filter (\<lambda>p. if str_includes (to_lower (hp_name p)) ''embed -'' then ends_with (to_lower (hp_name p)) ''case study''
                   else str_includes (to_lower (hp_name p)) ''pc/lp'' \<or> str_includes (to_lower (hp_name p)) ''tm/lp'' \<or>
                        str_includes (to_lower (hp_name p)) ''wbr/lp'') pages)))"
  using assms by (simp add: hubspot_fetchAllContent_def fetchPremiumContent_def filterLandingPages_def hubspot_filter_eq)

theorem hubspot_fetchAllContent_selects_witness:
  "hubspot_fetchAllContent (Some ''k'') demo_hapi demo_get =
     Some (Inr (map (transformLandingPage demo_get)
       [demo_lp ''PC/LP Guide'' ''https://x.io/g'', demo_lp ''EMBED - Acme Case Study'' ''https://x.io/a'']))"
  using hubspot_fetchAllContent_selects [of "Some ''k''" demo_hapi demo_pages demo_get] demo_pages_filter
  by (simp add: js_truthy_str_def demo_hapi_def fetchAllLandingPages_def hubspot_loop.simps)


text \<open>The special case for EMBED pages returns before the name, URL and exclude patterns
  are read: with no content-group filter, a page whose name contains \<open>embed -\<close> is kept exactly
  when its name ends in \<open>case study\<close>, whatever the filter excludes.\<close>

theorem filterLandingPages_embed_bypass:
  assumes "lf_contentGroupIds f = None" "str_includes (to_lower (hp_name page)) ''embed -''"
  shows "lp_keep f page = ends_with (to_lower (hp_name page)) ''case study''"
  using assms by (simp add: lp_keep_def Let_def)

theorem filterLandingPages_embed_bypass_witness:
  "filterLandingPages [demo_lp ''EMBED - Acme Case Study'' ''https://x.io/a'']
     (Some \<lparr>lf_contentGroupIds = None, lf_namePatterns = Some [''PC/LP''], lf_urlPatterns = None, lf_tags = None,
            lf_excludePatterns = Some [''Acme'']\<rparr>) = [demo_lp ''EMBED - Acme Case Study'' ''https://x.io/a'']"
  using filterLandingPages_embed_bypass [of "\<lparr>lf_contentGroupIds = None, lf_namePatterns = Some [''PC/LP''],
          lf_urlPatterns = None, lf_tags = None, lf_excludePatterns = Some [''Acme'']\<rparr>"
          "demo_lp ''EMBED - Acme Case Study'' ''https://x.io/a''"] demo_embed_name
  by (simp add: filterLandingPages_def demo_lp_def)


text \<open>C20: The clients feeding \<open>ingestAllContent\<close>: when the HubSpot key is missing, the
  Webflow blog posts of a consistently paged collection are still stored (the catalogue is
  the old one updated by each published post, as a \<open>blog_post\<close> of source \<open>webflow\<close> under
  \<open>/blog/slug\<close>), and the result reports the HubSpot failure and no success.\<close>

theorem ingest_from_clients_hubspot_down:
  assumes up: "cdb_up db"
    and keys: "js_truthy_str (we_apiKey wenv)" "js_truthy_str (we_siteId wenv)"
    and blog: "we_blogCollection wenv = Some cid" and res: "we_resourcesCollection wenv = None"
    and srv: "\<And>off. wapi cid WEBFLOW_PAGE off = Inr \<lparr>wr_items = take WEBFLOW_PAGE (drop off coll), wr_total = length coll\<rparr>"
    and hk: "\<not> js_truthy_str hkey" and ne: "filter is_published coll \<noteq> []"
  shows "\<exists>r db'. ingest_from_clients now db wenv wapi hkey hapi get = Some (r, db') \<and>
     content_abs db' = fold content_put (map (\<lambda>i. transformToContentItem (webflow_fetched (transformItem i BlogPost)) Webflow)
                                            (filter is_published coll)) (content_abs db) \<and>
     cr_webflowCount r = length (filter is_published coll) \<and>
     cr_errors r = [''HubSpot fetch failed: HUBSPOT_API_KEY must be set in environment variables''] \<and> \<not> cr_success r"
proof -
  let ?w = "Inr (map webflow_fetched (map (\<lambda>i. transformItem i BlogPost) (filter is_published coll))) :: error + fetched_item list"
  let ?h = "Inl (ApiFailed ''HUBSPOT_API_KEY must be set in environment variables'') :: error + fetched_item list"
  have "ingest_from_clients now db wenv wapi hkey hapi get = Some (ingestAllContent now db ?w ?h)"
    using webflow_fetchAllContent_blog [of wenv cid wapi coll, OF keys blog res srv] hk
    by (simp add: ingest_from_clients_def hubspot_fetchAllContent_def)
  moreover have "all_content (fetched_list ?w) (fetched_list ?h) \<noteq> []"
    using ne by (simp add: all_content_def fetched_list_def)
  ultimately show ?thesis using ingestAllContent_abs [OF up, of ?w ?h now]
    by (auto simp: all_content_def fetched_list_def guarded_fetch_def comp_def)
qed

theorem ingest_from_clients_hubspot_down_witness:
  "\<exists>r db'. ingest_from_clients 0 empty_content demo_wenv (paged_server demo_coll) None cycling_api demo_get = Some (r, db') \<and>
     cr_webflowCount r = 1 \<and> \<not> cr_success r \<and>
     content_abs db' ''https://www.centercode.com/blog/launch'' \<noteq> None"
proof -
  have "\<exists>r db'. ingest_from_clients 0 empty_content demo_wenv (paged_server demo_coll) None cycling_api demo_get = Some (r, db') \<and>
     content_abs db' = fold content_put (map (\<lambda>i. transformToContentItem (webflow_fetched (transformItem i BlogPost)) Webflow)
                                            (filter is_published demo_coll)) (content_abs empty_content) \<and>
     cr_webflowCount r = length (filter is_published demo_coll) \<and>
     cr_errors r = [''HubSpot fetch failed: HUBSPOT_API_KEY must be set in environment variables''] \<and> \<not> cr_success r"
    by (rule ingest_from_clients_hubspot_down [of empty_content demo_wenv "''blog''" "paged_server demo_coll" demo_coll])
       (simp_all add: empty_content_def demo_wenv_def js_truthy_str_def paged_server_def demo_published)
  then obtain r db' where r: "ingest_from_clients 0 empty_content demo_wenv (paged_server demo_coll) None cycling_api demo_get = Some (r, db')"
    "content_abs db' = fold content_put [transformToContentItem (webflow_fetched (transformItem (demo_wf_item ''launch'' False) BlogPost)) Webflow] Map.empty"
    "cr_webflowCount r = 1" "\<not> cr_success r"
    by (auto simp: demo_published)
  have "''https://www.centercode.com/blog/launch'' \<in> dom (content_abs db')"
    unfolding r(2) dom_fold_put
    by (simp add: transformToContentItem_def webflow_fetched_def transformItem_def WEBFLOW_BASE_def demo_wf_item_def Let_def)
  then show ?thesis using r by blast
qed

end
