(* ===== verification/Diagnostics.thy ===== *)
theory Diagnostics
  imports CMS_Clients
begin

text \<open>The two scripts that exercise the content side against the live services: the
  content-ingestion test (first module of \<open>src/unnamed/part_002\<close>), which reads the
  statistics, runs \<open>ingestAllContent\<close>, reads them again and samples five items; and the Webflow
  API diagnostic \<open>src/unnamed/part_008\<close>, which sends six independent requests. To compare the
  diagnostic with the client it is meant to check, the request that \<open>fetchCollection\<close>
  (\<open>src/lib/utils/webflow.ts\<close>) sends is modelled with its URL and headers; the
  \<open>webflow_api\<close> parameter of \<open>CMS_Clients\<close> is that function followed by the decoding of
  the JSON body.\<close>

section \<open>HTTP requests with their headers\<close>

record http_request =
  rq_url :: string
  rq_headers :: "(string \<times> string) list"

record http_reply =
  hr_status :: nat
  hr_statusText :: string
  hr_body :: string

text \<open>\<open>response.ok\<close>: a status in the range 200-299.\<close>

definition http_ok :: "http_reply \<Rightarrow> bool" where
  "http_ok r = (200 \<le> hr_status r \<and> hr_status r < 300)"

text \<open>\<open>fetch(url, { headers })\<close>: a rejection (network failure) or the reply.\<close>

type_synonym http_fetch = "http_request \<Rightarrow> error + http_reply"

section \<open>fetchCollection of the Webflow client\<close>

definition WEBFLOW_API :: string where
  "WEBFLOW_API = ''https://api.webflow.com''"

definition bearer :: "string \<Rightarrow> string \<times> string" where
  "bearer apiKey = (''Authorization'', ''Bearer '' @ apiKey)"

definition fetchCollection_request :: "string \<Rightarrow> string \<Rightarrow> nat \<Rightarrow> nat \<Rightarrow> http_request" where
  "fetchCollection_request apiKey collectionId limit offset =
     \<lparr>rq_url = WEBFLOW_API @ ''/v2/collections/'' @ collectionId @ ''/items?limit='' @ nat_str limit @
               ''&offset='' @ nat_str offset,
      rq_headers = [bearer apiKey]\<rparr>"

text \<open>\<open>fetchCollection\<close>: a reply that is not ok throws \<open>Webflow API error: status - text\<close>;
  an ok reply is decoded by \<open>response.json()\<close>, the parameter \<open>decode\<close>.\<close>

definition fetchCollection ::
  "http_fetch \<Rightarrow> (string \<Rightarrow> error + webflow_response) \<Rightarrow> string \<Rightarrow> webflow_api"
where
  "fetchCollection fetch decode apiKey collectionId limit offset =
     (case fetch (fetchCollection_request apiKey collectionId limit offset) of
        Inl e \<Rightarrow> Inl e
      | Inr r \<Rightarrow> if \<not> http_ok r then Inl (ApiFailed (''Webflow API error: '' @ nat_str (hr_status r) @ '' - '' @ hr_body r))
                 else decode (hr_body r))"

section \<open>The Webflow API diagnostic\<close>

text \<open>The six requests, with the label each test prints: three with the V1 paths and the
  \<open>accept-version: 1.0.0\<close> header, three with the V2 paths.\<close>

definition v1_headers :: "string \<Rightarrow> (string \<times> string) list" where
  "v1_headers apiKey = [bearer apiKey, (''accept-version'', ''1.0.0'')]"

definition diag_requests :: "string \<Rightarrow> string \<Rightarrow> string \<Rightarrow> (string \<times> http_request) list" where
  "diag_requests apiKey siteId collectionId =
     [(''Test 1: V1 API - Get Site Info'',
       \<lparr>rq_url = WEBFLOW_API @ ''/sites/'' @ siteId, rq_headers = v1_headers apiKey\<rparr>),
      (''Test 2: V1 API - List Collections'',
       \<lparr>rq_url = WEBFLOW_API @ ''/sites/'' @ siteId @ ''/collections'', rq_headers = v1_headers apiKey\<rparr>),
      (''Test 3: V1 API - Get Collection Items'',
       \<lparr>rq_url = WEBFLOW_API @ ''/collections/'' @ collectionId @ ''/items?limit=5'', rq_headers = v1_headers apiKey\<rparr>),
      (''Test 4: V2 API - Get Site Info'',
       \<lparr>rq_url = WEBFLOW_API @ ''/v2/sites/'' @ siteId, rq_headers = [bearer apiKey]\<rparr>),
      (''Test 5: V2 API - List Collections'',
       \<lparr>rq_url = WEBFLOW_API @ ''/v2/sites/'' @ siteId @ ''/collections'', rq_headers = [bearer apiKey]\<rparr>),
      (''Test 6: V2 API - Get Collection Items'',
       \<lparr>rq_url = WEBFLOW_API @ ''/v2/collections/'' @ collectionId @ ''/items'', rq_headers = [bearer apiKey]\<rparr>)]"

text \<open>What one test reports: the exception of its \<open>catch\<close>, or the status with the body,
  shown as data when the reply is ok and as the error text otherwise. (Decoding the body of
  an ok reply, and its failure, is not modelled.)\<close>

datatype diag_result = DiagSuccess nat string | DiagHttpError nat string | DiagException string

definition diag_test :: "http_fetch \<Rightarrow> http_request \<Rightarrow> diag_result" where
  "diag_test fetch rq =
     (case fetch rq of
        Inl e \<Rightarrow> DiagException (err_message e)
      | Inr r \<Rightarrow> if http_ok r then DiagSuccess (hr_status r) (hr_body r) else DiagHttpError (hr_status r) (hr_body r))"

text \<open>\<open>testWebflowAPI\<close>: a missing setting exits with 1 before any request; otherwise every
  test runs, each in its own \<open>try\<close>, and the script ends normally.\<close>

definition testWebflowAPI ::
  "string option \<Rightarrow> string option \<Rightarrow> string option \<Rightarrow> http_fetch \<Rightarrow> (string \<times> http_request \<times> diag_result) list \<times> nat"
where
  "testWebflowAPI apiKey siteId collectionId fetch =
     (if \<not> js_truthy_str apiKey \<or> \<not> js_truthy_str siteId \<or> \<not> js_truthy_str collectionId then ([], 1)
      else (map (\<lambda>(label, rq). (label, rq, diag_test fetch rq))
                (diag_requests (the apiKey) (the siteId) (the collectionId)), 0))"

section \<open>The content-ingestion test\<close>

record ingestion_test_report =
  itr_initial :: content_stats
  itr_result :: content_ingestion_result
  itr_final :: content_stats
  itr_sample :: "content_item list"

definition sample_query :: content_query where
  "sample_query = \<lparr>cq_source = None, cq_contentType = None, cq_limit = Some 5, cq_offset = None\<rparr>"

text \<open>\<open>test()\<close>: a failed query reaches the \<open>catch\<close> and exits with 1; otherwise the exit
  code is 0 exactly when the ingestion reports success. The two CMS fetches enter as the results
  they deliver.\<close>

definition test_content_ingestion ::
  "ms \<Rightarrow> content_db \<Rightarrow> error + fetched_item list \<Rightarrow> error + fetched_item list \<Rightarrow>
     (error + ingestion_test_report) \<times> nat \<times> content_db"
where
  "test_content_ingestion now db webflow hubspot =
     (case getContentStats now db of
        Inl e \<Rightarrow> (Inl e, 1, db)
      | Inr initialStats \<Rightarrow>
          (let (result, db') = ingestAllContent now db webflow hubspot
           in case getContentStats now db' of
                Inl e \<Rightarrow> (Inl e, 1, db')
              | Inr finalStats \<Rightarrow>
                  (case getAllContent db' sample_query of
                     Inl e \<Rightarrow> (Inl e, 1, db')
                   | Inr sampleContent \<Rightarrow>
                       (Inr \<lparr>itr_initial = initialStats, itr_result = result, itr_final = finalStats,
                             itr_sample = sampleContent\<rparr>,
                        if cr_success result then 0 else 1, db'))))"

section \<open>Lemmas\<close>

text \<open>The tests are independent: whatever the server answers, the diagnostic sends the same
  six requests in order.\<close>

lemma testWebflowAPI_requests:
  "map (fst \<circ> snd) (fst (testWebflowAPI apiKey siteId collectionId fetch)) =
     (if js_truthy_str apiKey \<and> js_truthy_str siteId \<and> js_truthy_str collectionId
      then map snd (diag_requests (the apiKey) (the siteId) (the collectionId)) else [])"
  by (simp add: testWebflowAPI_def comp_def split_def)

lemma ingestAllContent_up:
  assumes "cdb_up db"
  shows "cdb_up (snd (ingestAllContent now db webflow hubspot)) \<and>
         cr_success (fst (ingestAllContent now db webflow hubspot)) = (\<not> isl webflow \<and> \<not> isl hubspot)"
proof -
  obtain rs db1 where b: "bulkUpsertContentItems now db (all_content (fetched_list webflow) (fetched_list hubspot)) = Inr (rs, db1)"
    and up1: "cdb_up db1"
    using bulk_up [OF assms] by blast
  show ?thesis
    using assms b up1
    by (cases webflow; cases hubspot)
       (auto simp: ingestAllContent_def Let_def guarded_fetch_def fetched_list_def getContentStats_def)
qed

section \<open>Properties of the diagnostics\<close>


text \<open>C38: the content-ingestion test exits with 0 exactly when the database is up and both
  CMS fetches succeed: a database outage ends it in its \<open>catch\<close>, and a failed fetch, which
  \<open>ingestAllContent\<close> only records, makes the reported result unsuccessful.\<close>

theorem test_content_ingestion_exit:
  "fst (snd (test_content_ingestion now db webflow hubspot)) =
     (if cdb_up db \<and> \<not> isl webflow \<and> \<not> isl hubspot then 0 else 1)"
proof (cases "cdb_up db")
  case False
  then show ?thesis
    by (simp add: test_content_ingestion_def getContentStats_def)
next
  case True
  obtain r db' where i: "ingestAllContent now db webflow hubspot = (r, db')"
    by (cases "ingestAllContent now db webflow hubspot")
  have "cdb_up db'" "cr_success r = (\<not> isl webflow \<and> \<not> isl hubspot)"
    using ingestAllContent_up [OF True, of now webflow hubspot] i by simp_all
  then show ?thesis
    using True i by (simp add: test_content_ingestion_def getContentStats_def getAllContent_def Let_def)
qed

end
