(* ===== verification/Spec2Isabelle.thy ===== *)
theory Spec2Isabelle
  imports Brand_Voice_Test Sections DB_Types Db_Scripts Diagnostics
begin

text \<open>
  \<^bold>\<open>A verification development of the social-post-star content and brand-voice pipeline.\<close>

  \<^bold>\<open>The program.\<close> The repository under \<open>src/\<close> is a Next.js service with two data paths.
  \<^item> The \<^emph>\<open>brand-voice knowledge pipeline\<close> reads PDF guides from a directory
    (\<open>pdf-reader\<close>, in \<open>src/lib/utils/hubspot.ts\<close>), cuts their text into overlapping chunks
    (\<open>text-chunker\<close>, same file), embeds the chunks with OpenAI (\<open>src/lib/ai/embeddings.ts\<close>),
    stores the vectors in \<open>brand_voice_embeddings\<close> (\<open>src/lib/db/queries/brand-voice.ts\<close>),
    orchestrated by \<open>ingestDocument\<close>/\<open>ingestAllDocuments\<close> (\<open>src/unnamed/part_006\<close>), and
    answers queries by similarity search (\<open>src/lib/ai/brand-voice-rag.ts\<close>).
  \<^item> The \<^emph>\<open>content catalogue\<close> fetches posts and landing pages from Webflow and HubSpot,
    upserts them into \<open>content_items\<close> (\<open>src/lib/db/queries/content.ts\<close>), orchestrated by
    \<open>ingestAllContent\<close> (\<open>src/unnamed/part_007\<close>) and scheduled by the polling module
    (\<open>src/lib/utils/content-polling.ts\<close>) that the refresh route calls.

  \<^bold>\<open>Theories.\<close> Each theory opens with a text saying what it models.
  \<^item> \<open>Prelude\<close>: the error values standing for the exceptions, the JavaScript builtins the
    sources call (\<open>toLowerCase\<close>, \<open>includes\<close>, \<open>endsWith\<close>, \<open>trim\<close>, \<open>substring\<close>, \<open>slice\<close>,
    \<open>join\<close>, \<open>String(n)\<close>), the slice-by-slice batching loop shared by three sources, JSON
    metadata objects and \<open>{...a, ...b}\<close>.
  \<^item> \<open>Embeddings\<close>: \<open>embeddings.ts\<close>. The OpenAI client is a parameter (a provider that
    rejects a request with a message or returns vectors and token usage); the batching loop of
    \<open>generateEmbeddingsBatch\<close> is a \<open>partial_function (option)\<close> refined by a structural
    recursion over the batches.
  \<^item> \<open>Knowledge_Store\<close>: \<open>brand-voice.ts\<close> over the table as explicit state (rows in table
    order, next id, statement clock); each statement fails as a whole on the schema's enum check.
  \<^item> \<open>Retrieval\<close>: \<open>brand-voice-rag.ts\<close> as functions of the provider and the table.
  \<^item> \<open>Chunker\<close>: \<open>chunkText\<close> and its helpers; the cursor loop is a
    \<open>partial_function (option)\<close>, so a call that never returns is \<open>None\<close>.
  \<^item> \<open>Ingestion\<close>: the PDF reader over a file system value, \<open>ingestDocument\<close> threading the
    table through delete, read, chunk, embed and insert (every exception of its \<open>try\<close> block
    is the failed result), and \<open>ingestAllDocuments\<close>.
  \<^item> \<open>Content\<close>: the \<open>ContentSource\<close>/\<open>ContentType\<close> enums and \<open>ContentItem\<close> types
    (\<open>src/unnamed/part_000\<close>) against the SQL enums, every query of \<open>content.ts\<close>, the
    \<open>Promise.all\<close> batches as every order the server may run them in (\<open>batch_run\<close>), the
    tagged template \<open>sql\<close> by the placeholder count the server sees, and an abstract catalogue
    (a map from URL to entry) that the table refines.
  \<^item> \<open>Content_Ingestion\<close>: \<open>ingestAllContent\<close> and the single-source variants; the two CMS
    clients enter as the fetch results they deliver.
  \<^item> \<open>CMS_Clients\<close>: the Webflow client (\<open>src/lib/utils/webflow.ts\<close>) and the HubSpot
    client (\<open>hubspot.ts\<close> lines 1-345) over their HTTP APIs as parameters: the offset and
    cursor pagination loops (\<open>partial_function (option)\<close>), the published-item and
    landing-page filters, the transformations, the content-type inference, the PDF-URL regular
    expression as a leftmost-match search, and \<open>ingest_from_clients\<close>, the two
    \<open>fetchAllContent\<close> calls of \<open>ingestAllContent\<close> made with these clients.
  \<^item> \<open>Sections\<close>: \<open>chunkBySection\<close> of the text chunker, its heading pattern modelled by the
    match the regular expression finds at a position, inside the left-to-right split loop.
  \<^item> \<open>Migrations\<close>: the migration runner (\<open>src/unnamed/part_004\<close>) over a database type
    parameter: file selection and order, the splitting of \<open>.sql\<close> files into statements,
    the statement loop without a transaction, the \<open>migrations\<close> table, and the script's
    report and exit code (\<open>migrate_main\<close>).
  \<^item> \<open>Schema\<close>: the schema scripts (\<open>reset-and-create.js\<close>, \<open>reset-migration.js\<close>, the
    enum script \<open>part_005\<close>, the \<open>source_file\<close> migration \<open>part_003\<close>) as lists of DDL
    statements over a schema state, with PostgreSQL's effect of each statement. The scripts
    that send DDL through Neon's serverless driver take a mode \<open>ddl_commit\<close>: the DDL
    persists (\<open>DdlPersists\<close>) or, as \<open>src/DEVELOPMENT.md\<close> (2026-01-15, lines
    126-129) reports, executes and is rolled back (\<open>DdlRolledBack\<close>); \<open>neon_ddl\<close> applies
    a statement in a mode, keeping its error in both. The \<open>pg\<close> client of
    \<open>reset-migration.js\<close> always persists.
  \<^item> \<open>Initial_Schema\<close>: \<open>001_initial_schema.sql\<close> statement by statement (extension, enums,
    tables, single- and multi-column indexes, the trigger function, triggers and views) over a
    catalogue record \<open>pg_db\<close> that extends the schema of \<open>Schema\<close>; \<open>exec_pg\<close> gives
    PostgreSQL's effect, with \<open>CASCADE\<close> removing what depends on a dropped table or column.
    \<open>sql001_runner_pieces\<close> is the file as the migration runner sends it, split at every
    \<open>;\<close>, so that the \<open>$$\<close>-quoted function body arrives in pieces (\<open>RawSql\<close>),
    each rejected by the server.
  \<^item> \<open>DB_Types\<close>: the types module \<open>part_000\<close> (enums as datatypes with \<open>enum\<close>
    instances, interfaces and \<open>Omit\<close> types as field lists) and the interface of
    \<open>brand-voice.ts\<close>, compared with the catalogue of \<open>Initial_Schema\<close> through the
    values the database driver returns for each column type (non-NULL values only).
  \<^item> \<open>Db_Client\<close>: the database client module (\<open>client.ts\<close>, concatenated into
    \<open>src/lib/db/manual-test.js\<close> lines 64-169): the cached connection string \<open>_sql\<close> as
    explicit state threaded through \<open>getConnection\<close>, the \<open>Proxy\<close> that connects on each
    use (\<open>sql_query\<close>), and \<open>testConnection\<close>, \<open>getDatabaseVersion\<close>, \<open>tableExists\<close>
    and \<open>listTables\<close> with their catch branches, over a map from connection strings to the
    reachable servers, each holding a catalogue of \<open>Initial_Schema\<close>.
  \<^item> \<open>Db_Scripts\<close>: the test scripts \<open>test-create-table.js\<close>, \<open>manual-test.js\<close> (its
    first module), both scripts of \<open>debug-schema.js\<close> and the \<open>simple_test\<close> script of
    \<open>part_002\<close>, over the schema of \<open>Schema\<close> extended with the statement forms they use
    (a \<open>DO\<close> block ignoring a duplicate type, \<open>IF NOT EXISTS\<close>, \<open>DROP ... IF EXISTS\<close>
    restricted by dependants), each returning what it reports; the scripts send their DDL
    through the serverless driver in a mode of \<open>Schema\<close>.
  \<^item> \<open>Diagnostics\<close>: the request \<open>fetchCollection\<close> of the Webflow client sends (URL and
    headers; the \<open>webflow_api\<close> of \<open>CMS_Clients\<close> is this request followed by the JSON
    decoding), the Webflow diagnostic \<open>part_008\<close> with its six independent requests, and the
    content-ingestion test of \<open>part_002\<close> composed from \<open>getContentStats\<close>,
    \<open>ingestAllContent\<close> and \<open>getAllContent\<close>.
  \<^item> \<open>Routes\<close>: the API routes of \<open>part_009\<close> and \<open>part_010\<close> (brand-voice status and
    ingestion, content status) as functions from the services' state to the HTTP status and
    JSON body, composed from the service definitions.
  \<^item> \<open>Brand_Voice_Test\<close>: the brand-voice system test script of \<open>part_006\<close>, composed
    from the ingestion and retrieval definitions, with its exit codes.
  \<^item> \<open>Polling\<close>: \<open>content-polling.ts\<close> as an inductive step relation over the module
    variables, the clock, the content table and the program counters of concurrent requests,
    one step per run up to an \<open>await\<close>; the status functions and the refresh route.

  \<^bold>\<open>What the lemmas show.\<close> Each theory ends with a section of properties, each after a
  text naming its claim. In summary: ranking, top-k and round-trip properties of the
  knowledge store and the invariant of its writes, with the non-atomic bulk insert; the
  retrieval results and the ignored source filter; termination, invariants, coverage and the
  length bound of the chunker, the duplicate tail chunk and the divergence with
  \<open>preserveWhitespace\<close>; batch order and termination of the embedding loop and its divergence
  for batch size 0; the success, replace, failure and termination behaviour of document
  ingestion, which sources can ever be stored, and the per-document results of a directory;
  the refinement of the content table by the URL map, order independence and the race of a
  \<open>Promise.all\<close> batch, the table invariant, the two queries that can never succeed, the
  query order and the enum agreement; the statistics of content ingestion; the pagination, filters and PDF-URL extraction of the
  CMS clients, the cursor cycle that never returns, and a Webflow-only ingestion when HubSpot
  fails; the text preserved by the section split and the drifting section positions; the
  successful, idempotent and partially failing migration runs, the statement split and how
  it cuts the trigger function of the initial schema, and the re-attempt migration that can
  never run; what the reset does in each driver mode (the full reset when DDL persists, no
  change when it is rolled back), the agreement of the pg-client setup script with it exactly
  when DDL persists, the schema against the
  enums the queries assume and its missing \<open>source_file\<close> column, and the up/down round
  trip of the \<open>source_file\<close> migration; the catalogue invariant of every reachable database,
  the failure of the initial migration under the runner on every database before any function,
  trigger or view is created, and its failure when run again after
  \<open>reset-migration.js\<close>; the consistency of the content
  status route and how the ingest route reads \<open>reIngest\<close>; the knowledge store's interface
  against the migrated schema; the client pinned to the first
  \<open>DATABASE_URL\<close> and its helpers that cannot tell an unreachable server from an empty
  database; the test scripts: the table test that restores a clean schema in both driver
  modes and tells them apart, but drops a table it did not create when DDL persists, the
  manual test that reports a migration it did not check, and the debug listing that puts
  every table under \<open>undefined\<close>; the diagnostic's Test 6 as the client's request and
  Test 3, called the current implementation, as a different one, and the exit code of the content-ingestion test; the brand-voice test script that only reads an
  initialised knowledge base and passes with no documents; and the lock invariant, the
  rejection race and the schedule agreement of polling.

  \<^bold>\<open>Bounds and fuel.\<close> No fuel is used: loops that may not end are
  \<open>partial_function (option)\<close> and their termination is proved under the conditions that make
  it hold (\<open>chunkSize > chunkOverlap + 200\<close> with normalised white space for the chunker,
  a positive batch size for the embedding loop, a consistently paged collection for the Webflow
  loop), while the divergent cases are proved to
  give \<open>None\<close>. Numbers are unbounded (\<open>nat\<close>, \<open>int\<close>, exact reals): every quantity of the
  sources is a JavaScript number far below \<open>2\<^sup>5\<^sup>3\<close>, so no rounding or overflow arises; times
  are milliseconds since the epoch.

  \<^bold>\<open>Not modelled.\<close> Custom \<open>fieldData\<close> fields of Webflow items and landing-page
  fields beyond those the clients read; console output, including \<open>showBrandVoiceStats\<close>
  and the table listing that closes the migration runner; the lazily created OpenAI client
  and its missing-key error (the provider parameter stands for it); the script lines that
  print the server time, the version or raw rows, and the order of a \<open>SELECT *\<close> without
  \<open>ORDER BY\<close> (read in insertion order); NULL values (the schema does not record
  \<open>NOT NULL\<close>, so the types are compared on present values only); the JSON decoding of the diagnostic's replies; the
  statements of \<open>002_reattempt_schema.js\<close>, whose module does not parse, so that no code of
  it can ever run (\<open>Migrations\<close> proves the runner stops at it); markdown documents
  (\<open>part_001\<close> and the \<open>.md\<close> files), which have no behaviour.
\<close>

end
